(* ===== verification/SW_Prelude.thy ===== *)
theory SW_Prelude
  imports Main "HOL-Library.Sublist"
begin

text \<open>
  Shared vocabulary of the development.

  Go's \<open>error\<close> value is an \<open>'e option\<close>: \<open>None\<close> is \<open>nil\<close>.  A Go function that returns
  \<open>(T, error)\<close> returns \<open>'e + 'a\<close>, \<open>Inl\<close> for the error.  A check that runs several
  checks in order and returns the first error is \<open>orelse\<close>; a loop that returns the first
  error of its elements is \<open>first_err\<close>.

  The theorem collections: \<open>checks\<close> holds the facts that turn a check into its acceptance
  condition, \<open>trace_simps\<close> the facts that project a call trace on one kind of call.
\<close>

named_theorems checks "acceptance conditions of the validation functions"
named_theorems trace_simps "projections of call traces"

section \<open>Checks that return the first error\<close>

definition orelse :: "'e option \<Rightarrow> 'e option \<Rightarrow> 'e option" where
  "orelse a b = (case a of None \<Rightarrow> b | Some e \<Rightarrow> Some e)"

lemma orelse_simps [simp]: "orelse None b = b" "orelse (Some e) b = Some e" "orelse a None = a"
  by (simp_all add: orelse_def split: option.split)

lemma orelse_None [simp]: "orelse a b = None \<longleftrightarrow> a = None \<and> b = None"
  by (cases a) auto

lemma orelse_Some: "orelse a b = Some e \<longleftrightarrow> a = Some e \<or> a = None \<and> b = Some e"
  by (cases a) auto

definition err_if :: "bool \<Rightarrow> 'e \<Rightarrow> 'e option" where
  "err_if c e = (if c then Some e else None)"

lemma err_if_simps [simp]:
  "err_if True e = Some e" "err_if False e = None"
  "err_if c e = None \<longleftrightarrow> \<not> c" "err_if c e = Some e' \<longleftrightarrow> c \<and> e' = e"
  by (auto simp: err_if_def)

fun first_err :: "('a \<Rightarrow> 'e option) \<Rightarrow> 'a list \<Rightarrow> 'e option" where
  "first_err f [] = None"
| "first_err f (x # xs) = orelse (f x) (first_err f xs)"

lemma first_err_None [simp]: "first_err f xs = None \<longleftrightarrow> (\<forall>x \<in> set xs. f x = None)"
  by (induction xs) auto

lemma first_err_Some: "first_err f xs = Some e \<Longrightarrow> \<exists>x \<in> set xs. f x = Some e"
  by (induction xs) (auto simp: orelse_Some)

section \<open>Results\<close>

abbreviation is_ok :: "'e + 'a \<Rightarrow> bool" where
  "is_ok r \<equiv> \<not> isl r"

definition to_result :: "'e option \<Rightarrow> 'a \<Rightarrow> 'e + 'a" where
  "to_result e a = (case e of None \<Rightarrow> Inr a | Some x \<Rightarrow> Inl x)"

lemma to_result_simps [simp]:
  "to_result None a = Inr a" "to_result (Some e) a = Inl e"
  "to_result x a = Inr b \<longleftrightarrow> x = None \<and> b = a" "to_result x a = Inl e \<longleftrightarrow> x = Some e"
  by (auto simp: to_result_def split: option.split)

definition map_error :: "('e \<Rightarrow> 'f) \<Rightarrow> 'e + 'a \<Rightarrow> 'f + 'a" where
  "map_error f r = (case r of Inl e \<Rightarrow> Inl (f e) | Inr a \<Rightarrow> Inr a)"

lemma map_error_simps [simp]:
  "map_error f (Inl e) = Inl (f e)" "map_error f (Inr a) = Inr a"
  "map_error f r = Inr b \<longleftrightarrow> r = Inr b"
  by (auto simp: map_error_def split: sum.split)

section \<open>Lists\<close>

lemma find_None_iff': "find P xs = None \<longleftrightarrow> (\<forall>x \<in> set xs. \<not> P x)"
  by (induction xs) auto

lemma find_SomeD: "find P xs = Some x \<Longrightarrow> x \<in> set xs \<and> P x"
  by (induction xs) (auto split: if_splits)

lemma length_filter_append_single:
  "length (filter P (xs @ [x])) = length (filter P xs) + (if P x then 1 else 0)"
  by simp

lemma takeWhile_dropWhile_split:
  "c \<in> set s \<Longrightarrow> s = takeWhile (\<lambda>x. x \<noteq> c) s @ c # tl (dropWhile (\<lambda>x. x \<noteq> c) s)"
  by (induction s) auto

section \<open>Transition systems\<close>

text \<open>
  The contract every state machine of the development is checked against: an invariant that
  holds initially and is kept by every step.  Each step relation interprets this locale
  with its own invariant, and takes from it that every reachable state is invariant.
\<close>

inductive reach :: "('s \<Rightarrow> bool) \<Rightarrow> ('s \<Rightarrow> 's \<Rightarrow> bool) \<Rightarrow> 's \<Rightarrow> bool" for init step where
  reach_init: "init s \<Longrightarrow> reach init step s"
| reach_step: "reach init step s \<Longrightarrow> step s t \<Longrightarrow> reach init step t"

locale invariant_system =
  fixes init :: "'s \<Rightarrow> bool" and step :: "'s \<Rightarrow> 's \<Rightarrow> bool" and inv :: "'s \<Rightarrow> bool"
  assumes inv_init: "init s \<Longrightarrow> inv s"
    and inv_step: "inv s \<Longrightarrow> step s t \<Longrightarrow> inv t"
begin

lemma reach_inv: "reach init step s \<Longrightarrow> inv s"
  by (induction rule: reach.induct) (auto intro: inv_init inv_step)

lemma steps_inv: "step\<^sup>*\<^sup>* s t \<Longrightarrow> inv s \<Longrightarrow> inv t"
  by (induction rule: rtranclp_induct) (auto intro: inv_step)

end

text \<open>An assertion that other goroutines cannot break: stable under one step of what they may
  do, so stable under any number of their steps.\<close>

locale rely_stable =
  fixes rely :: "'s \<Rightarrow> 's \<Rightarrow> bool" and P :: "'s \<Rightarrow> bool"
  assumes stable: "P s \<Longrightarrow> rely s t \<Longrightarrow> P t"
begin

lemma stable_steps: "rely\<^sup>*\<^sup>* s t \<Longrightarrow> P s \<Longrightarrow> P t"
  by (induction rule: rtranclp_induct) (auto intro: stable)

end

lemma reach_steps: "reach init step s \<Longrightarrow> step\<^sup>*\<^sup>* s t \<Longrightarrow> reach init step t"
  by (rotate_tac, induction rule: rtranclp_induct) (auto intro: reach_step)

end
