(* ===== verification/Go_Strings.thy ===== *)
theory Go_Strings
  imports SW_Prelude
begin

text \<open>
  What the program uses of Go's \<open>strings\<close> and \<open>unicode/utf8\<close> packages.  A Go string is a
  sequence of bytes, here \<open>string\<close> (a list of \<open>char\<close>, 0 to 255).  Ranging over a string
  decodes UTF-8, a malformed byte giving the rune U+FFFD of width one: \<open>runes\<close>.
\<close>

section \<open>Runes\<close>

abbreviation byte :: "char \<Rightarrow> nat" where
  "byte c \<equiv> of_char c"

definition is_cont :: "nat \<Rightarrow> nat \<Rightarrow> char \<Rightarrow> bool" where
  "is_cont lo hi c \<longleftrightarrow> lo \<le> byte c \<and> byte c \<le> hi"

definition second_range :: "nat \<Rightarrow> nat \<times> nat" where
  "second_range b =
     (if b = 0xE0 then (0xA0, 0xBF) else if b = 0xED then (0x80, 0x9F)
      else if b = 0xF0 then (0x90, 0xBF) else if b = 0xF4 then (0x80, 0x8F) else (0x80, 0xBF))"

definition rune_error :: nat where
  "rune_error = 0xFFFD"

text \<open>The first rune of a non-empty byte sequence and the number of bytes it takes.\<close>

definition decode_rune :: "char \<Rightarrow> string \<Rightarrow> nat \<times> nat" where
  "decode_rune c cs =
     (let b = byte c; (lo, hi) = second_range b in
      if b < 0x80 then (b, 1)
      else if 0xC2 \<le> b \<and> b \<le> 0xDF then
        (case cs of c1 # _ \<Rightarrow> if is_cont lo hi c1
            then ((b - 0xC0) * 64 + (byte c1 - 0x80), 2) else (rune_error, 1)
         | _ \<Rightarrow> (rune_error, 1))
      else if 0xE0 \<le> b \<and> b \<le> 0xEF then
        (case cs of c1 # c2 # _ \<Rightarrow> if is_cont lo hi c1 \<and> is_cont 0x80 0xBF c2
            then ((b - 0xE0) * 4096 + (byte c1 - 0x80) * 64 + (byte c2 - 0x80), 3)
            else (rune_error, 1)
         | _ \<Rightarrow> (rune_error, 1))
      else if 0xF0 \<le> b \<and> b \<le> 0xF4 then
        (case cs of c1 # c2 # c3 # _ \<Rightarrow>
            if is_cont lo hi c1 \<and> is_cont 0x80 0xBF c2 \<and> is_cont 0x80 0xBF c3
            then ((b - 0xF0) * 262144 + (byte c1 - 0x80) * 4096 + (byte c2 - 0x80) * 64
                  + (byte c3 - 0x80), 4)
            else (rune_error, 1)
         | _ \<Rightarrow> (rune_error, 1))
      else (rune_error, 1))"

fun runes :: "string \<Rightarrow> nat list" where
  "runes [] = []"
| "runes (c # cs) = (let (r, w) = decode_rune c cs in r # runes (drop (w - 1) cs))"

lemma decode_rune_ascii: "byte c < 128 \<Longrightarrow> decode_rune c cs = (byte c, 1)"
  by (simp add: decode_rune_def Let_def split: prod.split)

lemma runes_ascii: "\<forall>c \<in> set s. byte c < 128 \<Longrightarrow> runes s = map of_char s"
  by (induction s) (auto simp: decode_rune_ascii)

text \<open>\<open>unicode.IsSpace\<close>\<close>

definition is_space :: "nat \<Rightarrow> bool" where
  "is_space r \<longleftrightarrow> 9 \<le> r \<and> r \<le> 13 \<or> r = 32 \<or> r = 0x85 \<or> r = 0xA0 \<or> r = 0x1680
     \<or> 0x2000 \<le> r \<and> r \<le> 0x200A \<or> r = 0x2028 \<or> r = 0x2029 \<or> r = 0x202F \<or> r = 0x205F
     \<or> r = 0x3000"

text \<open>\<open>strings.TrimSpace(s) == ""\<close>: every rune is white space.\<close>

definition blank :: "string \<Rightarrow> bool" where
  "blank s \<longleftrightarrow> list_all is_space (runes s)"

lemma blank_Nil [simp]: "blank []"
  by (simp add: blank_def)

text \<open>\<open>strings.Fields\<close>: the maximal runs of bytes whose runes are not white space.\<close>

function fields_aux :: "string \<Rightarrow> string \<Rightarrow> string list" where
  "fields_aux cur [] = (if cur = [] then [] else [cur])"
| "fields_aux cur (c # cs) =
     (let (r, w) = decode_rune c cs; w' = w - 1 in
      if is_space r
      then (if cur = [] then [] else [cur]) @ fields_aux [] (drop w' cs)
      else fields_aux (cur @ c # take w' cs) (drop w' cs))"
  by pat_completeness auto
termination
  by (relation "measure (\<lambda>(cur, s). length s)") auto

definition Fields :: "string \<Rightarrow> string list" where
  "Fields s = fields_aux [] s"

section \<open>Searching and cutting\<close>

definition HasPrefix :: "string \<Rightarrow> string \<Rightarrow> bool" where
  "HasPrefix s p \<longleftrightarrow> prefix p s"

definition CutPrefix :: "string \<Rightarrow> string \<Rightarrow> string option" where
  "CutPrefix s p = (if prefix p s then Some (drop (length p) s) else None)"

definition TrimPrefix :: "string \<Rightarrow> string \<Rightarrow> string" where
  "TrimPrefix s p = (if prefix p s then drop (length p) s else s)"

lemma HasPrefix_append [simp]: "HasPrefix (p @ s) p"
  by (simp add: HasPrefix_def)

lemma CutPrefix_append [simp]: "CutPrefix (p @ s) p = Some s"
  by (simp add: CutPrefix_def)

lemma TrimPrefix_append [simp]: "TrimPrefix (p @ s) p = s"
  by (simp add: TrimPrefix_def)

lemma CutPrefix_Some: "CutPrefix s p = Some r \<longleftrightarrow> s = p @ r"
  by (auto simp: CutPrefix_def prefix_def)

text \<open>\<open>strings.Cut(s, sep)\<close> for a one-byte separator; \<open>None\<close> when it is not found.\<close>

definition CutChar :: "char \<Rightarrow> string \<Rightarrow> (string \<times> string) option" where
  "CutChar c s = (if c \<in> set s
     then Some (takeWhile (\<lambda>x. x \<noteq> c) s, tl (dropWhile (\<lambda>x. x \<noteq> c) s)) else None)"

lemma CutChar_Some: "CutChar c s = Some (a, b) \<longleftrightarrow> s = a @ c # b \<and> c \<notin> set a"
proof
  assume "CutChar c s = Some (a, b)"
  then have c: "c \<in> set s" and a: "a = takeWhile (\<lambda>x. x \<noteq> c) s"
    and b: "b = tl (dropWhile (\<lambda>x. x \<noteq> c) s)"
    by (auto simp: CutChar_def split: if_splits)
  from takeWhile_dropWhile_split [OF c] a b have "s = a @ c # b" by simp
  moreover have "c \<notin> set a" using a by (auto dest: set_takeWhileD)
  ultimately show "s = a @ c # b \<and> c \<notin> set a" ..
next
  assume "s = a @ c # b \<and> c \<notin> set a"
  then show "CutChar c s = Some (a, b)"
    by (auto simp: CutChar_def takeWhile_append dropWhile_append split: if_splits)
qed

lemma CutChar_append [simp]: "c \<notin> set a \<Longrightarrow> CutChar c (a @ c # b) = Some (a, b)"
  by (simp add: CutChar_Some)

lemma CutChar_None: "CutChar c s = None \<longleftrightarrow> c \<notin> set s"
  by (simp add: CutChar_def)

text \<open>\<open>strings.Contains\<close>\<close>

fun Contains :: "string \<Rightarrow> string \<Rightarrow> bool" where
  "Contains [] sub \<longleftrightarrow> sub = []"
| "Contains (c # cs) sub \<longleftrightarrow> prefix sub (c # cs) \<or> Contains cs sub"

lemma Contains_iff: "Contains s sub \<longleftrightarrow> (\<exists>a b. s = a @ sub @ b)"
proof (induction s)
  case Nil
  then show ?case by auto
next
  case (Cons c cs)
  show ?case
  proof
    assume "Contains (c # cs) sub"
    then consider "prefix sub (c # cs)" | "Contains cs sub" by auto
    then show "\<exists>a b. c # cs = a @ sub @ b"
    proof cases
      case 1
      then obtain b where "c # cs = [] @ sub @ b" by (auto simp: prefix_def)
      then show ?thesis by blast
    next
      case 2
      with Cons.IH obtain a b where "cs = a @ sub @ b" by blast
      then have "c # cs = (c # a) @ sub @ b" by simp
      then show ?thesis by blast
    qed
  next
    assume "\<exists>a b. c # cs = a @ sub @ b"
    then obtain a b where ab: "c # cs = a @ sub @ b" by blast
    show "Contains (c # cs) sub"
    proof (cases a)
      case Nil
      with ab have "prefix sub (c # cs)" by (simp add: prefix_def)
      then show ?thesis by simp
    next
      case (Cons x a')
      with ab have "cs = a' @ sub @ b" by simp
      with Cons.IH show ?thesis by auto
    qed
  qed
qed

text \<open>\<open>strings.ReplaceAll\<close>, for a pattern that is not empty.\<close>

function ReplaceAll :: "string \<Rightarrow> string \<Rightarrow> string \<Rightarrow> string" where
  "ReplaceAll [] old new = []"
| "ReplaceAll (c # cs) old new =
     (if old \<noteq> [] \<and> prefix old (c # cs)
      then new @ ReplaceAll (drop (length old) (c # cs)) old new
      else c # ReplaceAll cs old new)"
  by pat_completeness auto
termination
  by (relation "measure (\<lambda>(s, old, new). length s)") (auto simp: neq_Nil_conv)

lemma ReplaceAll_absent: "\<not> Contains s old \<Longrightarrow> ReplaceAll s old new = s"
  by (induction s) auto

section \<open>Splitting at a separator byte\<close>

fun split_on :: "char \<Rightarrow> string \<Rightarrow> string list" where
  "split_on c [] = [[]]"
| "split_on c (x # xs) =
     (if x = c then [] # split_on c xs
      else (case split_on c xs of [] \<Rightarrow> [[x]] | h # t \<Rightarrow> (x # h) # t))"

fun join_with :: "string \<Rightarrow> string list \<Rightarrow> string" where
  "join_with sep [] = []"
| "join_with sep [s] = s"
| "join_with sep (s # t # ts) = s @ sep @ join_with sep (t # ts)"

lemma split_on_not_Nil [simp]: "split_on c s \<noteq> []"
  by (induction s) (auto split: list.split)

lemma split_on_no_sep: "c \<notin> set s \<Longrightarrow> split_on c s = [s]"
  by (induction s) auto

lemma split_on_append: "c \<notin> set a \<Longrightarrow> split_on c (a @ c # b) = a # split_on c b"
  by (induction a) auto

lemma split_on_segments: "seg \<in> set (split_on c s) \<Longrightarrow> c \<notin> set seg"
proof (induction s arbitrary: seg)
  case Nil
  then show ?case by simp
next
  case (Cons x xs)
  obtain h t where ht: "split_on c xs = h # t"
    by (cases "split_on c xs") auto
  with Cons show ?case by (auto split: if_splits)
qed

lemma set_split_on: "seg \<in> set (split_on c s) \<Longrightarrow> set seg \<subseteq> set s"
proof (induction s arbitrary: seg)
  case Nil
  then show ?case by simp
next
  case (Cons x xs)
  obtain h t where ht: "split_on c xs = h # t"
    by (cases "split_on c xs") auto
  with Cons show ?case by (fastforce split: if_splits)
qed

lemma join_split_on: "join_with [c] (split_on c s) = s"
proof (induction s)
  case Nil
  then show ?case by simp
next
  case (Cons x xs)
  obtain h t where ht: "split_on c xs = h # t"
    by (cases "split_on c xs") auto
  with Cons show ?case by (cases t) auto
qed

lemma split_on_join:
  "segs \<noteq> [] \<Longrightarrow> \<forall>s \<in> set segs. c \<notin> set s \<Longrightarrow> split_on c (join_with [c] segs) = segs"
proof (induction "[c]" segs rule: join_with.induct)
  case (3 s t ts)
  then show ?case using split_on_append [of c s "join_with [c] (t # ts)"] by simp
qed (auto simp: split_on_no_sep)

lemma set_join_with: "set (join_with sep ss) \<subseteq> set sep \<union> (\<Union>s \<in> set ss. set s)"
  by (induction sep ss rule: join_with.induct) auto

section \<open>Numbers and paths\<close>

text \<open>\<open>%d\<close> of \<open>fmt\<close> and \<open>strconv.FormatUint\<close>.\<close>

fun decimal_nat :: "nat \<Rightarrow> string" where
  "decimal_nat n = (if n < 10 then [char_of (48 + n)]
     else decimal_nat (n div 10) @ [char_of (48 + n mod 10)])"

declare decimal_nat.simps [simp del]

definition decimal :: "int \<Rightarrow> string" where
  "decimal i = (if i < 0 then ''-'' @ decimal_nat (nat (- i)) else decimal_nat (nat i))"

lemma decimal_nat_not_Nil [simp]: "decimal_nat n \<noteq> []"
  by (subst decimal_nat.simps) simp

definition of_decimal :: "string \<Rightarrow> nat" where
  "of_decimal s = foldl (\<lambda>a c. a * 10 + (byte c - 48)) 0 s"

lemma of_decimal_nat: "of_decimal (decimal_nat n) = n"
proof (induction n rule: decimal_nat.induct)
  case (1 n)
  then show ?case
    by (subst decimal_nat.simps) (auto simp: of_decimal_def)
qed

lemma decimal_nat_inj: "decimal_nat m = decimal_nat n \<longleftrightarrow> m = n"
  by (metis of_decimal_nat)

text \<open>
  \<open>path/filepath\<close> on a slash system: \<open>Clean\<close> drops empty and dot elements and resolves
  dot-dot lexically, \<open>Join\<close> skips empty elements and cleans, \<open>Base\<close> is the last element.
\<close>

fun clean_segs :: "bool \<Rightarrow> string list \<Rightarrow> string list \<Rightarrow> string list" where
  "clean_segs rooted acc [] = rev acc"
| "clean_segs rooted acc (s # ss) =
     (if s = [] \<or> s = ''.'' then clean_segs rooted acc ss
      else if s = ''..'' then
        (if acc \<noteq> [] \<and> hd acc \<noteq> ''..'' then clean_segs rooted (tl acc) ss
         else if rooted then clean_segs rooted acc ss
         else clean_segs rooted (s # acc) ss)
      else clean_segs rooted (s # acc) ss)"

definition path_Clean :: "string \<Rightarrow> string" where
  "path_Clean p =
     (let rooted = prefix ''/'' p; body = join_with ''/'' (clean_segs rooted [] (split_on CHR ''/'' p)) in
      if rooted then ''/'' @ body else if body = [] then ''.'' else body)"

definition path_Join :: "string list \<Rightarrow> string" where
  "path_Join es = (let es' = dropWhile (\<lambda>e. e = []) es in
     if es' = [] then [] else path_Clean (join_with ''/'' (filter (\<lambda>e. e \<noteq> []) es')))"

definition path_Base :: "string \<Rightarrow> string" where
  "path_Base p =
     (if p = [] then ''.''
      else let q = rev (dropWhile (\<lambda>c. c = CHR ''/'') (rev p)) in
        if q = [] then ''/'' else last (split_on CHR ''/'' q))"

end
