(* ===== verification/Go_Time.thy ===== *)
theory Go_Time
  imports Go_Strings "HOL-Library.Log_Nat"
begin

text \<open>
  What the program uses of Go's \<open>time\<close> package: \<open>time.ParseDuration\<close> with its 64-bit
  arithmetic and overflow checks, and the acceptance of \<open>time.Parse(time.RFC3339, s)\<close>.
  A \<open>time.Duration\<close> is a signed 64-bit count of nanoseconds, here an \<open>int\<close> that
  \<open>ParseDuration_bounds\<close> shows to lie in the 64-bit range; a \<open>time.Time\<close> is the \<open>int\<close>
  count of nanoseconds since a fixed origin.
\<close>

type_synonym duration = int
type_synonym time = int

abbreviation Millisecond :: duration where "Millisecond \<equiv> 1000000"
abbreviation Second :: duration where "Second \<equiv> 1000000000"
abbreviation Minute :: duration where "Minute \<equiv> 60000000000"
abbreviation Hour :: duration where "Hour \<equiv> 3600000000000"

definition is_digit :: "char \<Rightarrow> bool" where
  "is_digit c \<longleftrightarrow> 48 \<le> byte c \<and> byte c \<le> 57"

definition digit_val :: "char \<Rightarrow> nat" where
  "digit_val c = byte c - 48"

section \<open>float64 rounding of positive rationals\<close>

text \<open>
  The fraction of a duration component goes through float64: \<open>float64(f) * (float64(unit) /
  scale)\<close>.  \<open>fl (n, d)\<close> is the positive rational n/d rounded to 53 significant bits, ties
  to even, as a pair again.  The exponent is not bounded: where float64 would underflow or
  reach infinity the product truncates to 0 in both.
\<close>

definition fl :: "nat \<times> nat \<Rightarrow> nat \<times> nat" where
  "fl r = (let (n, d) = r in
     if n = 0 then (0, 1) else
     let s0 = 53 - (int (floorlog 2 n) - int (floorlog 2 d));
         q0 = (n * 2 ^ nat s0) div (d * 2 ^ nat (- s0));
         s = (if 2 ^ 53 \<le> q0 then s0 - 1 else s0);
         num = n * 2 ^ nat s; den = d * 2 ^ nat (- s);
         q = num div den; rm = num mod den;
         q' = (if den < 2 * rm \<or> 2 * rm = den \<and> odd q then q + 1 else q)
     in (q' * 2 ^ nat (- s), 2 ^ nat s))"

definition fl_mul :: "nat \<times> nat \<Rightarrow> nat \<times> nat \<Rightarrow> nat \<times> nat" where
  "fl_mul a b = fl (fst a * fst b, snd a * snd b)"

definition fl_div :: "nat \<times> nat \<Rightarrow> nat \<times> nat \<Rightarrow> nat \<times> nat" where
  "fl_div a b = fl (fst a * snd b, snd a * fst b)"

definition frac_part :: "nat \<Rightarrow> nat \<Rightarrow> nat \<times> nat \<Rightarrow> nat" where
  "frac_part f unit scale =
     (let (n, d) = fl_mul (fl (f, 1)) (fl_div (fl (unit, 1)) scale) in n div d)"

section \<open>time.ParseDuration\<close>

text \<open>\<open>leadingInt\<close>: the digits at the front, \<open>None\<close> on overflow of 1<<63.\<close>

fun leading_int :: "nat \<Rightarrow> string \<Rightarrow> (nat \<times> string) option" where
  "leading_int x [] = Some (x, [])"
| "leading_int x (c # cs) =
     (if \<not> is_digit c then Some (x, c # cs)
      else if 2 ^ 63 div 10 < x then None
      else let y = x * 10 + digit_val c in
           if 2 ^ 63 < y then None else leading_int y cs)"

text \<open>\<open>leadingFraction\<close>: value, scale (a float64) and rest; digits past an overflow are
  skipped.\<close>

fun leading_fraction :: "nat \<Rightarrow> nat \<times> nat \<Rightarrow> bool \<Rightarrow> string \<Rightarrow> nat \<times> (nat \<times> nat) \<times> string" where
  "leading_fraction x sc ovf [] = (x, sc, [])"
| "leading_fraction x sc ovf (c # cs) =
     (if \<not> is_digit c then (x, sc, c # cs)
      else if ovf then leading_fraction x sc True cs
      else if (2 ^ 63 - 1) div 10 < x then leading_fraction x sc True cs
      else let y = x * 10 + digit_val c in
           if 2 ^ 63 < y then leading_fraction x sc True cs
           else leading_fraction y (fl_mul sc (10, 1)) False cs)"

definition unit_of :: "string \<Rightarrow> nat option" where
  "unit_of u = map_of
     [(''ns'', 1), (''us'', 1000), ([CHR 0xC2, CHR 0xB5, CHR ''s''], 1000),
      ([CHR 0xCE, CHR 0xBC, CHR ''s''], 1000), (''ms'', 1000000), (''s'', 1000000000),
      (''m'', 60000000000), (''h'', 3600000000000)] u"

definition unit_char :: "char \<Rightarrow> bool" where
  "unit_char c \<longleftrightarrow> c \<noteq> CHR ''.'' \<and> \<not> is_digit c"

text \<open>One component \<open>[0-9]*(\.[0-9]*)?unit\<close> of the loop: its nanoseconds and the rest.
  \<open>after_point\<close> reads the optional fraction: value, scale, rest, and whether it had digits.\<close>

definition after_point :: "string \<Rightarrow> nat \<times> (nat \<times> nat) \<times> string \<times> bool" where
  "after_point s =
     (if s \<noteq> [] \<and> hd s = CHR ''.''
      then (let (f, scale, r) = leading_fraction 0 (1, 1) False (tl s)
            in (f, scale, r, length r \<noteq> length (tl s)))
      else (0, (1, 1), s, False))"

definition with_unit :: "nat \<Rightarrow> nat \<Rightarrow> nat \<times> nat \<Rightarrow> nat \<Rightarrow> nat option" where
  "with_unit v f scale unit =
     (if 2 ^ 63 div unit < v then None
      else let w = v * unit + (if 0 < f then frac_part f unit scale else 0)
           in if 0 < f \<and> 2 ^ 63 < w then None else Some w)"

definition duration_component :: "string \<Rightarrow> (nat \<times> string) option" where
  "duration_component s =
     (if s = [] \<or> \<not> (hd s = CHR ''.'' \<or> is_digit (hd s)) then None
      else Option.bind (leading_int 0 s) (\<lambda>(v, s1).
        let (f, scale, s2, post) = after_point s1;
            u = takeWhile unit_char s2; rest = dropWhile unit_char s2 in
        if length s1 = length s \<and> \<not> post then None
        else if u = [] then None
        else Option.bind (unit_of u) (\<lambda>unit.
          map_option (\<lambda>w. (w, rest)) (with_unit v f scale unit))))"

lemma leading_int_length: "leading_int x s = Some (v, r) \<Longrightarrow> length r \<le> length s"
  by (induction x s rule: leading_int.induct) (fastforce simp: Let_def split: if_splits)+

lemma leading_fraction_length:
  "leading_fraction x sc b s = (v, sc', r) \<Longrightarrow> length r \<le> length s"
  by (induction x sc b s rule: leading_fraction.induct)
     (fastforce simp: Let_def split: if_splits)+

lemma takeWhile_shortens: "takeWhile P s \<noteq> [] \<Longrightarrow> length (dropWhile P s) < length s"
  by (cases s) (auto simp: le_imp_less_Suc length_dropWhile_le split: if_splits)

lemma after_point_length: "after_point s = (f, sc, r, p) \<Longrightarrow> length r \<le> length s"
  by (cases s) (auto simp: after_point_def dest!: leading_fraction_length
      split: if_splits prod.splits)

lemma duration_component_length:
  assumes "duration_component s = Some (w, rest)"
  shows "length rest < length s"
proof -
  obtain v s1 where v: "leading_int 0 s = Some (v, s1)"
    using assms by (auto simp: duration_component_def bind_eq_Some_conv split: if_splits)
  obtain f sc s2 p where a: "after_point s1 = (f, sc, s2, p)"
    by (cases "after_point s1")
  have u: "takeWhile unit_char s2 \<noteq> []" and rest: "rest = dropWhile unit_char s2"
    using assms v a by (auto simp: duration_component_def Let_def bind_eq_Some_conv
        split: if_splits)
  from leading_int_length [OF v] after_point_length [OF a] have "length s2 \<le> length s" by simp
  with takeWhile_shortens [OF u] rest show ?thesis by simp
qed

function duration_loop :: "string \<Rightarrow> nat \<Rightarrow> nat option" where
  "duration_loop s d =
     (if s = [] then Some d else
      case duration_component s of None \<Rightarrow> None | Some (v, rest) \<Rightarrow>
        if 2 ^ 63 < d + v then None else duration_loop rest (d + v))"
  by pat_completeness auto
termination
  by (relation "measure (\<lambda>(s, d). length s)") (auto dest: duration_component_length)

declare duration_loop.simps [simp del]

definition ParseDuration :: "string \<Rightarrow> duration option" where
  "ParseDuration s =
     (let neg = (s \<noteq> [] \<and> hd s = CHR ''-'');
          s' = (if s \<noteq> [] \<and> (hd s = CHR ''-'' \<or> hd s = CHR ''+'') then tl s else s) in
      if s' = ''0'' then Some 0
      else if s' = [] then None
      else case duration_loop s' 0 of None \<Rightarrow> None | Some d \<Rightarrow>
        if neg then Some (- int d)
        else if 2 ^ 63 - 1 < d then None
        else Some (int d))"

lemma duration_loop_le: "duration_loop s d = Some r \<Longrightarrow> d \<le> 2 ^ 63 \<Longrightarrow> r \<le> 2 ^ 63"
proof (induction s d rule: duration_loop.induct)
  case (1 s d)
  then show ?case
    by (subst (asm) (2) duration_loop.simps) (auto split: if_splits option.splits)
qed

text \<open>Every parsed duration is a signed 64-bit value: no addition wraps.\<close>

lemma ParseDuration_bounds:
  assumes "ParseDuration s = Some d"
  shows "- (2 ^ 63) \<le> d \<and> d < 2 ^ 63"
proof -
  define s' where "s' = (if s \<noteq> [] \<and> (hd s = CHR ''-'' \<or> hd s = CHR ''+'') then tl s else s)"
  consider "d = 0" | n where "duration_loop s' 0 = Some n" "d = - int n"
    | n where "n \<le> 2 ^ 63 - 1" "d = int n"
    using assms unfolding ParseDuration_def s'_def [symmetric] Let_def
    by (auto split: if_splits option.splits)
  then show ?thesis
    by cases (use duration_loop_le [of s' 0] in \<open>force+\<close>)
qed

section \<open>time.Duration.String\<close>

text \<open>\<open>fmtFrac\<close>: the fraction of \<open>u / 10^prec\<close> without trailing zeros, its point included;
  nothing when the fraction is zero.\<close>

fun pad_digits :: "nat \<Rightarrow> nat \<Rightarrow> string" where
  "pad_digits 0 u = []"
| "pad_digits (Suc p) u = pad_digits p (u div 10) @ [char_of (48 + u mod 10)]"

definition fmtFrac :: "nat \<Rightarrow> nat \<Rightarrow> string" where
  "fmtFrac u prec =
     (let ds = rev (dropWhile (\<lambda>c. c = CHR ''0'') (rev (pad_digits prec (u mod 10 ^ prec)))) in
      if ds = [] then [] else CHR ''.'' # ds)"

definition format_nanos :: "nat \<Rightarrow> string" where
  "format_nanos u =
     (if u = 0 then ''0s''
      else if u < 1000 then decimal_nat u @ ''ns''
      else if u < 1000000 then decimal_nat (u div 1000) @ fmtFrac u 3 @ [CHR 0xC2, CHR 0xB5] @ ''s''
      else if u < 1000000000 then decimal_nat (u div 1000000) @ fmtFrac u 6 @ ''ms''
      else
        let secs = u div 1000000000; mins = secs div 60; hours = mins div 60;
            s = decimal_nat (secs mod 60) @ fmtFrac u 9 @ ''s'' in
        if mins = 0 then s
        else if hours = 0 then decimal_nat (mins mod 60) @ ''m'' @ s
        else decimal_nat hours @ ''h'' @ decimal_nat (mins mod 60) @ ''m'' @ s)"

definition Duration_String :: "duration \<Rightarrow> string" where
  "Duration_String d = (if d < 0 then ''-'' @ format_nanos (nat (- d)) else format_nanos (nat d))"

section \<open>time.Parse(time.RFC3339, s)\<close>

text \<open>
  The generic layout parser accepts slightly more than RFC 3339: an hour of one digit, and
  a fraction of a second after a dot or a comma.  \<open>two\<close> reads exactly two digits.
\<close>

definition two :: "string \<Rightarrow> (nat \<times> string) option" where
  "two s = (case s of a # b # t \<Rightarrow>
     if is_digit a \<and> is_digit b then Some (digit_val a * 10 + digit_val b, t) else None
   | _ \<Rightarrow> None)"

definition one_or_two :: "string \<Rightarrow> (nat \<times> string) option" where
  "one_or_two s = (case s of [] \<Rightarrow> None
   | a # t \<Rightarrow> if \<not> is_digit a then None
       else (case two s of Some r \<Rightarrow> Some r | None \<Rightarrow> Some (digit_val a, t)))"

definition year4 :: "string \<Rightarrow> (nat \<times> string) option" where
  "year4 s = (case s of a # b # c # d # t \<Rightarrow>
     if is_digit a \<and> is_digit b \<and> is_digit c \<and> is_digit d
     then Some (digit_val a * 1000 + digit_val b * 100 + digit_val c * 10 + digit_val d, t)
     else None | _ \<Rightarrow> None)"

definition lit :: "char \<Rightarrow> string \<Rightarrow> string option" where
  "lit c s = (case s of x # t \<Rightarrow> if x = c then Some t else None | [] \<Rightarrow> None)"

definition skip_fraction :: "string \<Rightarrow> string" where
  "skip_fraction s = (case s of p # d # t \<Rightarrow>
     if (p = CHR ''.'' \<or> p = CHR '','') \<and> is_digit d then dropWhile is_digit t else s
   | _ \<Rightarrow> s)"

definition leap :: "nat \<Rightarrow> bool" where
  "leap y \<longleftrightarrow> y mod 4 = 0 \<and> (y mod 100 \<noteq> 0 \<or> y mod 400 = 0)"

definition days_in :: "nat \<Rightarrow> nat \<Rightarrow> nat" where
  "days_in m y = (if m = 2 then (if leap y then 29 else 28)
     else if m \<in> {4, 6, 9, 11} then 30 else 31)"

definition zone_ok :: "string \<Rightarrow> bool" where
  "zone_ok s \<longleftrightarrow> s = ''Z'' \<or>
     (case s of sg # h1 # h2 # c # m1 # m2 # rest \<Rightarrow>
        rest = [] \<and> (sg = CHR ''+'' \<or> sg = CHR ''-'') \<and> c = CHR '':'' \<and>
        is_digit h1 \<and> is_digit h2 \<and> is_digit m1 \<and> is_digit m2 \<and>
        digit_val h1 * 10 + digit_val h2 \<le> 24 \<and> digit_val m1 * 10 + digit_val m2 \<le> 60
      | _ \<Rightarrow> False)"

definition clock_ok :: "string \<Rightarrow> bool" where
  "clock_ok s \<longleftrightarrow>
     (case Option.bind (one_or_two s) (\<lambda>(hh, s1).
           Option.bind (lit CHR '':'' s1) (\<lambda>s2.
           Option.bind (two s2) (\<lambda>(mi, s3).
           Option.bind (lit CHR '':'' s3) (\<lambda>s4.
           map_option (\<lambda>(sec, s5). (hh, mi, sec, s5)) (two s4))))) of
        None \<Rightarrow> False
      | Some (hh, mi, sec, z) \<Rightarrow> hh < 24 \<and> mi < 60 \<and> sec < 60 \<and> zone_ok (skip_fraction z))"

definition ParseRFC3339 :: "string \<Rightarrow> bool" where
  "ParseRFC3339 s \<longleftrightarrow>
     (case Option.bind (year4 s) (\<lambda>(y, s1).
           Option.bind (lit CHR ''-'' s1) (\<lambda>s2.
           Option.bind (two s2) (\<lambda>(mo, s3).
           Option.bind (lit CHR ''-'' s3) (\<lambda>s4.
           Option.bind (two s4) (\<lambda>(dd, s5).
           map_option (\<lambda>s6. (y, mo, dd, s6)) (lit CHR ''T'' s5)))))) of
        None \<Rightarrow> False
      | Some (y, mo, dd, t) \<Rightarrow>
          1 \<le> mo \<and> mo \<le> 12 \<and> 1 \<le> dd \<and> dd \<le> days_in mo y \<and> clock_ok t)"

end
