(* ===== verification/Go_Net.thy ===== *)
theory Go_Net
  imports Go_Time
begin

text \<open>
  What the program uses of Go's \<open>net\<close>, \<open>net/netip\<close> and \<open>net/url\<close> packages (Go 1.26, the
  version go.mod names): address literals, \<open>net.SplitHostPort\<close>, \<open>net.JoinHostPort\<close>,
  \<open>url.Parse\<close> and \<open>(*URL).String\<close>.  Errors carry no data: the program only wraps them.
\<close>

section \<open>Positions\<close>

definition index_of :: "char \<Rightarrow> string \<Rightarrow> nat option" where
  "index_of c s = (if c \<in> set s then Some (length (takeWhile (\<lambda>x. x \<noteq> c) s)) else None)"

definition last_index :: "char \<Rightarrow> string \<Rightarrow> nat option" where
  "last_index c s = map_option (\<lambda>i. length s - 1 - i) (index_of c (rev s))"

definition HasSuffix :: "string \<Rightarrow> string \<Rightarrow> bool" where
  "HasSuffix s t \<longleftrightarrow> suffix t s"

definition to_lower :: "char \<Rightarrow> char" where
  "to_lower c = (if 65 \<le> byte c \<and> byte c \<le> 90 then char_of (byte c + 32) else c)"

definition is_alpha :: "char \<Rightarrow> bool" where
  "is_alpha c \<longleftrightarrow> 65 \<le> byte c \<and> byte c \<le> 90 \<or> 97 \<le> byte c \<and> byte c \<le> 122"

definition hex_val :: "char \<Rightarrow> nat option" where
  "hex_val c = (if is_digit c then Some (byte c - 48)
     else if 65 \<le> byte c \<and> byte c \<le> 70 then Some (byte c - 55)
     else if 97 \<le> byte c \<and> byte c \<le> 102 then Some (byte c - 87) else None)"

section \<open>netip.ParseAddr\<close>

datatype addr = V4 "nat list" | V6 "nat list" string

text \<open>One decimal octet: no leading zero, at most 255.\<close>

definition octet :: "string \<Rightarrow> nat option" where
  "octet s = (if s = [] \<or> \<not> list_all is_digit s \<or> (1 < length s \<and> hd s = CHR ''0'') then None
     else let v = foldl (\<lambda>a c. a * 10 + digit_val c) 0 s in if 255 < v then None else Some v)"

definition parse_ipv4 :: "string \<Rightarrow> nat list option" where
  "parse_ipv4 s = (let os = map octet (split_on CHR ''.'' s) in
     if length os = 4 \<and> None \<notin> set os then Some (map the os) else None)"

text \<open>
  The groups of an IPv6 literal: \<open>acc\<close> holds the 16-bit groups read so far, \<open>ell\<close> how many
  stood before the double colon.  The fuel is the number of groups still allowed.
\<close>

definition hex_group :: "string \<Rightarrow> (nat \<times> string) option" where
  "hex_group s = (let ds = takeWhile (\<lambda>c. hex_val c \<noteq> None) s in
     if ds = [] \<or> 4 < length ds then None
     else Some (foldl (\<lambda>a c. a * 16 + the (hex_val c)) 0 ds, drop (length ds) s))"

fun ipv6_groups :: "nat \<Rightarrow> nat list \<Rightarrow> nat option \<Rightarrow> string \<Rightarrow> (nat list \<times> nat option) option" where
  "ipv6_groups 0 acc ell s = (if s = [] then Some (acc, ell) else None)"
| "ipv6_groups (Suc k) acc ell s =
     (case hex_group s of
        None \<Rightarrow> None
      | Some (g, r) \<Rightarrow>
          if r \<noteq> [] \<and> hd r = CHR ''.'' then
            (if ell = None \<and> length acc \<noteq> 6 \<or> 6 < length acc then None
             else case parse_ipv4 s of
                 Some [a, b, c, d] \<Rightarrow> Some (acc @ [a * 256 + b, c * 256 + d], ell)
               | _ \<Rightarrow> None)
          else let acc' = acc @ [g] in
            if r = [] then Some (acc', ell)
            else if hd r \<noteq> CHR '':'' \<or> tl r = [] then None
            else if hd (tl r) = CHR '':'' then
              (if ell \<noteq> None then None
               else if tl (tl r) = [] then Some (acc', Some (length acc'))
               else ipv6_groups k acc' (Some (length acc')) (tl (tl r)))
            else ipv6_groups k acc' ell (tl r))"

definition expand6 :: "nat list \<times> nat option \<Rightarrow> nat list option" where
  "expand6 r = (let (gs, ell) = r in
     if length gs < 8 then
       (case ell of None \<Rightarrow> None
        | Some e \<Rightarrow> Some (take e gs @ replicate (8 - length gs) 0 @ drop e gs))
     else if ell \<noteq> None then None else Some gs)"

definition parse_ipv6 :: "string \<Rightarrow> addr option" where
  "parse_ipv6 s0 =
     (let (s, zone) = (case CutChar CHR ''%'' s0 of None \<Rightarrow> (s0, None) | Some (a, z) \<Rightarrow> (a, Some z)) in
      if zone = Some [] then None
      else let (ell, body) = (if prefix ''::'' s then (Some 0, drop 2 s) else (None, s)) in
        map_option (\<lambda>gs. V6 gs (case zone of None \<Rightarrow> [] | Some z \<Rightarrow> z))
          (if ell = Some 0 \<and> body = [] then Some (replicate 8 0)
           else Option.bind (ipv6_groups 8 [] ell body) expand6))"

definition ParseAddr :: "string \<Rightarrow> addr option" where
  "ParseAddr s = (case dropWhile (\<lambda>c. c \<noteq> CHR ''.'' \<and> c \<noteq> CHR '':'' \<and> c \<noteq> CHR ''%'') s of
     [] \<Rightarrow> None
   | c # _ \<Rightarrow> if c = CHR ''.'' then map_option V4 (parse_ipv4 s)
             else if c = CHR '':'' then parse_ipv6 s else None)"

text \<open>\<open>net.ParseIP\<close> (no zone) and \<open>IP.IsLoopback\<close>; an IPv4-mapped address reads as IPv4.\<close>

definition ParseIP :: "string \<Rightarrow> addr option" where
  "ParseIP s = (case ParseAddr s of
     Some (V6 gs z) \<Rightarrow> if z = [] then Some (V6 gs z) else None | r \<Rightarrow> r)"

definition IsLoopback :: "addr \<Rightarrow> bool" where
  "IsLoopback a = (case a of
     V4 os \<Rightarrow> os \<noteq> [] \<and> hd os = 127
   | V6 gs _ \<Rightarrow> gs = [0, 0, 0, 0, 0, 0, 0, 1] \<or>
       take 6 gs = [0, 0, 0, 0, 0, 0xFFFF] \<and> 6 < length gs \<and> gs ! 6 div 256 = 127)"

section \<open>net.SplitHostPort, net.JoinHostPort\<close>

definition SplitHostPort :: "string \<Rightarrow> (string \<times> string) option" where
  "SplitHostPort hp = (case last_index CHR '':'' hp of None \<Rightarrow> None | Some i \<Rightarrow>
     let port = drop (i + 1) hp in
     if hd hp = CHR ''['' then
       (case index_of CHR '']'' hp of None \<Rightarrow> None | Some e \<Rightarrow>
          if e + 1 \<noteq> i then None
          else if CHR ''['' \<in> set (drop 1 hp) \<or> CHR '']'' \<in> set (drop (e + 1) hp) then None
          else Some (drop 1 (take e hp), port))
     else if CHR '':'' \<in> set (take i hp) \<or> CHR ''['' \<in> set hp \<or> CHR '']'' \<in> set hp then None
     else Some (take i hp, port))"

definition JoinHostPort :: "string \<Rightarrow> string \<Rightarrow> string" where
  "JoinHostPort host port = (if CHR '':'' \<in> set host
     then ''['' @ host @ '']:'' @ port else host @ '':'' @ port)"

section \<open>Percent encoding\<close>

datatype enc_mode = EncPath | EncHost | EncZone | EncUser | EncFragment

definition shouldEscape :: "enc_mode \<Rightarrow> char \<Rightarrow> bool" where
  "shouldEscape m c =
     (if is_alpha c \<or> is_digit c then False
      else if m \<in> {EncHost, EncZone} \<and> c \<in> set ''!$&()*+,;=:[]<>'' \<union> {CHR 0x22, CHR 0x27} then False
      else if c \<in> set ''-_.~'' then False
      else if c \<in> set ''$&+,/:;=?@'' \<and> m = EncPath then c = CHR ''?''
      else if c \<in> set ''$&+,/:;=?@'' \<and> m = EncUser then c \<in> set ''@/?:''
      else if c \<in> set ''$&+,/:;=?@'' \<and> m = EncFragment then False
      else if m = EncFragment \<and> c \<in> set ''!()*'' then False
      else True)"

definition hex_digit :: "nat \<Rightarrow> char" where
  "hex_digit n = ''0123456789ABCDEF'' ! n"

definition escape :: "enc_mode \<Rightarrow> string \<Rightarrow> string" where
  "escape m s = concat (map (\<lambda>c. if shouldEscape m c
     then [CHR ''%'', hex_digit (byte c div 16), hex_digit (byte c mod 16)] else [c]) s)"

text \<open>
  \<open>unescape\<close>: a percent sign needs two hex digits; in a host only bytes outside ASCII may be
  percent-encoded, and a host byte that is not allowed bare is an error.
\<close>

fun unescape :: "enc_mode \<Rightarrow> string \<Rightarrow> string option" where
  "unescape m [] = Some []"
| "unescape m (c # cs) =
     (if c = CHR ''%'' then
        (case cs of
           h # l # r \<Rightarrow>
             (case (hex_val h, hex_val l) of
                (Some x, Some y) \<Rightarrow>
                  let v = x * 16 + y in
                  if m = EncHost \<and> x < 8 \<and> [h, l] \<noteq> ''25'' then None
                  else if m = EncZone \<and> [h, l] \<noteq> ''25'' \<and> v \<noteq> 32 \<and>
                    shouldEscape EncHost (char_of v) then None
                  else map_option ((#) (char_of v)) (unescape m r)
              | _ \<Rightarrow> None)
         | _ \<Rightarrow> None)
      else if m \<in> {EncHost, EncZone} \<and> byte c < 128 \<and> shouldEscape m c then None
      else map_option ((#) c) (unescape m cs))"

section \<open>url.Parse\<close>

record url =
  url_Scheme :: string
  url_Opaque :: string
  url_User :: "(string \<times> string option) option"
  url_Host :: string
  url_Path :: string
  url_RawPath :: string
  url_OmitHost :: bool
  url_ForceQuery :: bool
  url_RawQuery :: string
  url_Fragment :: string
  url_RawFragment :: string

definition empty_url :: url where
  "empty_url = \<lparr>url_Scheme = [], url_Opaque = [], url_User = None, url_Host = [], url_Path = [],
     url_RawPath = [], url_OmitHost = False, url_ForceQuery = False, url_RawQuery = [],
     url_Fragment = [], url_RawFragment = []\<rparr>"

definition scheme_char :: "char \<Rightarrow> bool" where
  "scheme_char c \<longleftrightarrow> is_alpha c \<or> is_digit c \<or> c \<in> set ''+-.''"

text \<open>\<open>getScheme\<close>: \<open>None\<close> is its error, a missing protocol scheme.\<close>

definition getScheme :: "string \<Rightarrow> (string \<times> string) option" where
  "getScheme s =
     (if s \<noteq> [] \<and> hd s = CHR '':'' then None
      else if s = [] \<or> \<not> is_alpha (hd s) then Some ([], s)
      else let sc = takeWhile scheme_char s; r = dropWhile scheme_char s in
        if r \<noteq> [] \<and> hd r = CHR '':'' then Some (sc, tl r) else Some ([], s))"

definition validOptionalPort :: "string \<Rightarrow> bool" where
  "validOptionalPort p \<longleftrightarrow> p = [] \<or> hd p = CHR '':'' \<and> list_all is_digit (tl p)"

definition zone_index :: "string \<Rightarrow> nat option" where
  "zone_index s = List.find (\<lambda>i. prefix ''%25'' (drop i s)) [0..<length s]"

definition parseHost :: "string \<Rightarrow> string option" where
  "parseHost h =
     (case last_index CHR ''['' h of
        Some (Suc _) \<Rightarrow> None
      | Some 0 \<Rightarrow>
          (case last_index CHR '']'' h of None \<Rightarrow> None | Some cl \<Rightarrow>
           let port = drop (cl + 1) h; name = drop 1 (take cl h) in
           if \<not> validOptionalPort port then None else
           Option.bind (unescape EncHost port) (\<lambda>port'.
           Option.bind (case zone_index name of
               Some z \<Rightarrow> Option.bind (unescape EncHost (take z name)) (\<lambda>hp.
                 map_option (\<lambda>zp. hp @ zp) (unescape EncZone (drop z name)))
             | None \<Rightarrow> unescape EncHost name) (\<lambda>name'.
           case ParseAddr name' of
             Some (V6 _ _) \<Rightarrow> Some (''['' @ name' @ '']'' @ port') | _ \<Rightarrow> None)))
      | None \<Rightarrow>
          (case index_of CHR '':'' h of
             Some i \<Rightarrow> if \<not> validOptionalPort (drop i h) then None else unescape EncHost h
           | None \<Rightarrow> unescape EncHost h))"

definition validUserinfo :: "string \<Rightarrow> bool" where
  "validUserinfo s \<longleftrightarrow>
     list_all (\<lambda>c. is_alpha c \<or> is_digit c \<or> c \<in> set ''-._:~!$&()*+,;=%@'' \<union> {CHR 0x27}) s"

definition parseAuthority :: "string \<Rightarrow> ((string \<times> string option) option \<times> string) option" where
  "parseAuthority a =
     (case last_index CHR ''@'' a of
        None \<Rightarrow> map_option (\<lambda>h. (None, h)) (parseHost a)
      | Some i \<Rightarrow> Option.bind (parseHost (drop (i + 1) a)) (\<lambda>h.
          let ui = take i a in
          if \<not> validUserinfo ui then None
          else case CutChar CHR '':'' ui of
              None \<Rightarrow> map_option (\<lambda>u. (Some (u, None), h)) (unescape EncUser ui)
            | Some (u, p) \<Rightarrow> Option.bind (unescape EncUser u) (\<lambda>u'.
                map_option (\<lambda>p'. (Some (u', Some p'), h)) (unescape EncUser p))))"

definition setPath :: "url \<Rightarrow> string \<Rightarrow> url option" where
  "setPath u p = map_option (\<lambda>path. u\<lparr>url_Path := path,
     url_RawPath := if escape EncPath path = p then [] else p\<rparr>) (unescape EncPath p)"

definition setFragment :: "url \<Rightarrow> string \<Rightarrow> url option" where
  "setFragment u f = map_option (\<lambda>frag. u\<lparr>url_Fragment := frag,
     url_RawFragment := if escape EncFragment frag = f then [] else f\<rparr>) (unescape EncFragment f)"

definition is_ctl :: "char \<Rightarrow> bool" where
  "is_ctl c \<longleftrightarrow> byte c < 32 \<or> byte c = 127"

definition cut_query :: "string \<Rightarrow> string \<times> bool \<times> string" where
  "cut_query s =
     (if suffix ''?'' s \<and> count_list s CHR ''?'' = 1 then (butlast s, True, [])
      else case CutChar CHR ''?'' s of None \<Rightarrow> (s, False, []) | Some (r, q) \<Rightarrow> (r, False, q))"

definition parse_rest :: "url \<Rightarrow> string \<Rightarrow> url option" where
  "parse_rest u rest =
     (if \<not> prefix ''/'' rest \<and> url_Scheme u \<noteq> [] then Some (u\<lparr>url_Opaque := rest\<rparr>)
      else if \<not> prefix ''/'' rest \<and> CHR '':'' \<in> set (takeWhile (\<lambda>c. c \<noteq> CHR ''/'') rest) then None
      else if (url_Scheme u \<noteq> [] \<or> \<not> prefix ''///'' rest) \<and> prefix ''//'' rest then
        (let a = drop 2 rest; auth = takeWhile (\<lambda>c. c \<noteq> CHR ''/'') a;
             path = dropWhile (\<lambda>c. c \<noteq> CHR ''/'') a in
         Option.bind (parseAuthority auth) (\<lambda>(usr, host).
           setPath (u\<lparr>url_User := usr, url_Host := host\<rparr>) path))
      else setPath (u\<lparr>url_OmitHost := url_Scheme u \<noteq> [] \<and> prefix ''/'' rest\<rparr>) rest)"

definition url_parse1 :: "string \<Rightarrow> url option" where
  "url_parse1 s =
     (if list_ex is_ctl s then None
      else if s = ''*'' then Some (empty_url\<lparr>url_Path := ''*''\<rparr>)
      else Option.bind (getScheme s) (\<lambda>(sc, rest).
        let (rest', fq, q) = cut_query rest in
        parse_rest (empty_url\<lparr>url_Scheme := map to_lower sc, url_ForceQuery := fq,
          url_RawQuery := q\<rparr>) rest'))"

definition url_Parse :: "string \<Rightarrow> url option" where
  "url_Parse s =
     (let (u, frag) = (case CutChar CHR ''#'' s of None \<Rightarrow> (s, []) | Some r \<Rightarrow> r) in
      Option.bind (url_parse1 u) (\<lambda>v. if frag = [] then Some v else setFragment v frag))"

end
