(* ===== verification/Declaration.thy ===== *)
theory Declaration
  imports Go_Net
begin

text \<open>
  Package \<open>declaration\<close> (src/declaration/declaration.go): the operator-facing contract of one
  workload, its validation and the artifact reference.  The structs are records, a pointer
  field is an \<open>option\<close>, a slice a list (nil and empty are not told apart by the code), and
  the named string types keep the strings, so that an unknown role or wake kind is a value.
  Every \<open>fmt.Errorf\<close> is a constructor of \<open>decl_error\<close> with the data its message quotes.

  \<open>identity.ValidName\<close> is not in the repository: the parameter \<open>ValidName\<close>.
\<close>

section \<open>Data\<close>

abbreviation RoleAgent :: string where "RoleAgent \<equiv> ''agent''"
abbreviation RoleTool :: string where "RoleTool \<equiv> ''tool''"
abbreviation LifecycleService :: string where "LifecycleService \<equiv> ''service''"
abbreviation LifecycleFunction :: string where "LifecycleFunction \<equiv> ''function''"
abbreviation LifecycleJob :: string where "LifecycleJob \<equiv> ''job''"

abbreviation WakeMention :: string where "WakeMention \<equiv> ''mention''"
abbreviation WakeTopic :: string where "WakeTopic \<equiv> ''topic''"
abbreviation WakeSchedule :: string where "WakeSchedule \<equiv> ''schedule''"
abbreviation WakeSubject :: string where "WakeSubject \<equiv> ''subject''"

record InferenceSpec =
  inf_Model :: string

record Instructions =
  ins_Topic :: string
  ins_Artefact :: string

record Capabilities =
  cap_Role :: string
  cap_Tools :: "string list"

record WakeEntry =
  we_Kind :: string
  we_Path :: string
  we_Types :: "string list"
  we_Name :: string
  we_Pattern :: string
  we_TTL :: string
  we_Subject :: string

record WindowSpec =
  win_Max :: int
  win_Per :: string

record BudgetSpec =
  bs_MaxHops :: int
  bs_Window :: "WindowSpec option"

record Declaration =
  d_Role :: string
  d_Lifecycle :: string
  d_Persona :: string
  d_Topic :: string
  d_Artifact :: string
  d_Args :: "string list"
  d_Instructions :: "Instructions option"
  d_Capabilities :: "Capabilities option"
  d_Wake :: "WakeEntry list"
  d_Budget :: "BudgetSpec option"
  d_Inference :: "InferenceSpec option"

definition DefaultBudget :: BudgetSpec where
  "DefaultBudget = \<lparr>bs_MaxHops = 4, bs_Window = Some \<lparr>win_Max = 8, win_Per = ''10m''\<rparr>\<rparr>"

definition EffectiveTypes :: "WakeEntry \<Rightarrow> string list" where
  "EffectiveTypes e = (if we_Types e \<noteq> [] then we_Types e else [''turn.post''])"

definition DeliveryClass :: "WakeEntry \<Rightarrow> string" where
  "DeliveryClass e =
     (if we_Kind e = WakeMention then ''replay-exact (notify stream, inbox-window bounded)''
      else if we_Kind e = WakeTopic then ''replay-exact (ops stream)''
      else if we_Kind e = WakeSchedule then ''replay-exact (TTL-bounded backlog)''
      else if we_Kind e = WakeSubject then ''at-most-once''
      else '''')"

datatype (plugins only: code size) decl_error =
    UnknownRole string | LifecycleNotSupported string | UnknownLifecycle string
  | InvalidPersona string | TopicRequired | InvalidSegment string string
  | ArtifactRequired | ArtifactForm string | ArtifactNameSlash string string
  | ArtifactTopic string decl_error | ArtifactBadURI string | ArtifactScheme string
  | ArtifactNoPath string | AgentOnly string
  | InstructionsTopic decl_error | InstructionsArtefact
  | CapabilityRole string | CapabilityTool string | CapabilityTwice string
  | InferenceModel | InferenceCredential string
  | WakeAt nat decl_error | SecondMention | PathTwice string | NameTwice string | SubjectTwice string
  | TakesNoTypes string | Foreign string "string list" | UnknownWakeKind string
  | TopicWakeErr decl_error | ScheduleName string | ScheduleErr string decl_error
  | TTLBad string | TTLNotPositive duration
  | PatternRequired | EveryBad string string | EveryNotPositive string | AtBad string string
  | UnknownAtForm string | CronFields string nat | CronChar string string
  | SubjectRequired | SubjectEmptyToken string | SubjectSpace string | SubjectTail string
  | OpTypeEmpty | OpTypeSegment string | OpTypeChar string
  | MaxHopsNegative int | WindowMaxNegative int | WindowPerBad string | WindowPerNotPositive duration

section \<open>Names and paths\<close>

definition ValidateTopicPath :: "(string \<Rightarrow> bool) \<Rightarrow> string \<Rightarrow> decl_error option" where
  "ValidateTopicPath ValidName path =
     (if path = [] then Some TopicRequired
      else first_err (\<lambda>s. err_if (\<not> ValidName s) (InvalidSegment path s)) (split_on CHR ''.'' path))"

definition Instructions_validate :: "(string \<Rightarrow> bool) \<Rightarrow> Instructions \<Rightarrow> decl_error option" where
  "Instructions_validate ValidName i =
     orelse (map_option InstructionsTopic (ValidateTopicPath ValidName (ins_Topic i)))
       (err_if (blank (ins_Artefact i)) InstructionsArtefact)"

definition InferenceSpec_validate :: "InferenceSpec \<Rightarrow> decl_error option" where
  "InferenceSpec_validate i =
     (if inf_Model i = [] then Some InferenceModel
      else if HasPrefix (inf_Model i) ''sk-'' then Some (InferenceCredential (inf_Model i))
      else None)"

text \<open>The loop over the tools, with the set of tools already seen.\<close>

fun check_tools :: "(string \<Rightarrow> bool) \<Rightarrow> string set \<Rightarrow> string list \<Rightarrow> decl_error option" where
  "check_tools ValidName seen [] = None"
| "check_tools ValidName seen (t # ts) =
     (if \<not> ValidName t then Some (CapabilityTool t)
      else if t \<in> seen then Some (CapabilityTwice t)
      else check_tools ValidName (insert t seen) ts)"

definition Capabilities_Validate :: "(string \<Rightarrow> bool) \<Rightarrow> Capabilities \<Rightarrow> decl_error option" where
  "Capabilities_Validate ValidName c =
     (if \<not> ValidName (cap_Role c) then Some (CapabilityRole (cap_Role c))
      else check_tools ValidName {} (cap_Tools c))"

section \<open>Wake entries\<close>

definition op_type_char :: "char \<Rightarrow> bool" where
  "op_type_char c \<longleftrightarrow> 97 \<le> byte c \<and> byte c \<le> 122 \<or> is_digit c \<or> c = CHR ''-'' \<or> c = CHR ''_''"

definition validateOpType :: "string \<Rightarrow> decl_error option" where
  "validateOpType t =
     (if t = [] then Some OpTypeEmpty
      else first_err (\<lambda>seg. if seg = [] then Some (OpTypeSegment t)
             else err_if (\<not> list_all op_type_char seg) (OpTypeChar t)) (split_on CHR ''.'' t))"

definition cron_char :: "char \<Rightarrow> bool" where
  "cron_char c \<longleftrightarrow> is_digit c \<or> is_alpha c \<or> c \<in> set ''*,/-''"

definition validatePattern :: "string \<Rightarrow> decl_error option" where
  "validatePattern p =
     (if p = [] then Some PatternRequired
      else case CutPrefix p ''@every '' of
        Some rest \<Rightarrow> (case ParseDuration rest of
            None \<Rightarrow> Some (EveryBad p rest)
          | Some d \<Rightarrow> err_if (d \<le> 0) (EveryNotPositive p))
      | None \<Rightarrow>
      (case CutPrefix p ''@at '' of
        Some rest \<Rightarrow> err_if (\<not> ParseRFC3339 rest) (AtBad p rest)
      | None \<Rightarrow>
        if HasPrefix p ''@'' then Some (UnknownAtForm p)
        else let fs = Fields p in
          if length fs \<noteq> 6 then Some (CronFields p (length fs))
          else first_err (\<lambda>f. err_if (\<not> list_all cron_char f) (CronChar p f)) fs))"

text \<open>The loop over the tokens; the last one is the one with nothing after it.\<close>

fun check_tokens :: "string \<Rightarrow> string list \<Rightarrow> decl_error option" where
  "check_tokens s [] = None"
| "check_tokens s (tok # toks) =
     (if tok = [] then Some (SubjectEmptyToken s)
      else if CHR '' '' \<in> set tok \<or> CHR 0x09 \<in> set tok then Some (SubjectSpace s)
      else if tok = ''>'' \<and> toks \<noteq> [] then Some (SubjectTail s)
      else check_tokens s toks)"

definition validateSubject :: "string \<Rightarrow> decl_error option" where
  "validateSubject s =
     (if s = [] then Some SubjectRequired else check_tokens s (split_on CHR ''.'' s))"

text \<open>
  The closure \<open>foreign\<close> ranges over a Go map, so which of several foreign fields its error
  names is not determined: the error carries all of them.
\<close>

definition foreign :: "string \<Rightarrow> (string \<times> string) list \<Rightarrow> decl_error option" where
  "foreign kind named =
     (let set_fields = map fst (filter (\<lambda>(f, v). v \<noteq> []) named)
      in err_if (set_fields \<noteq> []) (Foreign kind set_fields))"

definition check_ttl :: "WakeEntry \<Rightarrow> decl_error option" where
  "check_ttl e =
     (if we_TTL e = [] then None
      else case ParseDuration (we_TTL e) of
          None \<Rightarrow> Some (ScheduleErr (we_Name e) (TTLBad (we_TTL e)))
        | Some ttl \<Rightarrow> err_if (ttl \<le> 0) (ScheduleErr (we_Name e) (TTLNotPositive ttl)))"

definition WakeEntry_validate :: "(string \<Rightarrow> bool) \<Rightarrow> WakeEntry \<Rightarrow> decl_error option" where
  "WakeEntry_validate ValidName e =
     (if we_Kind e = WakeMention then
        orelse (err_if (we_Types e \<noteq> []) (TakesNoTypes (we_Kind e)))
          (foreign (we_Kind e) [(''path'', we_Path e), (''name'', we_Name e),
             (''pattern'', we_Pattern e), (''ttl'', we_TTL e), (''subject'', we_Subject e)])
      else if we_Kind e = WakeTopic then
        orelse (foreign (we_Kind e) [(''name'', we_Name e), (''pattern'', we_Pattern e),
             (''ttl'', we_TTL e), (''subject'', we_Subject e)])
        (orelse (map_option TopicWakeErr (ValidateTopicPath ValidName (we_Path e)))
          (first_err (\<lambda>t. map_option TopicWakeErr (validateOpType t)) (we_Types e)))
      else if we_Kind e = WakeSchedule then
        orelse (err_if (we_Types e \<noteq> []) (TakesNoTypes (we_Kind e)))
        (orelse (foreign (we_Kind e) [(''path'', we_Path e), (''subject'', we_Subject e)])
        (orelse (err_if (\<not> ValidName (we_Name e)) (ScheduleName (we_Name e)))
        (orelse (map_option (ScheduleErr (we_Name e)) (validatePattern (we_Pattern e)))
          (check_ttl e))))
      else if we_Kind e = WakeSubject then
        orelse (err_if (we_Types e \<noteq> []) (TakesNoTypes (we_Kind e)))
        (orelse (foreign (we_Kind e) [(''path'', we_Path e), (''name'', we_Name e),
             (''pattern'', we_Pattern e), (''ttl'', we_TTL e)])
          (validateSubject (we_Subject e)))
      else Some (UnknownWakeKind (we_Kind e)))"

text \<open>
  The loop of \<open>validateWake\<close>: \<open>i\<close> is the index, \<open>mentions\<close> the counter, the three sets the
  maps of what was declared already.
\<close>

fun wake_loop ::
  "(string \<Rightarrow> bool) \<Rightarrow> nat \<Rightarrow> nat \<Rightarrow> string set \<Rightarrow> string set \<Rightarrow> string set \<Rightarrow> WakeEntry list
     \<Rightarrow> decl_error option" where
  "wake_loop ValidName i mentions paths names subjects [] = None"
| "wake_loop ValidName i mentions paths names subjects (e # es) =
     orelse (map_option (WakeAt i) (WakeEntry_validate ValidName e))
     (if we_Kind e = WakeMention then
        (if 1 < mentions + 1 then Some (WakeAt i SecondMention)
         else wake_loop ValidName (i + 1) (mentions + 1) paths names subjects es)
      else if we_Kind e = WakeTopic then
        (if we_Path e \<in> paths then Some (WakeAt i (PathTwice (we_Path e)))
         else wake_loop ValidName (i + 1) mentions (insert (we_Path e) paths) names subjects es)
      else if we_Kind e = WakeSchedule then
        (if we_Name e \<in> names then Some (WakeAt i (NameTwice (we_Name e)))
         else wake_loop ValidName (i + 1) mentions paths (insert (we_Name e) names) subjects es)
      else if we_Kind e = WakeSubject then
        (if we_Subject e \<in> subjects then Some (WakeAt i (SubjectTwice (we_Subject e)))
         else wake_loop ValidName (i + 1) mentions paths names (insert (we_Subject e) subjects) es)
      else wake_loop ValidName (i + 1) mentions paths names subjects es)"

definition validateWake :: "(string \<Rightarrow> bool) \<Rightarrow> WakeEntry list \<Rightarrow> decl_error option" where
  "validateWake ValidName es = wake_loop ValidName 0 0 {} {} {} es"

definition BudgetSpec_validate :: "BudgetSpec \<Rightarrow> decl_error option" where
  "BudgetSpec_validate b =
     (if bs_MaxHops b < 0 then Some (MaxHopsNegative (bs_MaxHops b))
      else case bs_Window b of None \<Rightarrow> None | Some w \<Rightarrow>
        if win_Max w < 0 then Some (WindowMaxNegative (win_Max w))
        else if 0 < win_Max w then
          (case ParseDuration (win_Per w) of
             None \<Rightarrow> Some (WindowPerBad (win_Per w))
           | Some per \<Rightarrow> err_if (per \<le> 0) (WindowPerNotPositive per))
        else None)"

section \<open>Artifacts\<close>

abbreviation SchemeFile :: string where "SchemeFile \<equiv> ''file''"
abbreviation SchemeSoulstream :: string where "SchemeSoulstream \<equiv> ''soulstream''"

definition soulstreamPrefix :: string where
  "soulstreamPrefix = SchemeSoulstream @ ''://''"

record ArtifactRef =
  ref_Scheme :: string
  ref_Path :: string
  ref_Topic :: string
  ref_Name :: string

definition parseRecordArtifact :: "(string \<Rightarrow> bool) \<Rightarrow> string \<Rightarrow> decl_error + ArtifactRef" where
  "parseRecordArtifact ValidName artifact =
     (case CutChar CHR ''/'' (TrimPrefix artifact soulstreamPrefix) of
        None \<Rightarrow> Inl (ArtifactForm artifact)
      | Some (topicPath, name) \<Rightarrow>
          if name = [] then Inl (ArtifactForm artifact)
          else if CHR ''/'' \<in> set name then Inl (ArtifactNameSlash artifact name)
          else case ValidateTopicPath ValidName topicPath of
              Some e \<Rightarrow> Inl (ArtifactTopic artifact e)
            | None \<Rightarrow> Inr \<lparr>ref_Scheme = SchemeSoulstream, ref_Path = [],
                          ref_Topic = topicPath, ref_Name = name\<rparr>)"

definition validateArtifact :: "(string \<Rightarrow> bool) \<Rightarrow> string \<Rightarrow> decl_error option" where
  "validateArtifact ValidName artifact =
     (if artifact = [] then Some ArtifactRequired
      else if HasPrefix artifact soulstreamPrefix then
        (case parseRecordArtifact ValidName artifact of Inl e \<Rightarrow> Some e | Inr _ \<Rightarrow> None)
      else case url_Parse artifact of
          None \<Rightarrow> Some (ArtifactBadURI artifact)
        | Some u \<Rightarrow>
            if url_Scheme u \<noteq> SchemeFile then Some (ArtifactScheme (url_Scheme u))
            else if url_Path u = [] then Some (ArtifactNoPath artifact)
            else None)"

definition ArtifactPath :: "Declaration \<Rightarrow> decl_error + string" where
  "ArtifactPath d = (case url_Parse (d_Artifact d) of
     None \<Rightarrow> Inl (ArtifactBadURI (d_Artifact d))
   | Some u \<Rightarrow> if url_Scheme u \<noteq> SchemeFile then Inl (ArtifactScheme (url_Scheme u))
       else Inr (url_Path u))"

definition Declaration_ArtifactRef :: "(string \<Rightarrow> bool) \<Rightarrow> Declaration \<Rightarrow> decl_error + ArtifactRef" where
  "Declaration_ArtifactRef ValidName d =
     (if HasPrefix (d_Artifact d) soulstreamPrefix then parseRecordArtifact ValidName (d_Artifact d)
      else case ArtifactPath d of
          Inl e \<Rightarrow> Inl e
        | Inr p \<Rightarrow> Inr \<lparr>ref_Scheme = SchemeFile, ref_Path = p, ref_Topic = [], ref_Name = []\<rparr>)"

section \<open>Declaration.Validate\<close>

definition validate_opt :: "('a \<Rightarrow> decl_error option) \<Rightarrow> 'a option \<Rightarrow> decl_error option" where
  "validate_opt f x = (case x of None \<Rightarrow> None | Some a \<Rightarrow> f a)"

definition Declaration_Validate :: "(string \<Rightarrow> bool) \<Rightarrow> Declaration \<Rightarrow> decl_error option" where
  "Declaration_Validate ValidName d =
     orelse (err_if (d_Role d \<noteq> RoleAgent \<and> d_Role d \<noteq> RoleTool) (UnknownRole (d_Role d)))
     (orelse
       (if d_Lifecycle d = LifecycleService then None
        else if d_Lifecycle d = LifecycleFunction \<or> d_Lifecycle d = LifecycleJob
        then Some (LifecycleNotSupported (d_Lifecycle d))
        else Some (UnknownLifecycle (d_Lifecycle d)))
     (orelse (err_if (\<not> ValidName (d_Persona d)) (InvalidPersona (d_Persona d)))
     (orelse (ValidateTopicPath ValidName (d_Topic d))
     (orelse
       (let engineServed = (d_Role d = RoleAgent \<and> d_Wake d \<noteq> []) in
        if d_Artifact d \<noteq> [] \<or> \<not> engineServed then validateArtifact ValidName (d_Artifact d)
        else None)
     (if d_Role d \<noteq> RoleAgent then
        err_if (d_Instructions d \<noteq> None \<or> d_Capabilities d \<noteq> None \<or> d_Wake d \<noteq> []
          \<or> d_Budget d \<noteq> None \<or> d_Inference d \<noteq> None) (AgentOnly (d_Role d))
      else
        orelse (validate_opt (Instructions_validate ValidName) (d_Instructions d))
        (orelse (validate_opt (Capabilities_Validate ValidName) (d_Capabilities d))
        (orelse (validateWake ValidName (d_Wake d))
        (orelse (validate_opt BudgetSpec_validate (d_Budget d))
          (validate_opt InferenceSpec_validate (d_Inference d))))))))))"

section \<open>Acceptance conditions\<close>

text \<open>
  \<open>name_grammar\<close> is what the package documents of \<open>identity.ValidName\<close>: a name is one
  subject token and one path segment, so it is not empty and holds neither a dot nor a slash.
\<close>

definition name_grammar :: "(string \<Rightarrow> bool) \<Rightarrow> bool" where
  "name_grammar ValidName \<longleftrightarrow>
     (\<forall>s. ValidName s \<longrightarrow> s \<noteq> [] \<and> CHR ''.'' \<notin> set s \<and> CHR ''/'' \<notin> set s)"

text \<open>A concrete grammar with this property, for the witnesses: lower case, digits, dash.\<close>

definition kebab :: "string \<Rightarrow> bool" where
  "kebab s \<longleftrightarrow> s \<noteq> [] \<and> list_all (\<lambda>c. 97 \<le> byte c \<and> byte c \<le> 122 \<or> is_digit c \<or> c = CHR ''-'') s"

lemma kebab_grammar: "name_grammar kebab"
  by (auto simp: name_grammar_def kebab_def list_all_iff is_digit_def)

lemma topic_path_ok [checks]:
  "ValidateTopicPath VN p = None \<longleftrightarrow> p \<noteq> [] \<and> (\<forall>s \<in> set (split_on CHR ''.'' p). VN s)"
  by (simp add: ValidateTopicPath_def)

lemma topic_path_join:
  assumes "name_grammar VN"
  shows "ValidateTopicPath VN p = None \<longleftrightarrow>
    (\<exists>segs. segs \<noteq> [] \<and> list_all VN segs \<and> p = join_with ''.'' segs)"
proof
  assume "ValidateTopicPath VN p = None"
  then show "\<exists>segs. segs \<noteq> [] \<and> list_all VN segs \<and> p = join_with ''.'' segs"
    by (intro exI [of _ "split_on CHR ''.'' p"]) (simp add: topic_path_ok list_all_iff join_split_on)
next
  assume "\<exists>segs. segs \<noteq> [] \<and> list_all VN segs \<and> p = join_with ''.'' segs"
  then obtain segs where segs: "segs \<noteq> []" "list_all VN segs" "p = join_with ''.'' segs" by blast
  then have split: "split_on CHR ''.'' p = segs"
    using assms by (auto simp: list_all_iff name_grammar_def intro!: split_on_join)
  moreover have "p \<noteq> []"
  proof
    assume "p = []"
    with split have "segs = [[]]" by simp
    with segs(2) assms show False by (auto simp: name_grammar_def)
  qed
  ultimately show "ValidateTopicPath VN p = None"
    using segs(2) by (simp add: topic_path_ok list_all_iff)
qed

lemma topic_path_no_slash:
  assumes "name_grammar VN" and "ValidateTopicPath VN p = None"
  shows "CHR ''/'' \<notin> set p"
proof
  assume slash: "CHR ''/'' \<in> set p"
  let ?segs = "split_on CHR ''.'' p"
  have "set p \<subseteq> set ''.'' \<union> (\<Union>s \<in> set ?segs. set s)"
    using set_join_with [of "''.''" ?segs] by (simp add: join_split_on)
  with slash obtain s where "s \<in> set ?segs" "CHR ''/'' \<in> set s" by auto
  with assms show False by (auto simp: topic_path_ok name_grammar_def)
qed

lemma check_tools_ok [checks]:
  "check_tools VN seen ts = None \<longleftrightarrow> list_all VN ts \<and> distinct ts \<and> set ts \<inter> seen = {}"
  by (induction ts arbitrary: seen) auto

lemma Capabilities_ok [checks]:
  "Capabilities_Validate VN c = None \<longleftrightarrow> VN (cap_Role c) \<and> list_all VN (cap_Tools c) \<and> distinct (cap_Tools c)"
  by (simp add: Capabilities_Validate_def check_tools_ok)

lemma op_type_ok [checks]:
  "validateOpType t = None \<longleftrightarrow>
    (\<forall>seg \<in> set (split_on CHR ''.'' t). seg \<noteq> [] \<and> list_all op_type_char seg)"
  by (auto simp: validateOpType_def)

lemma foreign_ok [checks]: "foreign k fs = None \<longleftrightarrow> (\<forall>(f, v) \<in> set fs. v = [])"
  by (auto simp: foreign_def filter_empty_conv)

definition subject_tokens_ok :: "string list \<Rightarrow> bool" where
  "subject_tokens_ok toks \<longleftrightarrow>
     (\<forall>t \<in> set toks. t \<noteq> [] \<and> CHR '' '' \<notin> set t \<and> CHR 0x09 \<notin> set t) \<and> ''>'' \<notin> set (butlast toks)"

lemma check_tokens_ok [checks]: "check_tokens s toks = None \<longleftrightarrow> subject_tokens_ok toks"
  by (induction toks) (auto simp: subject_tokens_ok_def)

lemma subject_ok [checks]:
  "validateSubject s = None \<longleftrightarrow> subject_tokens_ok (split_on CHR ''.'' s)"
  by (auto simp: validateSubject_def check_tokens_ok subject_tokens_ok_def)

definition pattern_ok :: "string \<Rightarrow> bool" where
  "pattern_ok p \<longleftrightarrow>
     (\<exists>rest d. p = ''@every '' @ rest \<and> ParseDuration rest = Some d \<and> 0 < d) \<or>
     (\<exists>rest. p = ''@at '' @ rest \<and> ParseRFC3339 rest) \<or>
     \<not> HasPrefix p ''@'' \<and> length (Fields p) = 6 \<and> (\<forall>f \<in> set (Fields p). list_all cron_char f)"

lemma pattern_ok_iff [checks]: "validatePattern p = None \<longleftrightarrow> pattern_ok p"
proof (cases "CutPrefix p ''@every ''")
  case (Some rest)
  then have p: "p = ''@every '' @ rest" by (simp add: CutPrefix_Some)
  then show ?thesis
    by (auto simp: validatePattern_def pattern_ok_def HasPrefix_def CutPrefix_def
        split: option.split)
next
  case None
  then have ne: "\<And>r. p \<noteq> ''@every '' @ r" by (auto simp: CutPrefix_def)
  show ?thesis
  proof (cases "CutPrefix p ''@at ''")
    case (Some rest)
    then have p: "p = ''@at '' @ rest" by (simp add: CutPrefix_Some)
    then show ?thesis
      by (auto simp: validatePattern_def pattern_ok_def HasPrefix_def CutPrefix_def)
  next
    case (None)
    then have na: "\<And>r. p \<noteq> ''@at '' @ r" by (auto simp: CutPrefix_def)
    have "Fields [] = []" by (simp add: Fields_def)
    with None \<open>CutPrefix p ''@every '' = None\<close> ne na show ?thesis
      by (auto simp: validatePattern_def pattern_ok_def Let_def)
  qed
qed

lemma check_ttl_ok [checks]:
  "check_ttl e = None \<longleftrightarrow> we_TTL e = [] \<or> (\<exists>d. ParseDuration (we_TTL e) = Some d \<and> 0 < d)"
  by (auto simp: check_ttl_def split: option.split)

text \<open>The shape a wake entry must have, by kind.\<close>

definition entry_spec :: "(string \<Rightarrow> bool) \<Rightarrow> WakeEntry \<Rightarrow> bool" where
  "entry_spec VN e \<longleftrightarrow>
     (let path = we_Path e; types = we_Types e; name = we_Name e; pat = we_Pattern e;
          ttl = we_TTL e; subj = we_Subject e in
      (we_Kind e = WakeMention \<and> types = [] \<and> path = [] \<and> name = [] \<and> pat = [] \<and> ttl = [] \<and> subj = []) \<or>
      (we_Kind e = WakeTopic \<and> name = [] \<and> pat = [] \<and> ttl = [] \<and> subj = [] \<and>
         ValidateTopicPath VN path = None \<and> (\<forall>t \<in> set types. validateOpType t = None)) \<or>
      (we_Kind e = WakeSchedule \<and> types = [] \<and> path = [] \<and> subj = [] \<and> VN name \<and> pattern_ok pat \<and>
         (ttl = [] \<or> (\<exists>d. ParseDuration ttl = Some d \<and> 0 < d))) \<or>
      (we_Kind e = WakeSubject \<and> types = [] \<and> path = [] \<and> name = [] \<and> pat = [] \<and> ttl = [] \<and>
         subject_tokens_ok (split_on CHR ''.'' subj)))"

lemma entry_ok [checks]: "WakeEntry_validate VN e = None \<longleftrightarrow> entry_spec VN e"
  by (auto simp: WakeEntry_validate_def entry_spec_def Let_def foreign_ok pattern_ok_iff
      check_ttl_ok subject_ok)

section \<open>The wake set\<close>

definition of_kind :: "string \<Rightarrow> WakeEntry list \<Rightarrow> WakeEntry list" where
  "of_kind k es = filter (\<lambda>e. we_Kind e = k) es"

lemma of_kind_simps [simp]:
  "of_kind k [] = []"
  "of_kind k (e # es) = (if we_Kind e = k then e # of_kind k es else of_kind k es)"
  by (simp_all add: of_kind_def)

definition wake_spec :: "(string \<Rightarrow> bool) \<Rightarrow> WakeEntry list \<Rightarrow> bool" where
  "wake_spec VN es \<longleftrightarrow> (\<forall>e \<in> set es. entry_spec VN e) \<and> length (of_kind WakeMention es) \<le> 1 \<and>
     distinct (map we_Path (of_kind WakeTopic es)) \<and>
     distinct (map we_Name (of_kind WakeSchedule es)) \<and>
     distinct (map we_Subject (of_kind WakeSubject es))"

lemma wake_loop_ok:
  "wake_loop VN i m P N S es = None \<longleftrightarrow>
     (\<forall>e \<in> set es. entry_spec VN e) \<and>
     (of_kind WakeMention es = [] \<or> m + length (of_kind WakeMention es) \<le> 1) \<and>
     distinct (map we_Path (of_kind WakeTopic es)) \<and> we_Path ` set (of_kind WakeTopic es) \<inter> P = {} \<and>
     distinct (map we_Name (of_kind WakeSchedule es)) \<and> we_Name ` set (of_kind WakeSchedule es) \<inter> N = {} \<and>
     distinct (map we_Subject (of_kind WakeSubject es)) \<and> we_Subject ` set (of_kind WakeSubject es) \<inter> S = {}"
proof (induction es arbitrary: i m P N S)
  case Nil
  then show ?case by simp
next
  case (Cons e es)
  have "entry_spec VN e \<Longrightarrow> we_Kind e \<in> {WakeMention, WakeTopic, WakeSchedule, WakeSubject}"
    by (auto simp: entry_spec_def Let_def)
  then show ?case
    by (cases "entry_spec VN e") (auto simp: Cons.IH entry_ok)
qed

lemma validateWake_ok [checks]: "validateWake VN es = None \<longleftrightarrow> wake_spec VN es"
  by (auto simp: validateWake_def wake_loop_ok wake_spec_def)

lemma budget_ok [checks]:
  "BudgetSpec_validate b = None \<longleftrightarrow> 0 \<le> bs_MaxHops b \<and>
     (\<forall>w. bs_Window b = Some w \<longrightarrow> 0 \<le> win_Max w \<and>
        (0 < win_Max w \<longrightarrow> (\<exists>d. ParseDuration (win_Per w) = Some d \<and> 0 < d)))"
  by (auto simp: BudgetSpec_validate_def split: option.split)

lemma validate_opt_ok [checks]: "validate_opt f x = None \<longleftrightarrow> (\<forall>a. x = Some a \<longrightarrow> f a = None)"
  by (auto simp: validate_opt_def split: option.split)

lemma inference_ok [checks]:
  "InferenceSpec_validate i = None \<longleftrightarrow> inf_Model i \<noteq> [] \<and> \<not> HasPrefix (inf_Model i) ''sk-''"
  by (simp add: InferenceSpec_validate_def)

lemma instructions_ok [checks]:
  "Instructions_validate VN i = None \<longleftrightarrow>
     ValidateTopicPath VN (ins_Topic i) = None \<and> \<not> blank (ins_Artefact i)"
  by (simp add: Instructions_validate_def)

section \<open>Artifact references\<close>

lemma record_artifact_ok:
  "parseRecordArtifact VN a = Inr r \<longleftrightarrow>
     (\<exists>t n. TrimPrefix a soulstreamPrefix = t @ CHR ''/'' # n \<and> CHR ''/'' \<notin> set t \<and> CHR ''/'' \<notin> set n \<and>
        n \<noteq> [] \<and> ValidateTopicPath VN t = None \<and>
        r = \<lparr>ref_Scheme = SchemeSoulstream, ref_Path = [], ref_Topic = t, ref_Name = n\<rparr>)"
  (is "?l \<longleftrightarrow> ?r")
proof
  assume ?l
  then show ?r
    by (fastforce simp: parseRecordArtifact_def CutChar_Some split: option.splits if_splits)
next
  assume ?r
  then show ?l by (auto simp: parseRecordArtifact_def)
qed

lemma validateArtifact_ref:
  assumes "validateArtifact VN (d_Artifact d) = None"
  obtains r where "Declaration_ArtifactRef VN d = Inr r"
    and "ref_Scheme r = SchemeFile \<and> ref_Path r \<noteq> [] \<or>
         ref_Scheme r = SchemeSoulstream \<and> ref_Path r = [] \<and> ref_Name r \<noteq> [] \<and>
         CHR ''/'' \<notin> set (ref_Name r) \<and> ValidateTopicPath VN (ref_Topic r) = None"
proof (cases "HasPrefix (d_Artifact d) soulstreamPrefix")
  case True
  with assms obtain r where r: "parseRecordArtifact VN (d_Artifact d) = Inr r"
    by (auto simp: validateArtifact_def split: if_splits sum.splits)
  with True that [of r] show thesis
    by (auto simp: Declaration_ArtifactRef_def record_artifact_ok)
next
  case False
  with assms obtain u where "url_Parse (d_Artifact d) = Some u" "url_Scheme u = SchemeFile"
      "url_Path u \<noteq> []"
    by (auto simp: validateArtifact_def split: if_splits option.splits)
  with False that show thesis
    by (auto simp: Declaration_ArtifactRef_def ArtifactPath_def)
qed

lemma ArtifactRef_empty: "d_Artifact d = [] \<Longrightarrow> Declaration_ArtifactRef VN d = Inl (ArtifactScheme [])"
  by (simp add: Declaration_ArtifactRef_def ArtifactPath_def url_Parse_def url_parse1_def
      CutChar_def getScheme_def cut_query_def parse_rest_def setPath_def empty_url_def
      HasPrefix_def soulstreamPrefix_def)

section \<open>What a valid declaration gives\<close>

lemma Declaration_ok_parts:
  assumes "Declaration_Validate VN d = None"
  shows "d_Role d = RoleAgent \<or> d_Role d = RoleTool" "d_Lifecycle d = LifecycleService"
    "VN (d_Persona d)" "ValidateTopicPath VN (d_Topic d) = None"
    "d_Artifact d = [] \<longrightarrow> d_Role d = RoleAgent \<and> d_Wake d \<noteq> []"
    "d_Artifact d \<noteq> [] \<longrightarrow> validateArtifact VN (d_Artifact d) = None"
    "d_Role d = RoleAgent \<longrightarrow> wake_spec VN (d_Wake d) \<and>
       (\<forall>b. d_Budget d = Some b \<longrightarrow> BudgetSpec_validate b = None) \<and>
       (\<forall>c. d_Capabilities d = Some c \<longrightarrow> Capabilities_Validate VN c = None)"
    "d_Role d \<noteq> RoleAgent \<longrightarrow> d_Instructions d = None \<and> d_Capabilities d = None \<and> d_Wake d = [] \<and>
       d_Budget d = None \<and> d_Inference d = None"
proof -
  have "validateArtifact VN [] \<noteq> None" by (simp add: validateArtifact_def)
  with assms show "d_Artifact d = [] \<longrightarrow> d_Role d = RoleAgent \<and> d_Wake d \<noteq> []"
    by (auto simp: Declaration_Validate_def Let_def split: if_splits)
qed (use assms in \<open>auto simp: Declaration_Validate_def Let_def validate_opt_ok validateWake_ok
      split: if_splits\<close>)

section \<open>What validation promises\<close>

text \<open>A declaration the documentation calls valid, without the order of the checks: the fields
  every workload has, and by role either an agent (its artifact optional once it declares wakes)
  or a tool (an artifact, and nothing of an agent).\<close>

definition artifact_spec :: "(string \<Rightarrow> bool) \<Rightarrow> string \<Rightarrow> bool" where
  "artifact_spec VN a \<longleftrightarrow>
     (\<exists>t n. a = soulstreamPrefix @ t @ ''/'' @ n \<and> CHR ''/'' \<notin> set t \<and> CHR ''/'' \<notin> set n \<and> n \<noteq> [] \<and>
        ValidateTopicPath VN t = None) \<or>
     \<not> HasPrefix a soulstreamPrefix \<and> a \<noteq> [] \<and>
       (\<exists>u. url_Parse a = Some u \<and> url_Scheme u = SchemeFile \<and> url_Path u \<noteq> [])"

definition agent_spec :: "(string \<Rightarrow> bool) \<Rightarrow> Declaration \<Rightarrow> bool" where
  "agent_spec VN d \<longleftrightarrow> d_Role d = RoleAgent \<and> wake_spec VN (d_Wake d) \<and>
     (d_Artifact d = [] \<and> d_Wake d \<noteq> [] \<or> artifact_spec VN (d_Artifact d)) \<and>
     pred_option (\<lambda>i. ValidateTopicPath VN (ins_Topic i) = None \<and> \<not> blank (ins_Artefact i)) (d_Instructions d) \<and>
     pred_option (\<lambda>c. VN (cap_Role c) \<and> list_all VN (cap_Tools c) \<and> distinct (cap_Tools c)) (d_Capabilities d) \<and>
     pred_option (\<lambda>b. BudgetSpec_validate b = None) (d_Budget d) \<and>
     pred_option (\<lambda>i. inf_Model i \<noteq> [] \<and> \<not> HasPrefix (inf_Model i) ''sk-'') (d_Inference d)"

definition tool_spec :: "(string \<Rightarrow> bool) \<Rightarrow> Declaration \<Rightarrow> bool" where
  "tool_spec VN d \<longleftrightarrow> d_Role d = RoleTool \<and> artifact_spec VN (d_Artifact d) \<and> d_Instructions d = None \<and>
     d_Capabilities d = None \<and> d_Wake d = [] \<and> d_Budget d = None \<and> d_Inference d = None"

definition declaration_spec :: "(string \<Rightarrow> bool) \<Rightarrow> Declaration \<Rightarrow> bool" where
  "declaration_spec VN d \<longleftrightarrow> d_Lifecycle d = LifecycleService \<and> VN (d_Persona d) \<and> d_Topic d \<noteq> [] \<and>
     (\<forall>s \<in> set (split_on CHR ''.'' (d_Topic d)). VN s) \<and> (agent_spec VN d \<or> tool_spec VN d)"

lemma TrimPrefix_eq: "HasPrefix a p \<Longrightarrow> TrimPrefix a p = x \<longleftrightarrow> a = p @ x"
  by (auto simp: TrimPrefix_def HasPrefix_def CutPrefix_def elim!: prefixE)

lemma artifact_ok [checks]: "validateArtifact VN a = None \<longleftrightarrow> artifact_spec VN a"
proof (cases "HasPrefix a soulstreamPrefix")
  case True
  have ne: "a \<noteq> []" using True by (auto simp: HasPrefix_def soulstreamPrefix_def)
  have "validateArtifact VN a = None \<longleftrightarrow> (\<exists>r. parseRecordArtifact VN a = Inr r)"
    using True ne by (auto simp: validateArtifact_def split: sum.split)
  also have "\<dots> \<longleftrightarrow> artifact_spec VN a"
    using True by (auto simp: record_artifact_ok artifact_spec_def TrimPrefix_eq)
  finally show ?thesis .
next
  case False
  then have "\<And>x. a \<noteq> soulstreamPrefix @ x" by (auto simp: HasPrefix_def)
  with False show ?thesis
    by (auto simp: validateArtifact_def artifact_spec_def split: option.split)
qed

lemma pred_opt: "validate_opt f x = None \<longleftrightarrow> pred_option (\<lambda>a. f a = None) x"
  by (cases x) (simp_all add: validate_opt_def)


text \<open>A record artifact survives the round trip: rendering a topic and a name as a
  \<open>soulstream://\<close> reference and parsing it gives them back, and what parses as a record
  reference renders to the declared artifact.\<close>

theorem record_artifact_roundtrip:
  assumes "name_grammar VN" and "ValidateTopicPath VN t = None" and "n \<noteq> []" and "CHR ''/'' \<notin> set n"
  shows "Declaration_ArtifactRef VN (d\<lparr>d_Artifact := soulstreamPrefix @ t @ ''/'' @ n\<rparr>) =
      Inr \<lparr>ref_Scheme = SchemeSoulstream, ref_Path = [], ref_Topic = t, ref_Name = n\<rparr> \<and>
    (\<forall>e r. Declaration_ArtifactRef VN e = Inr r \<and> ref_Scheme r = SchemeSoulstream \<longrightarrow>
      soulstreamPrefix @ ref_Topic r @ ''/'' @ ref_Name r = d_Artifact e)"
proof (intro conjI allI impI)
  let ?a = "soulstreamPrefix @ t @ ''/'' @ n"
  have pre: "HasPrefix ?a soulstreamPrefix" by (simp add: HasPrefix_def)
  have "CHR ''/'' \<notin> set t" by (rule topic_path_no_slash [OF assms(1,2)])
  then have "parseRecordArtifact VN ?a = Inr \<lparr>ref_Scheme = SchemeSoulstream, ref_Path = [], ref_Topic = t, ref_Name = n\<rparr>"
    using assms by (simp add: record_artifact_ok TrimPrefix_eq [OF pre])
  with pre show "Declaration_ArtifactRef VN (d\<lparr>d_Artifact := ?a\<rparr>) =
      Inr \<lparr>ref_Scheme = SchemeSoulstream, ref_Path = [], ref_Topic = t, ref_Name = n\<rparr>"
    by (simp add: Declaration_ArtifactRef_def)
next
  fix e r
  assume *: "Declaration_ArtifactRef VN e = Inr r \<and> ref_Scheme r = SchemeSoulstream"
  then have pre: "HasPrefix (d_Artifact e) soulstreamPrefix"
    by (auto simp: Declaration_ArtifactRef_def split: if_splits sum.splits)
  with * show "soulstreamPrefix @ ref_Topic r @ ''/'' @ ref_Name r = d_Artifact e"
    by (auto simp: Declaration_ArtifactRef_def record_artifact_ok TrimPrefix_eq [OF pre])
qed

text \<open>A valid declaration that names an artifact resolves to a reference: \<open>ArtifactRef\<close>
  never fails on it, and gives a file with a path or a record with a topic and a name.\<close>

theorem valid_artifact_resolves:
  assumes "Declaration_Validate VN d = None" and "d_Artifact d \<noteq> []"
  shows "\<exists>r. Declaration_ArtifactRef VN d = Inr r \<and>
    (ref_Scheme r = SchemeFile \<and> ref_Path r \<noteq> [] \<or>
     ref_Scheme r = SchemeSoulstream \<and> ref_Path r = [] \<and> ref_Name r \<noteq> [] \<and> CHR ''/'' \<notin> set (ref_Name r) \<and>
     ValidateTopicPath VN (ref_Topic r) = None)"
proof -
  have "validateArtifact VN (d_Artifact d) = None"
    using Declaration_ok_parts(6) [OF assms(1)] assms(2) by simp
  then obtain r where "Declaration_ArtifactRef VN d = Inr r"
    and "ref_Scheme r = SchemeFile \<and> ref_Path r \<noteq> [] \<or>
         ref_Scheme r = SchemeSoulstream \<and> ref_Path r = [] \<and> ref_Name r \<noteq> [] \<and>
         CHR ''/'' \<notin> set (ref_Name r) \<and> ValidateTopicPath VN (ref_Topic r) = None"
    by (rule validateArtifact_ref)
  then show ?thesis by blast
qed

section \<open>A concrete declaration\<close>

definition demo_record_decl :: Declaration where
  "demo_record_decl = \<lparr>d_Role = RoleTool, d_Lifecycle = LifecycleService, d_Persona = ''fetcher'', d_Topic = ''lab.tools'',
     d_Artifact = ''soulstream://lab.tools/fetch'', d_Args = [], d_Instructions = None, d_Capabilities = None,
     d_Wake = [], d_Budget = None, d_Inference = None\<rparr>"

theorem record_artifact_roundtrip_witness:
  "Declaration_ArtifactRef kebab (demo_record_decl\<lparr>d_Artifact := ''soulstream://lab.tools/fetch''\<rparr>) =
     Inr \<lparr>ref_Scheme = SchemeSoulstream, ref_Path = [], ref_Topic = ''lab.tools'', ref_Name = ''fetch''\<rparr>"
proof -
  have "ValidateTopicPath kebab ''lab.tools'' = None" by code_simp
  from record_artifact_roundtrip [OF kebab_grammar this, of "''fetch''" demo_record_decl]
  show ?thesis by (simp add: soulstreamPrefix_def)
qed

theorem valid_artifact_resolves_witness:
  "\<exists>r. Declaration_ArtifactRef kebab demo_record_decl = Inr r"
proof -
  have "Declaration_Validate kebab demo_record_decl = None" by code_simp
  from valid_artifact_resolves [OF this] show ?thesis by (auto simp: demo_record_decl_def)
qed

end
