(* ===== verification/Wrap_Correlate.thy ===== *)
theory Wrap_Correlate
  imports Declaration
begin

text \<open>
  The pure half of package \<open>wrap\<close> (src/wrap/correlate.go): wake identity, outcome
  correlation, the ancestry walker and the wake-budget decision, with the struct \<open>Budget\<close> of
  config.go.  \<open>uuid.NewSHA1\<close> is a third-party function: the parameter \<open>uuid5\<close>, which takes
  the namespace and the hashed bytes and gives the UUID's text.
\<close>

section \<open>Wake identity\<close>

definition wakeNamespace :: string where
  "wakeNamespace = ''6f1c8f5a-9e0d-4b1c-8a52-7c0b7a0e4d21''"

definition WakeOpID :: "(string \<Rightarrow> string \<Rightarrow> string) \<Rightarrow> string \<Rightarrow> string \<Rightarrow> string" where
  "WakeOpID uuid5 notifyOpID persona = uuid5 wakeNamespace (notifyOpID @ ''/'' @ persona)"

record Turn =
  t_OpID :: string
  t_Author :: string
  t_Type :: string
  t_Body :: string
  t_Timestamp :: time

definition zero_Turn :: Turn where
  "zero_Turn = \<lparr>t_OpID = [], t_Author = [], t_Type = [], t_Body = [], t_Timestamp = 0\<rparr>"

section \<open>Correlation\<close>

definition own_turn :: "string \<Rightarrow> Turn \<Rightarrow> bool" where
  "own_turn persona t \<longleftrightarrow> t_Author t = persona \<and> t_Type t = ''turn.post''"

definition PostedDuringRun :: "Turn list \<Rightarrow> Turn list \<Rightarrow> string \<Rightarrow> string option" where
  "PostedDuringRun before after persona =
     (let seen = set (map t_OpID before) in
      map_option t_OpID (List.find (\<lambda>t. own_turn persona t \<and> t_OpID t \<notin> seen) after))"

definition ContainsOp :: "Turn list \<Rightarrow> string \<Rightarrow> bool" where
  "ContainsOp view opID \<longleftrightarrow> list_ex (\<lambda>t. t_OpID t = opID) view"

definition AnchorBody :: "Turn list \<Rightarrow> string \<Rightarrow> string" where
  "AnchorBody view opID =
     (case List.find (\<lambda>t. t_OpID t = opID) view of Some t \<Rightarrow> t_Body t | None \<Rightarrow> [])"

lemma ContainsOp_iff: "ContainsOp view i \<longleftrightarrow> i \<in> t_OpID ` set view"
  by (auto simp: ContainsOp_def list_ex_iff)

lemma PostedDuringRun_Some:
  "PostedDuringRun before after p = Some i \<Longrightarrow>
     i \<notin> t_OpID ` set before \<and> (\<exists>t \<in> set after. t_OpID t = i \<and> own_turn p t)"
  by (auto simp: PostedDuringRun_def dest!: find_SomeD)

lemma PostedDuringRun_None:
  "PostedDuringRun before after p = None \<longleftrightarrow>
     (\<forall>t \<in> set after. own_turn p t \<longrightarrow> t_OpID t \<in> t_OpID ` set before)"
  by (auto simp: PostedDuringRun_def find_None_iff')

section \<open>The ancestry walker\<close>

text \<open>
  \<open>is_parent d op cand\<close>: the candidate's binding with the author of \<open>op\<close> yields the id of
  \<open>op\<close>; \<open>d\<close> is the binding (\<open>WakeOpID uuid5\<close>).  The loop keeps the last match and the count.
\<close>

definition is_parent :: "(string \<Rightarrow> string \<Rightarrow> string) \<Rightarrow> Turn \<Rightarrow> Turn \<Rightarrow> bool" where
  "is_parent d op cand \<longleftrightarrow> t_OpID cand \<noteq> t_OpID op \<and> d (t_OpID cand) (t_Author op) = t_OpID op"

fun parent_loop :: "(string \<Rightarrow> string \<Rightarrow> string) \<Rightarrow> Turn \<Rightarrow> Turn list \<Rightarrow> Turn \<Rightarrow> nat \<Rightarrow> Turn \<times> nat" where
  "parent_loop d op [] mtch n = (mtch, n)"
| "parent_loop d op (cand # view) mtch n =
     (if t_OpID cand = t_OpID op then parent_loop d op view mtch n
      else if d (t_OpID cand) (t_Author op) = t_OpID op then parent_loop d op view cand (n + 1)
      else parent_loop d op view mtch n)"

definition ParentOf :: "(string \<Rightarrow> string \<Rightarrow> string) \<Rightarrow> Turn list \<Rightarrow> Turn \<Rightarrow> Turn \<times> nat" where
  "ParentOf uuid5 view op = parent_loop (WakeOpID uuid5) op view zero_Turn 0"

fun chain_loop ::
  "(string \<Rightarrow> string \<Rightarrow> string) \<Rightarrow> Turn list \<Rightarrow> nat \<Rightarrow> Turn \<Rightarrow> Turn list \<Rightarrow> nat \<Rightarrow> Turn list \<times> nat" where
  "chain_loop uuid5 view 0 cur chain ambiguous = (chain, ambiguous)"
| "chain_loop uuid5 view (Suc k) cur chain ambiguous =
     (let (p, n) = ParentOf uuid5 view cur in
      if n = 0 then (chain, ambiguous)
      else chain_loop uuid5 view k p (chain @ [p]) (if 1 < n then ambiguous + 1 else ambiguous))"

definition ChainToRoot :: "(string \<Rightarrow> string \<Rightarrow> string) \<Rightarrow> Turn list \<Rightarrow> Turn \<Rightarrow> Turn list \<times> nat" where
  "ChainToRoot uuid5 view op = chain_loop uuid5 view (length view) op [op] 0"

definition ProvableHops :: "(string \<Rightarrow> string \<Rightarrow> string) \<Rightarrow> Turn list \<Rightarrow> Turn \<Rightarrow> int" where
  "ProvableHops uuid5 view op = int (length (fst (ChainToRoot uuid5 view op))) - 1"

section \<open>The budget\<close>

record Budget =
  b_MaxHops :: int
  b_WindowMax :: int
  b_WindowPer :: duration

datatype refusal = DepthBudget int int | WindowBudget nat duration int

definition own_recent :: "Turn list \<Rightarrow> string \<Rightarrow> time \<Rightarrow> nat" where
  "own_recent view persona since =
     length (filter (\<lambda>t. own_turn persona t \<and> since < t_Timestamp t) view)"

definition BudgetDecision ::
  "(string \<Rightarrow> string \<Rightarrow> string) \<Rightarrow> Budget \<Rightarrow> Turn list \<Rightarrow> Turn \<Rightarrow> string \<Rightarrow> time \<Rightarrow> refusal option" where
  "BudgetDecision uuid5 b view trigger persona now =
     orelse
       (if 0 < b_MaxHops b then
          (let hops = ProvableHops uuid5 view trigger in
           err_if (b_MaxHops b < hops + 1) (DepthBudget (hops + 1) (b_MaxHops b)))
        else None)
       (if 0 < b_WindowMax b then
          (let since = now - b_WindowPer b; n = own_recent view persona since in
           err_if (b_WindowMax b \<le> int n) (WindowBudget n (b_WindowPer b) (b_WindowMax b)))
        else None)"

lemma BudgetDecision_None [checks]:
  "BudgetDecision uuid5 b view trig p now = None \<longleftrightarrow>
     (0 < b_MaxHops b \<longrightarrow> ProvableHops uuid5 view trig + 1 \<le> b_MaxHops b) \<and>
     (0 < b_WindowMax b \<longrightarrow> int (own_recent view p (now - b_WindowPer b)) < b_WindowMax b)"
  by (auto simp: BudgetDecision_def Let_def not_le not_less)

section \<open>Facts of the walker\<close>

lemma parent_loop_eq:
  "parent_loop d op view m n =
     (let ps = filter (is_parent d op) view in
      (if ps = [] then m else last ps, n + length ps))"
  by (induction view arbitrary: m n) (auto simp: is_parent_def Let_def)

lemma ParentOf_eq:
  "ParentOf uuid5 view op =
     (let ps = filter (is_parent (WakeOpID uuid5) op) view in
      (if ps = [] then zero_Turn else last ps, length ps))"
  by (simp add: ParentOf_def parent_loop_eq)

lemma ParentOf_count: "snd (ParentOf uuid5 view op) = 0 \<longleftrightarrow>
    (\<forall>c \<in> set view. \<not> is_parent (WakeOpID uuid5) op c)"
  by (auto simp: ParentOf_eq Let_def filter_empty_conv)

lemma ParentOf_parent:
  assumes "ParentOf uuid5 view op = (p, n)" and "n \<noteq> 0"
  shows "p \<in> set view \<and> is_parent (WakeOpID uuid5) op p"
proof -
  let ?ps = "filter (is_parent (WakeOpID uuid5) op) view"
  from assms have "?ps \<noteq> []" "p = last ?ps" by (auto simp: ParentOf_eq Let_def split: if_splits)
  then have "p \<in> set ?ps" using last_in_set by blast
  then show ?thesis by simp
qed

text \<open>The number of links the walk takes with \<open>k\<close> iterations.\<close>

fun links :: "(string \<Rightarrow> string \<Rightarrow> string) \<Rightarrow> Turn list \<Rightarrow> nat \<Rightarrow> Turn \<Rightarrow> nat" where
  "links uuid5 view 0 cur = 0"
| "links uuid5 view (Suc k) cur =
     (let (p, n) = ParentOf uuid5 view cur in if n = 0 then 0 else Suc (links uuid5 view k p))"

lemma chain_loop_length:
  "length (fst (chain_loop uuid5 view k cur ch a)) = length ch + links uuid5 view k cur"
  by (induction k arbitrary: cur ch a) (auto simp: Let_def split: prod.split)

lemma ProvableHops_links: "ProvableHops uuid5 view op = int (links uuid5 view (length view) op)"
  by (simp add: ProvableHops_def ChainToRoot_def chain_loop_length)

lemma links_le: "links uuid5 view k cur \<le> k"
  by (induction k arbitrary: cur) (auto simp: Let_def split: prod.split)

text \<open>The chain starts at the op and goes from each element to a provable parent in the view.\<close>

lemma chain_loop_linked:
  assumes "ch \<noteq> []" and "last ch = cur"
    and "successively (is_parent (WakeOpID uuid5)) ch"
  shows "successively (is_parent (WakeOpID uuid5)) (fst (chain_loop uuid5 view k cur ch a)) \<and>
    hd (fst (chain_loop uuid5 view k cur ch a)) = hd ch"
  using assms
proof (induction k arbitrary: cur ch a)
  case 0
  then show ?case by simp
next
  case (Suc k)
  obtain p n where pn: "ParentOf uuid5 view cur = (p, n)" by force
  show ?case
  proof (cases "n = 0")
    case True
    with pn Suc.prems show ?thesis by simp
  next
    case False
    with pn have "is_parent (WakeOpID uuid5) cur p" using ParentOf_parent by blast
    with Suc.prems have "successively (is_parent (WakeOpID uuid5)) (ch @ [p])"
      by (simp add: successively_append_iff)
    with Suc.IH [of "ch @ [p]" p] Suc.prems(1) pn False show ?thesis by simp
  qed
qed

lemma ChainToRoot_linked:
  "successively (is_parent (WakeOpID uuid5)) (fst (ChainToRoot uuid5 view op)) \<and>
   hd (fst (ChainToRoot uuid5 view op)) = op"
  using chain_loop_linked [of "[op]" op uuid5 view "length view" 0] by (simp add: ChainToRoot_def)

section \<open>Records in causal order\<close>

text \<open>
  \<open>causal\<close>: in stream order, an op that is provably triggered by another one of the view
  stands after it.  It rules out hash collisions among the ids in play and nothing else.
  Under it the bound of the loop is enough: the walk ends at a chain root.
\<close>

definition causal :: "(string \<Rightarrow> string \<Rightarrow> string) \<Rightarrow> Turn list \<Rightarrow> bool" where
  "causal uuid5 view \<longleftrightarrow> (\<forall>i < length view. \<forall>j < length view.
     is_parent (WakeOpID uuid5) (view ! j) (view ! i) \<longrightarrow> i < j)"

lemma causalD:
  assumes "causal uuid5 view" "i < length view" "j < length view"
    "is_parent (WakeOpID uuid5) (view ! j) (view ! i)"
  shows "i < j"
  using assms unfolding causal_def by blast

lemma links_stable:
  assumes "causal uuid5 view" and "i < length view" and "i \<le> k"
  shows "links uuid5 view k (view ! i) = links uuid5 view i (view ! i)"
  using assms(2,3)
proof (induction i arbitrary: k rule: less_induct)
  case (less i)
  obtain p n where pn: "ParentOf uuid5 view (view ! i) = (p, n)" by force
  show ?case
  proof (cases "n = 0")
    case True
    with pn show ?thesis by (cases k; cases i) (auto simp: Let_def)
  next
    case False
    with pn have p: "p \<in> set view" "is_parent (WakeOpID uuid5) (view ! i) p"
      using ParentOf_parent by blast+
    then obtain j where j: "j < length view" "p = view ! j" by (auto simp: in_set_conv_nth)
    with p(2) assms(1) less.prems have ji: "j < i" by (auto dest: causalD)
    then obtain i' k' where ik: "i = Suc i'" "k = Suc k'" "j \<le> i'" "j \<le> k'"
      using less.prems(2) by (cases i; cases k) auto
    from less.IH [OF ji j(1), of i'] less.IH [OF ji j(1), of k'] ik
    have "links uuid5 view i' p = links uuid5 view k' p" by (simp add: j(2))
    with pn False ik show ?thesis by simp
  qed
qed

lemma links_enough:
  assumes "causal uuid5 view" and "length view \<le> k"
  shows "links uuid5 view k cur = links uuid5 view (length view) cur"
proof (cases "length view")
  case 0
  then show ?thesis by (cases k) (auto simp: ParentOf_eq)
next
  case (Suc l)
  with assms(2) obtain k' where k: "k = Suc k'" "l \<le> k'" by (cases k) auto
  obtain p n where pn: "ParentOf uuid5 view cur = (p, n)" by force
  show ?thesis
  proof (cases "n = 0")
    case True
    with pn Suc k show ?thesis by simp
  next
    case False
    with pn have "p \<in> set view" using ParentOf_parent by blast
    then obtain j where j: "j < length view" "p = view ! j" by (auto simp: in_set_conv_nth)
    with Suc k links_stable [OF assms(1) j(1), of l] links_stable [OF assms(1) j(1), of k']
    have "links uuid5 view k' p = links uuid5 view l p" by simp
    with pn Suc k False show ?thesis by simp
  qed
qed

text \<open>With the loop's bound the last element of the chain has no provable parent.\<close>

lemma chain_loop_root:
  assumes "causal uuid5 view" and "ch \<noteq> []" and "last ch = view ! i" and "i < length view" and "i \<le> k"
  shows "snd (ParentOf uuid5 view (last (fst (chain_loop uuid5 view k (view ! i) ch a)))) = 0"
  using assms(2-)
proof (induction i arbitrary: k ch a rule: less_induct)
  case (less i)
  obtain p n where pn: "ParentOf uuid5 view (view ! i) = (p, n)" by force
  show ?case
  proof (cases "n = 0")
    case True
    with pn less.prems show ?thesis by (cases k) auto
  next
    case False
    with pn have p: "p \<in> set view" "is_parent (WakeOpID uuid5) (view ! i) p"
      using ParentOf_parent by blast+
    then obtain j where j: "j < length view" "p = view ! j" by (auto simp: in_set_conv_nth)
    with p(2) assms(1) less.prems have ji: "j < i" by (auto dest: causalD)
    with less.prems(4) obtain k' where k: "k = Suc k'" "j \<le> k'" by (cases k) auto
    show ?thesis
      using less.IH [OF ji, of "ch @ [view ! j]" k'] j k pn False by simp
  qed
qed

end
