(* ===== verification/Wrap_Harness.thy ===== *)
theory Wrap_Harness
  imports Wrap_Correlate
begin

text \<open>
  The pure functions of src/wrap/harness.go that the engine shares: the placeholder
  substitution \<open>fill\<close>, the environment scrub \<open>sanitizedEnv\<close>, and the values of one harness
  run.  The two template structs are those of config.go.
\<close>

section \<open>Templates and runs\<close>

record TerminalMap =
  tm_TypeField :: string
  tm_TerminalValue :: string
  tm_TextField :: string
  tm_StatusField :: string
  tm_SuccessValue :: string

record Template =
  tpl_Command :: "string list"
  tpl_Prompt :: string
  tpl_Terminal :: TerminalMap
  tpl_Env :: "string \<rightharpoonup> string"
  tpl_MCPCommand :: string
  tpl_MCPArgs :: "string list"
  tpl_MCPEnv :: "string \<rightharpoonup> string"

record HarnessResult =
  hr_Text :: string
  hr_OK :: bool
  hr_Detail :: string

record RunSpec =
  rs_Template :: Template
  rs_Prompt :: string
  rs_Topic :: string
  rs_RunDir :: string
  rs_Timeout :: duration

section \<open>fill\<close>

text \<open>
  \<open>fill\<close> ranges over a Go map: one \<open>ReplaceAll\<close> per variable, in an order the language does
  not fix.  The model takes the variables in the order of the iteration.
\<close>

definition placeholder :: "string \<Rightarrow> string" where
  "placeholder k = ''{{'' @ k @ ''}}''"

definition fill :: "string \<Rightarrow> (string \<times> string) list \<Rightarrow> string" where
  "fill s vars = foldl (\<lambda>acc (k, v). ReplaceAll acc (placeholder k) v) s vars"

lemma placeholder_not_Nil [simp]: "placeholder k \<noteq> []"
  by (simp add: placeholder_def)

lemma fill_simps [simp]:
  "fill s [] = s" "fill s ((k, v) # vs) = fill (ReplaceAll s (placeholder k) v) vs"
  by (simp_all add: fill_def)

text \<open>A text with no placeholder of the variables is left as it is.\<close>

lemma fill_absent:
  "\<forall>(k, v) \<in> set vars. \<not> Contains s (placeholder k) \<Longrightarrow> fill s vars = s"
  by (induction vars) (auto simp: ReplaceAll_absent)

section \<open>sanitizedEnv\<close>

definition sanitizedEnv :: "string list \<Rightarrow> string list" where
  "sanitizedEnv environ = filter (\<lambda>kv. \<not> HasPrefix kv ''SOULSTREAM_'') environ"

end
