(* ===== verification/Wrap_Config.thy ===== *)
theory Wrap_Config
  imports Wrap_Harness
begin

text \<open>
  The engine's configuration (src/wrap/config.go): the wake set and its validation, the
  budget's validation and defaults, templates and presets; and \<open>DeclaredConfig\<close>
  (src/wrap/declared.go), which maps a declaration onto a configuration.  A Go map of
  strings is a partial function; the loops over such maps that build another map assign
  distinct keys, so their order does not matter.
\<close>

section \<open>Data\<close>

record TopicWake =
  tw_Path :: string
  tw_Types :: "string list"

record ScheduleWake =
  sw_Name :: string
  sw_Pattern :: string
  sw_TTL :: duration

record SubjectWake =
  sj_Subject :: string

record WakeSet =
  ws_Mention :: bool
  ws_Topics :: "TopicWake list"
  ws_Schedules :: "ScheduleWake list"
  ws_Subjects :: "SubjectWake list"

text \<open>The shipped instruction source, \<open>recordInstructions\<close>: a lineage on a topic.\<close>

record recordInstructions =
  ri_topic :: string
  ri_artefact :: string

record Config =
  cfg_Persona :: string
  cfg_Template :: Template
  cfg_Scratch :: string
  cfg_RunTimeout :: duration
  cfg_Retries :: int
  cfg_InboxLimit :: int
  cfg_Budget :: Budget
  cfg_Unbudgeted :: bool
  cfg_Wakes :: "WakeSet option"
  cfg_HomeTopic :: string
  cfg_Instructions :: "recordInstructions option"

datatype wrap_error =
    WakeSetEmpty | NeedsHomeTopic | NotReplayable string string
  | BudgetNegative int int duration | BudgetWindow int
  | TemplateCommand | TemplatePrompt | TemplateTerminal | TemplateStatusPair
  | NoPreset string
  | BadDeclaration decl_error | NotAgent string | PersonaMismatch string string
  | ScheduleTTL string | NotRunnable string | WindowPer string | NeedsClient

section \<open>Validation\<close>

definition replayableTypes :: "string set" where
  "replayableTypes = {''turn.post'', ''comment.add'', ''comment.reply'', ''attachment.add''}"

definition check_topic_wake :: "TopicWake \<Rightarrow> wrap_error option" where
  "check_topic_wake t =
     first_err (\<lambda>ty. err_if (ty \<notin> replayableTypes) (NotReplayable (tw_Path t) ty)) (tw_Types t)"

definition WakeSet_Validate :: "WakeSet option \<Rightarrow> string \<Rightarrow> wrap_error option" where
  "WakeSet_Validate ws homeTopic =
     (case ws of None \<Rightarrow> None | Some s \<Rightarrow>
      if \<not> ws_Mention s \<and> ws_Topics s = [] \<and> ws_Schedules s = [] \<and> ws_Subjects s = []
      then Some WakeSetEmpty
      else if (ws_Schedules s \<noteq> [] \<or> ws_Subjects s \<noteq> []) \<and> homeTopic = [] then Some NeedsHomeTopic
      else first_err check_topic_wake (ws_Topics s))"

definition Budget_Validate :: "Budget \<Rightarrow> wrap_error option" where
  "Budget_Validate b =
     (if b_MaxHops b < 0 \<or> b_WindowMax b < 0 \<or> b_WindowPer b < 0
      then Some (BudgetNegative (b_MaxHops b) (b_WindowMax b) (b_WindowPer b))
      else if 0 < b_WindowMax b \<and> b_WindowPer b = 0 then Some (BudgetWindow (b_WindowMax b))
      else None)"

definition Template_Validate :: "Template \<Rightarrow> wrap_error option" where
  "Template_Validate t =
     (if tpl_Command t = [] then Some TemplateCommand
      else if tpl_Prompt t = [] then Some TemplatePrompt
      else let m = tpl_Terminal t in
        if tm_TypeField m = [] \<or> tm_TerminalValue m = [] \<or> tm_TextField m = [] then Some TemplateTerminal
        else if (tm_StatusField m = []) \<noteq> (tm_SuccessValue m = []) then Some TemplateStatusPair
        else None)"

section \<open>Defaults\<close>

definition defaultRetries :: int where "defaultRetries = 2"
definition defaultRunTimeout :: duration where "defaultRunTimeout = 150 * Second"
definition defaultMaxHops :: int where "defaultMaxHops = 4"
definition defaultWindowMax :: int where "defaultWindowMax = 8"
definition defaultWindowPer :: duration where "defaultWindowPer = 10 * Minute"

definition zero_Budget :: Budget where
  "zero_Budget = \<lparr>b_MaxHops = 0, b_WindowMax = 0, b_WindowPer = 0\<rparr>"

text \<open>
  The error of \<open>ParseDuration\<close> is dropped here, as in the source: the value is then 0.  The
  window of \<open>DefaultBudget\<close> is a non-nil pointer, so the dereference does not panic.
\<close>

definition default_engine_budget :: Budget where
  "default_engine_budget =
     (let w = the (bs_Window DefaultBudget);
          per = (case ParseDuration (win_Per w) of Some d \<Rightarrow> d | None \<Rightarrow> 0) in
      \<lparr>b_MaxHops = bs_MaxHops DefaultBudget, b_WindowMax = win_Max w, b_WindowPer = per\<rparr>)"

definition ApplyDefaults :: "Config \<Rightarrow> Config" where
  "ApplyDefaults c =
     (let c1 = (if cfg_Retries c = 0 then c\<lparr>cfg_Retries := defaultRetries\<rparr> else c);
          c2 = (if cfg_RunTimeout c1 = 0 then c1\<lparr>cfg_RunTimeout := defaultRunTimeout\<rparr> else c1) in
      if \<not> cfg_Unbudgeted c2 \<and> cfg_Budget c2 = zero_Budget
      then c2\<lparr>cfg_Budget := default_engine_budget\<rparr> else c2)"

section \<open>Presets\<close>

record Lane =
  lane_URL :: string
  lane_CredsFile :: string
  lane_Token :: string
  lane_Realm :: string
  lane_Persona :: string
  lane_MCPCommandLoc :: string
  lane_MCPArgs :: "string list"
  lane_MCPExtraEnv :: "string \<rightharpoonup> string"

definition lane_env :: "Lane \<Rightarrow> string \<rightharpoonup> string" where
  "lane_env lane k =
     (case map_of [(''SOULSTREAM_URL'', lane_URL lane), (''SOULSTREAM_CREDS'', lane_CredsFile lane),
        (''SOULSTREAM_TOKEN'', lane_Token lane), (''SOULSTREAM_REALM'', lane_Realm lane),
        (''SOULSTREAM_PERSONA'', lane_Persona lane)] k of
        Some v \<Rightarrow> if v \<noteq> [] then Some v else None
      | None \<Rightarrow> None)"

text \<open>The lane's own keys first, then the extras whose key is not taken and whose value is set.\<close>

definition preset_env :: "Lane \<Rightarrow> string \<rightharpoonup> string" where
  "preset_env lane k =
     (case lane_env lane k of
        Some v \<Rightarrow> Some v
      | None \<Rightarrow> (case lane_MCPExtraEnv lane k of
          Some v \<Rightarrow> if v \<noteq> [] then Some v else None
        | None \<Rightarrow> None))"

abbreviation nl :: string where "nl \<equiv> [CHR 0x0A]"
abbreviation dq :: string where "dq \<equiv> [CHR 0x22]"

definition presetPrompt :: string where
  "presetPrompt =
     ''You are @'' @ ''{{PERSONA}}, an agent in a shared conversation space. '' @
     ''@'' @ ''{{AUTHOR}} mentioned you in the topic '' @ dq @ ''{{TOPIC}}'' @ dq @
     '' (message {{OP_ID}}):'' @ nl @ nl @ ''{{BODY}}'' @ nl @ nl @
     ''If tools named soulstream_* are available, you may read the topic for context '' @
     ''(soulstream_show_topic with path '' @ dq @ ''{{TOPIC}}'' @ dq @ '') and act on what was asked. '' @
     ''Do NOT post your main reply with a tool '' @ [CHR 0xE2, CHR 0x80, CHR 0x94] @
     '' your final message is posted into the '' @
     ''topic as your reply automatically. Write it as the reply itself, addressed to the conversation.''"

definition Preset :: "string \<Rightarrow> Lane \<Rightarrow> wrap_error + Template" where
  "Preset name lane =
     (let mcpCommand = (if lane_MCPCommandLoc lane = [] then ''soulstream-mcp''
                        else lane_MCPCommandLoc lane) in
      if name = ''claude'' then Inr
        \<lparr>tpl_Command = [''claude'', ''-p'', ''{{PROMPT}}'', ''--output-format'', ''stream-json'',
           ''--verbose'', ''--mcp-config'', ''{{MCP_CONFIG}}'', ''--strict-mcp-config'',
           ''--allowedTools'', ''mcp__soulstream__*'', ''--max-turns'', ''8''],
         tpl_Prompt = presetPrompt,
         tpl_Terminal = \<lparr>tm_TypeField = ''type'', tm_TerminalValue = ''result'',
           tm_TextField = ''result'', tm_StatusField = ''subtype'', tm_SuccessValue = ''success''\<rparr>,
         tpl_Env = Map.empty, tpl_MCPCommand = mcpCommand, tpl_MCPArgs = lane_MCPArgs lane,
         tpl_MCPEnv = preset_env lane\<rparr>
      else if name = ''codex'' then Inr
        \<lparr>tpl_Command = [''codex'', ''exec'', ''--json'', ''--skip-git-repo-check'', ''{{PROMPT}}''],
         tpl_Prompt = presetPrompt,
         tpl_Terminal = \<lparr>tm_TypeField = ''msg.type'', tm_TerminalValue = ''task_complete'',
           tm_TextField = ''msg.last_agent_message'', tm_StatusField = [], tm_SuccessValue = []\<rparr>,
         tpl_Env = Map.empty, tpl_MCPCommand = [], tpl_MCPArgs = [], tpl_MCPEnv = Map.empty\<rparr>
      else Inl (NoPreset name))"

section \<open>DeclaredConfig\<close>

text \<open>One iteration of the loop over the declared wake entries.\<close>

definition add_wake :: "WakeSet \<Rightarrow> WakeEntry \<Rightarrow> wrap_error + WakeSet" where
  "add_wake ws e =
     (if we_Kind e = WakeMention then Inr (ws\<lparr>ws_Mention := True\<rparr>)
      else if we_Kind e = WakeTopic then
        Inr (ws\<lparr>ws_Topics := ws_Topics ws @ [\<lparr>tw_Path = we_Path e, tw_Types = EffectiveTypes e\<rparr>]\<rparr>)
      else if we_Kind e = WakeSchedule then
        (case (if we_TTL e \<noteq> [] then ParseDuration (we_TTL e) else Some 0) of
           None \<Rightarrow> Inl (ScheduleTTL (we_Name e))
         | Some ttl \<Rightarrow> Inr (ws\<lparr>ws_Schedules := ws_Schedules ws @
             [\<lparr>sw_Name = we_Name e, sw_Pattern = we_Pattern e, sw_TTL = ttl\<rparr>]\<rparr>))
      else if we_Kind e = WakeSubject then
        Inr (ws\<lparr>ws_Subjects := ws_Subjects ws @ [\<lparr>sj_Subject = we_Subject e\<rparr>]\<rparr>)
      else Inl (NotRunnable (we_Kind e)))"

fun wake_set_loop :: "WakeSet \<Rightarrow> WakeEntry list \<Rightarrow> wrap_error + WakeSet" where
  "wake_set_loop ws [] = Inr ws"
| "wake_set_loop ws (e # es) =
     (case add_wake ws e of Inl err \<Rightarrow> Inl err | Inr ws' \<Rightarrow> wake_set_loop ws' es)"

definition empty_WakeSet :: WakeSet where
  "empty_WakeSet = \<lparr>ws_Mention = False, ws_Topics = [], ws_Schedules = [], ws_Subjects = []\<rparr>"

definition declared_budget :: "BudgetSpec \<Rightarrow> wrap_error + Budget" where
  "declared_budget bs =
     (let b = zero_Budget\<lparr>b_MaxHops := bs_MaxHops bs\<rparr> in
      case bs_Window bs of
        None \<Rightarrow> Inr b
      | Some w \<Rightarrow>
          if 0 < win_Max w then
            (case ParseDuration (win_Per w) of
               None \<Rightarrow> Inl (WindowPer (win_Per w))
             | Some per \<Rightarrow> Inr (b\<lparr>b_WindowMax := win_Max w, b_WindowPer := per\<rparr>))
          else Inr b)"

definition with_budget :: "Config \<Rightarrow> BudgetSpec option \<Rightarrow> wrap_error + Config" where
  "with_budget base bs =
     (case bs of None \<Rightarrow> Inr base | Some s \<Rightarrow>
      (case declared_budget s of Inl e \<Rightarrow> Inl e | Inr b \<Rightarrow>
        let base1 = base\<lparr>cfg_Budget := b\<rparr> in
        Inr (if b = zero_Budget then base1\<lparr>cfg_Unbudgeted := True\<rparr> else base1)))"

definition instructions_tag :: string where
  "instructions_tag = ''{{INSTRUCTIONS}}''"

definition with_instructions :: "Config \<Rightarrow> Instructions option \<Rightarrow> bool \<Rightarrow> wrap_error + Config" where
  "with_instructions base ins hasClient =
     (case ins of None \<Rightarrow> Inr base | Some i \<Rightarrow>
      if \<not> hasClient then Inl NeedsClient
      else let base1 = base\<lparr>cfg_Instructions :=
                 Some \<lparr>ri_topic = ins_Topic i, ri_artefact = ins_Artefact i\<rparr>\<rparr>;
               p = tpl_Prompt (cfg_Template base1) in
        Inr (if p \<noteq> [] \<and> \<not> Contains p instructions_tag
             then base1\<lparr>cfg_Template := (cfg_Template base1)\<lparr>tpl_Prompt := p @ nl @ nl @ instructions_tag\<rparr>\<rparr>
             else base1))"

text \<open>\<open>hasClient\<close>: the realm client passed in is not nil.\<close>

definition DeclaredConfig ::
  "(string \<Rightarrow> bool) \<Rightarrow> Config \<Rightarrow> Declaration \<Rightarrow> bool \<Rightarrow> wrap_error + Config" where
  "DeclaredConfig ValidName base d hasClient =
     (case Declaration_Validate ValidName d of Some e \<Rightarrow> Inl (BadDeclaration e) | None \<Rightarrow>
      if d_Role d \<noteq> RoleAgent then Inl (NotAgent (d_Role d))
      else let base1 = (if cfg_Persona base = [] then base\<lparr>cfg_Persona := d_Persona d\<rparr> else base) in
      if d_Persona d \<noteq> cfg_Persona base1 then Inl (PersonaMismatch (d_Persona d) (cfg_Persona base1))
      else let base2 = base1\<lparr>cfg_HomeTopic := d_Topic d\<rparr> in
      case wake_set_loop empty_WakeSet (d_Wake d) of Inl e \<Rightarrow> Inl e | Inr ws \<Rightarrow>
      case WakeSet_Validate (Some ws) (cfg_HomeTopic base2) of Some e \<Rightarrow> Inl e | None \<Rightarrow>
      case with_budget (base2\<lparr>cfg_Wakes := Some ws\<rparr>) (d_Budget d) of Inl e \<Rightarrow> Inl e | Inr base3 \<Rightarrow>
        with_instructions base3 (d_Instructions d) hasClient)"

section \<open>Facts of the configuration\<close>

lemma ParseDuration_10m: "ParseDuration ''10m'' = Some 600000000000"
  by (simp add: ParseDuration_def duration_loop.simps duration_component_def after_point_def
      with_unit_def unit_of_def unit_char_def is_digit_def digit_val_def Let_def)

lemma default_engine_budget_eq:
  "default_engine_budget =
     \<lparr>b_MaxHops = defaultMaxHops, b_WindowMax = defaultWindowMax, b_WindowPer = defaultWindowPer\<rparr>"
  using ParseDuration_10m
  by (simp add: default_engine_budget_def DefaultBudget_def defaultMaxHops_def defaultWindowMax_def
      defaultWindowPer_def)

lemma ApplyDefaults_simps [simp]:
  "cfg_Persona (ApplyDefaults c) = cfg_Persona c"
  "cfg_Template (ApplyDefaults c) = cfg_Template c"
  "cfg_Unbudgeted (ApplyDefaults c) = cfg_Unbudgeted c"
  "cfg_Wakes (ApplyDefaults c) = cfg_Wakes c"
  "cfg_HomeTopic (ApplyDefaults c) = cfg_HomeTopic c"
  "cfg_Scratch (ApplyDefaults c) = cfg_Scratch c"
  "cfg_Instructions (ApplyDefaults c) = cfg_Instructions c"
  by (simp_all add: ApplyDefaults_def Let_def)

lemma ApplyDefaults_budget:
  "cfg_Budget (ApplyDefaults c) =
     (if \<not> cfg_Unbudgeted c \<and> cfg_Budget c = zero_Budget then default_engine_budget else cfg_Budget c)"
  by (simp add: ApplyDefaults_def Let_def)

lemma default_not_zero: "default_engine_budget \<noteq> zero_Budget"
  by (simp add: default_engine_budget_eq zero_Budget_def defaultMaxHops_def)

lemma ApplyDefaults_idem: "ApplyDefaults (ApplyDefaults c) = ApplyDefaults c"
  by (simp add: ApplyDefaults_def Let_def default_not_zero defaultRetries_def defaultRunTimeout_def)

lemma WakeSet_ok [checks]:
  "WakeSet_Validate (Some s) home = None \<longleftrightarrow>
     (ws_Mention s \<or> ws_Topics s \<noteq> [] \<or> ws_Schedules s \<noteq> [] \<or> ws_Subjects s \<noteq> []) \<and>
     (ws_Schedules s \<noteq> [] \<or> ws_Subjects s \<noteq> [] \<longrightarrow> home \<noteq> []) \<and>
     (\<forall>t \<in> set (ws_Topics s). set (tw_Types t) \<subseteq> replayableTypes)"
  by (auto simp: WakeSet_Validate_def check_topic_wake_def)

lemma Budget_ok [checks]:
  "Budget_Validate b = None \<longleftrightarrow> 0 \<le> b_MaxHops b \<and> 0 \<le> b_WindowMax b \<and> 0 \<le> b_WindowPer b \<and>
     (0 < b_WindowMax b \<longrightarrow> 0 < b_WindowPer b)"
  by (auto simp: Budget_Validate_def)

section \<open>The declared wake set\<close>

definition topic_wake_of :: "WakeEntry \<Rightarrow> TopicWake" where
  "topic_wake_of e = \<lparr>tw_Path = we_Path e, tw_Types = EffectiveTypes e\<rparr>"

definition ttl_of :: "WakeEntry \<Rightarrow> duration" where
  "ttl_of e = (if we_TTL e = [] then 0 else the (ParseDuration (we_TTL e)))"

definition schedule_of :: "WakeEntry \<Rightarrow> ScheduleWake" where
  "schedule_of e = \<lparr>sw_Name = we_Name e, sw_Pattern = we_Pattern e, sw_TTL = ttl_of e\<rparr>"

definition subject_of :: "WakeEntry \<Rightarrow> SubjectWake" where
  "subject_of e = \<lparr>sj_Subject = we_Subject e\<rparr>"

definition declared_set :: "WakeEntry list \<Rightarrow> WakeSet" where
  "declared_set es = \<lparr>ws_Mention = of_kind WakeMention es \<noteq> [],
     ws_Topics = map topic_wake_of (of_kind WakeTopic es),
     ws_Schedules = map schedule_of (of_kind WakeSchedule es),
     ws_Subjects = map subject_of (of_kind WakeSubject es)\<rparr>"

lemma wake_set_loop_ok:
  "\<forall>e \<in> set es. entry_spec VN e \<Longrightarrow> wake_set_loop ws es = Inr
     \<lparr>ws_Mention = (ws_Mention ws \<or> of_kind WakeMention es \<noteq> []),
      ws_Topics = ws_Topics ws @ map topic_wake_of (of_kind WakeTopic es),
      ws_Schedules = ws_Schedules ws @ map schedule_of (of_kind WakeSchedule es),
      ws_Subjects = ws_Subjects ws @ map subject_of (of_kind WakeSubject es)\<rparr>"
proof (induction es arbitrary: ws)
  case Nil
  then show ?case by simp
next
  case (Cons e es)
  then have "entry_spec VN e" by simp
  then consider (m) "we_Kind e = WakeMention" | (t) "we_Kind e = WakeTopic"
    | (s) "we_Kind e = WakeSchedule" "we_TTL e = [] \<or> (\<exists>d. ParseDuration (we_TTL e) = Some d)"
    | (j) "we_Kind e = WakeSubject"
    by (auto simp: entry_spec_def Let_def)
  then show ?case
    by cases (use Cons in \<open>auto simp: add_wake_def topic_wake_of_def schedule_of_def subject_of_def
      ttl_of_def\<close>)
qed

lemma declared_set_loop:
  "wake_spec VN es \<Longrightarrow> wake_set_loop empty_WakeSet es = Inr (declared_set es)"
  by (auto simp: wake_set_loop_ok [of es VN] wake_spec_def empty_WakeSet_def declared_set_def)

lemma declared_set_nonempty:
  assumes "wake_spec VN es" and "es \<noteq> []"
  shows "ws_Mention (declared_set es) \<or> ws_Topics (declared_set es) \<noteq> [] \<or>
    ws_Schedules (declared_set es) \<noteq> [] \<or> ws_Subjects (declared_set es) \<noteq> []"
proof -
  from assms(2) obtain e es' where es: "es = e # es'" by (cases es) auto
  with assms(1) have "we_Kind e \<in> {WakeMention, WakeTopic, WakeSchedule, WakeSubject}"
    by (auto simp: wake_spec_def entry_spec_def Let_def)
  with es show ?thesis by (auto simp: declared_set_def)
qed

lemma declared_set_empty: "declared_set [] = empty_WakeSet"
  by (simp add: declared_set_def empty_WakeSet_def)

section \<open>What DeclaredConfig accepts\<close>

definition replayable_topics :: "WakeEntry list \<Rightarrow> bool" where
  "replayable_topics es \<longleftrightarrow>
     (\<forall>e \<in> set es. we_Kind e = WakeTopic \<longrightarrow> set (EffectiveTypes e) \<subseteq> replayableTypes)"

lemma declared_topics_ok:
  "(\<forall>t \<in> set (ws_Topics (declared_set es)). set (tw_Types t) \<subseteq> replayableTypes) \<longleftrightarrow> replayable_topics es"
  by (auto simp: declared_set_def of_kind_def topic_wake_of_def replayable_topics_def)

lemma declared_budget_ok:
  assumes "BudgetSpec_validate bs = None"
  obtains b where "declared_budget bs = Inr b" and "Budget_Validate b = None"
    and "b_MaxHops b = bs_MaxHops bs"
proof (cases "\<exists>w. bs_Window bs = Some w \<and> 0 < win_Max w")
  case False
  with that [of "zero_Budget\<lparr>b_MaxHops := bs_MaxHops bs\<rparr>"] assms show ?thesis
    by (auto simp: declared_budget_def budget_ok Budget_ok zero_Budget_def Let_def split: option.splits)
next
  case True
  then obtain w where w: "bs_Window bs = Some w" "0 < win_Max w" by blast
  with assms obtain d where d: "ParseDuration (win_Per w) = Some d" "0 < d"
    by (auto simp: budget_ok)
  show ?thesis
    by (rule that [of "\<lparr>b_MaxHops = bs_MaxHops bs, b_WindowMax = win_Max w, b_WindowPer = d\<rparr>"])
       (use w d assms in \<open>auto simp: declared_budget_def budget_ok Budget_ok zero_Budget_def Let_def\<close>)
qed

lemma with_budget_ok:
  assumes "\<And>b. bs = Some b \<Longrightarrow> BudgetSpec_validate b = None"
  obtains c where "with_budget base bs = Inr c"
    and "c = base\<lparr>cfg_Budget := cfg_Budget c, cfg_Unbudgeted := cfg_Unbudgeted c\<rparr>"
    and "bs \<noteq> None \<Longrightarrow> declared_budget (the bs) = Inr (cfg_Budget c) \<and> Budget_Validate (cfg_Budget c) = None
          \<and> cfg_Unbudgeted c = (cfg_Unbudgeted base \<or> cfg_Budget c = zero_Budget)"
    and "bs = None \<Longrightarrow> c = base"
proof (cases bs)
  case None
  with that [of base] show ?thesis by (simp add: with_budget_def)
next
  case (Some s)
  with assms obtain b where b: "declared_budget s = Inr b" "Budget_Validate b = None"
    using declared_budget_ok by blast
  define c where "c = (if b = zero_Budget then base\<lparr>cfg_Budget := b, cfg_Unbudgeted := True\<rparr>
    else base\<lparr>cfg_Budget := b\<rparr>)"
  have "with_budget base bs = Inr c" using Some b by (simp add: with_budget_def Let_def c_def)
  then show ?thesis
    by (rule that) (use Some b in \<open>auto simp: c_def\<close>)
qed

lemma with_instructions_ok:
  "(\<exists>c. with_instructions base ins hc = Inr c) \<longleftrightarrow> (ins \<noteq> None \<longrightarrow> hc)"
  by (auto simp: with_instructions_def Let_def split: option.split)

lemma with_instructions_frame:
  assumes "with_instructions base ins hc = Inr c"
  shows "cfg_Budget c = cfg_Budget base \<and> cfg_Unbudgeted c = cfg_Unbudgeted base \<and>
    cfg_Wakes c = cfg_Wakes base \<and> cfg_HomeTopic c = cfg_HomeTopic base \<and>
    cfg_Persona c = cfg_Persona base \<and> cfg_Retries c = cfg_Retries base \<and>
    cfg_Scratch c = cfg_Scratch base"
  using assms by (auto simp: with_instructions_def Let_def split: option.splits if_splits)

lemma with_instructions_tag:
  assumes "with_instructions base (Some i) hc = Inr c" and "tpl_Prompt (cfg_Template base) \<noteq> []"
  shows "Contains (tpl_Prompt (cfg_Template c)) instructions_tag"
proof -
  let ?p = "tpl_Prompt (cfg_Template base)"
  have "Contains (?p @ nl @ nl @ instructions_tag) instructions_tag"
    by (simp add: Contains_iff) (metis append.assoc append.right_neutral append_Cons append_Nil)
  with assms show ?thesis by (auto simp: with_instructions_def Let_def split: if_splits)
qed

text \<open>The persona the configuration is bound to: the base's, or the declared one.\<close>

definition bound_persona :: "Config \<Rightarrow> Declaration \<Rightarrow> string" where
  "bound_persona base d = (if cfg_Persona base = [] then d_Persona d else cfg_Persona base)"

lemma DeclaredConfig_accepts:
  "(\<exists>c. DeclaredConfig VN base d hc = Inr c) \<longleftrightarrow>
     Declaration_Validate VN d = None \<and> d_Role d = RoleAgent \<and> d_Persona d = bound_persona base d \<and>
     d_Wake d \<noteq> [] \<and> replayable_topics (d_Wake d) \<and> (d_Instructions d \<noteq> None \<longrightarrow> hc)"
proof (cases "Declaration_Validate VN d = None \<and> d_Role d = RoleAgent \<and> d_Persona d = bound_persona base d")
  case False
  then show ?thesis
    by (auto simp: DeclaredConfig_def bound_persona_def Let_def split: option.splits if_splits)
next
  case True
  then have ok: "Declaration_Validate VN d = None" and role: "d_Role d = RoleAgent"
    and pers: "d_Persona d = bound_persona base d" by auto
  note parts = Declaration_ok_parts [OF ok]
  from parts(7) role have ws: "wake_spec VN (d_Wake d)"
    and bud: "\<And>b. d_Budget d = Some b \<Longrightarrow> BudgetSpec_validate b = None" by auto
  have home: "d_Topic d \<noteq> []" using parts(4) by (simp add: topic_path_ok)
  have set_ok: "WakeSet_Validate (Some (declared_set (d_Wake d))) (d_Topic d) = None \<longleftrightarrow>
      d_Wake d \<noteq> [] \<and> replayable_topics (d_Wake d)"
    using declared_set_nonempty [OF ws] home
    by (cases "d_Wake d = []")
       (auto simp: WakeSet_ok declared_topics_ok declared_set_empty empty_WakeSet_def)
  define base2 where "base2 = (if cfg_Persona base = [] then base\<lparr>cfg_Persona := d_Persona d\<rparr> else base)
    \<lparr>cfg_HomeTopic := d_Topic d, cfg_Wakes := Some (declared_set (d_Wake d))\<rparr>"
  obtain c3 where c3: "with_budget base2 (d_Budget d) = Inr c3"
    using with_budget_ok [OF bud] by blast
  have eq: "DeclaredConfig VN base d hc =
    (case WakeSet_Validate (Some (declared_set (d_Wake d))) (d_Topic d) of Some e \<Rightarrow> Inl e
     | None \<Rightarrow> with_instructions c3 (d_Instructions d) hc)"
    using ok role pers c3 ws
    by (auto simp: DeclaredConfig_def Let_def bound_persona_def declared_set_loop base2_def
        split: option.split)
  show ?thesis
    using True set_ok with_instructions_ok [of c3 "d_Instructions d" hc]
    by (auto simp: eq split: option.splits)
qed

text \<open>What an accepted configuration holds.\<close>

lemma DeclaredConfig_result:
  assumes "DeclaredConfig VN base d hc = Inr c"
  shows "cfg_Persona c = d_Persona d" "cfg_HomeTopic c = d_Topic d"
    "cfg_Wakes c = Some (declared_set (d_Wake d))"
    "WakeSet_Validate (cfg_Wakes c) (cfg_HomeTopic c) = None"
    "d_Budget d = None \<Longrightarrow> cfg_Budget c = cfg_Budget base \<and> cfg_Unbudgeted c = cfg_Unbudgeted base"
    "d_Budget d = Some bs \<Longrightarrow> declared_budget bs = Inr (cfg_Budget c) \<and> Budget_Validate (cfg_Budget c) = None
       \<and> cfg_Unbudgeted c = (cfg_Unbudgeted base \<or> cfg_Budget c = zero_Budget)"
    "cfg_Scratch c = cfg_Scratch base"
proof -
  have acc: "Declaration_Validate VN d = None" "d_Role d = RoleAgent" "d_Persona d = bound_persona base d"
    using assms DeclaredConfig_accepts [of VN base d hc] by auto
  note parts = Declaration_ok_parts [OF acc(1)]
  have ws: "wake_spec VN (d_Wake d)" and bud: "\<And>b. d_Budget d = Some b \<Longrightarrow> BudgetSpec_validate b = None"
    using parts(7) acc(2) by auto
  define base2 where "base2 = (if cfg_Persona base = [] then base\<lparr>cfg_Persona := d_Persona d\<rparr> else base)
    \<lparr>cfg_HomeTopic := d_Topic d, cfg_Wakes := Some (declared_set (d_Wake d))\<rparr>"
  obtain c3 where c3: "with_budget base2 (d_Budget d) = Inr c3"
    and fr: "c3 = base2\<lparr>cfg_Budget := cfg_Budget c3, cfg_Unbudgeted := cfg_Unbudgeted c3\<rparr>"
    and some: "d_Budget d \<noteq> None \<Longrightarrow> declared_budget (the (d_Budget d)) = Inr (cfg_Budget c3) \<and>
       Budget_Validate (cfg_Budget c3) = None \<and>
       cfg_Unbudgeted c3 = (cfg_Unbudgeted base2 \<or> cfg_Budget c3 = zero_Budget)"
    and none: "d_Budget d = None \<Longrightarrow> c3 = base2"
    by (rule with_budget_ok [of "d_Budget d" base2]) (use bud in auto)
  have set: "WakeSet_Validate (Some (declared_set (d_Wake d))) (d_Topic d) = None"
    and wi: "with_instructions c3 (d_Instructions d) hc = Inr c"
    using assms acc c3 ws
    by (auto simp: DeclaredConfig_def Let_def bound_persona_def declared_set_loop base2_def
        split: option.splits if_splits)
  note frame = with_instructions_frame [OF wi]
  have c3f: "cfg_Persona c3 = d_Persona d" "cfg_HomeTopic c3 = d_Topic d"
     "cfg_Wakes c3 = Some (declared_set (d_Wake d))" "cfg_Scratch c3 = cfg_Scratch base"
    by (subst fr, use acc(3) in \<open>simp add: base2_def bound_persona_def split: if_splits\<close>)+
  show "cfg_Persona c = d_Persona d" "cfg_HomeTopic c = d_Topic d"
    "cfg_Wakes c = Some (declared_set (d_Wake d))" "cfg_Scratch c = cfg_Scratch base"
    using frame c3f by auto
  then show "WakeSet_Validate (cfg_Wakes c) (cfg_HomeTopic c) = None" using set by simp
  show "cfg_Budget c = cfg_Budget base \<and> cfg_Unbudgeted c = cfg_Unbudgeted base" if "d_Budget d = None"
    using frame none that by (simp add: base2_def)
  show "declared_budget bs = Inr (cfg_Budget c) \<and> Budget_Validate (cfg_Budget c) = None
       \<and> cfg_Unbudgeted c = (cfg_Unbudgeted base \<or> cfg_Budget c = zero_Budget)" if "d_Budget d = Some bs"
    using frame some that by (simp add: base2_def)
qed

section \<open>Properties\<close>

text \<open>Defaults are filled once and leave the rest alone: applying them twice is applying them
  once; afterwards retries and timeout are set and the zero budget is left only to an engine that
  is explicitly unbudgeted; the budget filled in is the one a declaration of \<open>DefaultBudget\<close>
  gives; a valid budget stays valid.\<close>

theorem ApplyDefaults_stable:
  "ApplyDefaults (ApplyDefaults c) = ApplyDefaults c \<and>
   cfg_Retries (ApplyDefaults c) \<noteq> 0 \<and> cfg_RunTimeout (ApplyDefaults c) \<noteq> 0 \<and>
   \<not> (\<not> cfg_Unbudgeted c \<and> cfg_Budget (ApplyDefaults c) = zero_Budget) \<and>
   declared_budget DefaultBudget = Inr (cfg_Budget (ApplyDefaults (c\<lparr>cfg_Budget := zero_Budget, cfg_Unbudgeted := False\<rparr>))) \<and>
   orelse (Budget_Validate (cfg_Budget c)) (Budget_Validate (cfg_Budget (ApplyDefaults c))) = Budget_Validate (cfg_Budget c) \<and>
   c\<lparr>cfg_Retries := cfg_Retries (ApplyDefaults c), cfg_RunTimeout := cfg_RunTimeout (ApplyDefaults c),
     cfg_Budget := cfg_Budget (ApplyDefaults c)\<rparr> = ApplyDefaults c"
proof (intro conjI)
  show "declared_budget DefaultBudget = Inr (cfg_Budget (ApplyDefaults (c\<lparr>cfg_Budget := zero_Budget, cfg_Unbudgeted := False\<rparr>)))"
    using ParseDuration_10m
    by (simp add: ApplyDefaults_budget declared_budget_def DefaultBudget_def zero_Budget_def
        default_engine_budget_eq defaultMaxHops_def defaultWindowMax_def defaultWindowPer_def)
  show "orelse (Budget_Validate (cfg_Budget c)) (Budget_Validate (cfg_Budget (ApplyDefaults c))) =
      Budget_Validate (cfg_Budget c)"
  proof -
    have "Budget_Validate default_engine_budget = None"
      by (simp add: Budget_ok default_engine_budget_eq defaultMaxHops_def defaultWindowMax_def defaultWindowPer_def)
    then show ?thesis by (simp add: ApplyDefaults_budget orelse_def split: option.split)
  qed
  show "cfg_Retries (ApplyDefaults c) \<noteq> 0" "cfg_RunTimeout (ApplyDefaults c) \<noteq> 0"
    by (simp_all add: ApplyDefaults_def Let_def defaultRetries_def defaultRunTimeout_def)
  show "c\<lparr>cfg_Retries := cfg_Retries (ApplyDefaults c), cfg_RunTimeout := cfg_RunTimeout (ApplyDefaults c),
     cfg_Budget := cfg_Budget (ApplyDefaults c)\<rparr> = ApplyDefaults c"
    by (cases c) (simp add: ApplyDefaults_def Let_def)
qed (use default_not_zero in \<open>simp_all add: ApplyDefaults_idem ApplyDefaults_budget\<close>)

text \<open>C27. \<open>DeclaredConfig\<close> configures an engine for exactly the valid declarations of an agent
  that it can run: one bound to the base's persona, with a wake set whose declared topics can all
  be replayed, and with a realm client when it names an instruction source.\<close>

theorem DeclaredConfig_exact:
  "(\<exists>c. DeclaredConfig VN base d hc = Inr c) \<longleftrightarrow>
     Declaration_Validate VN d = None \<and> d_Role d = RoleAgent \<and> d_Persona d = bound_persona base d \<and>
     d_Wake d \<noteq> [] \<and> replayable_topics (d_Wake d) \<and> (d_Instructions d = None \<or> hc)"
  using DeclaredConfig_accepts [of VN base d hc] by blast

lemma with_budget_template: "with_budget base bs = Inr c \<Longrightarrow> cfg_Template c = cfg_Template base"
  by (auto simp: with_budget_def Let_def split: option.splits sum.splits if_splits)

lemma with_instructions_template:
  assumes "with_instructions base ins hc = Inr c" and "Template_Validate (cfg_Template base) = None"
  shows "Template_Validate (cfg_Template c) = None"
  using assms by (auto simp: with_instructions_def Let_def Template_Validate_def split: option.splits if_splits)

lemma DeclaredConfig_template:
  assumes "DeclaredConfig VN base d hc = Inr c" and "Template_Validate (cfg_Template base) = None"
  shows "Template_Validate (cfg_Template c) = None"
proof -
  obtain base2 base3 where "with_budget base2 (d_Budget d) = Inr base3" "cfg_Template base2 = cfg_Template base"
    "with_instructions base3 (d_Instructions d) hc = Inr c"
    using assms(1) by (auto simp: DeclaredConfig_def Let_def split: option.splits if_splits sum.splits)
  with assms(2) show ?thesis using with_budget_template with_instructions_template by metis
qed

end
