(* ===== verification/Wrap_Wake.thy ===== *)
theory Wrap_Wake
  imports Wrap_Config
begin

text \<open>
  \<open>handleWake\<close> (src/wrap/wake.go): one trigger worked from the self-skip to the outcome.

  What the handler asks of the world (the \<open>Realm\<close>, the \<open>Invoker\<close>, the instruction source, the
  clock, the timer against the context) is an environment of functions.  Each takes the trace
  of everything that has happened so far, so an environment may answer the same question
  differently at every call; each call is recorded in the trace with its answer.  The facts
  below quantify over all environments.  Errors of the world are their texts.
\<close>

section \<open>Wakes, calls and environments\<close>

definition KindMention :: string where "KindMention = ''mention''"
definition KindTopic :: string where "KindTopic = ''topic''"
definition KindSchedule :: string where "KindSchedule = ''schedule''"
definition KindSubject :: string where "KindSubject = ''subject''"

record Wake =
  w_Topic :: string
  w_OpID :: string
  w_Author :: string
  w_Kind :: string
  w_Body :: string

datatype call =
    CRead string "string + Turn list"
  | CNow time
  | CMaterialise recordInstructions "string + string"
  | CInvoke RunSpec HarnessResult
  | CPost string string "string list" string "string + string"
  | CDelay "string option"

type_synonym trace = "call list"

text \<open>
  \<open>env_Delay\<close> is the \<open>select\<close> of the retry delay: \<open>None\<close> when the timer fires, the context's
  error when it is done first.  \<open>env_order\<close> is the order in which \<open>fill\<close> meets the variables.
\<close>

record env =
  env_Read :: "trace \<Rightarrow> string \<Rightarrow> string + Turn list"
  env_Now :: "trace \<Rightarrow> time"
  env_Materialise :: "trace \<Rightarrow> recordInstructions \<Rightarrow> string + string"
  env_Invoke :: "trace \<Rightarrow> RunSpec \<Rightarrow> HarnessResult"
  env_Post :: "trace \<Rightarrow> string \<Rightarrow> string \<Rightarrow> string list \<Rightarrow> string \<Rightarrow> string + string"
  env_Delay :: "trace \<Rightarrow> string option"
  env_order :: "trace \<Rightarrow> (string \<times> string) list \<Rightarrow> (string \<times> string) list"

datatype wake_outcome = Answered | SelfReported | AlreadyAnswered | SelfSkipped | Refused

datatype wake_failure =
    ReadFailed string string | MaterialiseFailed string | PostReplyFailed string
  | PostReportFailed string | ContextDone string

type_synonym wake_result = "(wake_failure + wake_outcome) \<times> trace"

section \<open>The attempts\<close>

definition self_report_body :: "string \<Rightarrow> int \<Rightarrow> string" where
  "self_report_body detail retries =
     ''I was asked and could not answer: '' @ detail @ '' ('' @ decimal retries @ '' attempts).''"

definition self_report :: "env \<Rightarrow> Config \<Rightarrow> Wake \<Rightarrow> string \<Rightarrow> string \<Rightarrow> trace \<Rightarrow> wake_result" where
  "self_report E cfg w wakeID lastDetail tr =
     (let taps = (if w_Author w \<noteq> [] then [w_Author w] else []);
          body = self_report_body lastDetail (cfg_Retries cfg);
          r = env_Post E tr (w_Topic w) body taps wakeID;
          tr1 = tr @ [CPost (w_Topic w) body taps wakeID r] in
      case r of Inl e \<Rightarrow> (Inl (PostReportFailed e), tr1) | Inr _ \<Rightarrow> (Inr SelfReported, tr1))"

definition run_spec :: "Config \<Rightarrow> Wake \<Rightarrow> string \<Rightarrow> string \<Rightarrow> nat \<Rightarrow> RunSpec" where
  "run_spec cfg w wakeID prompt attempt =
     \<lparr>rs_Template = cfg_Template cfg, rs_Prompt = prompt, rs_Topic = w_Topic w,
      rs_RunDir = path_Join [cfg_Scratch cfg, wakeID @ ''-a'' @ decimal (int attempt)],
      rs_Timeout = cfg_RunTimeout cfg\<rparr>"

text \<open>The loop: the first number is \<open>Retries + 1 - attempt\<close>, the second \<open>attempt\<close>.\<close>

fun attempts :: "env \<Rightarrow> Config \<Rightarrow> Wake \<Rightarrow> string \<Rightarrow> string \<Rightarrow> nat \<Rightarrow> nat \<Rightarrow> Turn list \<Rightarrow> string
    \<Rightarrow> trace \<Rightarrow> wake_result" where
  "attempts E cfg w wakeID prompt 0 attempt before lastDetail tr =
     self_report E cfg w wakeID lastDetail tr"
| "attempts E cfg w wakeID prompt (Suc left) attempt before lastDetail tr =
     (let spec = run_spec cfg w wakeID prompt attempt;
          res = env_Invoke E tr spec;
          tr1 = tr @ [CInvoke spec res];
          rd = env_Read E tr1 (w_Topic w);
          tr2 = tr1 @ [CRead (w_Topic w) rd] in
      case rd of
        Inl e \<Rightarrow> (Inl (ReadFailed (w_Topic w) e), tr2)
      | Inr after \<Rightarrow>
          if PostedDuringRun before after (cfg_Persona cfg) \<noteq> None then (Inr Answered, tr2)
          else if hr_OK res then
            (let p = env_Post E tr2 (w_Topic w) (hr_Text res) [] wakeID;
                 tr3 = tr2 @ [CPost (w_Topic w) (hr_Text res) [] wakeID p] in
             case p of Inl e \<Rightarrow> (Inl (PostReplyFailed e), tr3) | Inr _ \<Rightarrow> (Inr Answered, tr3))
          else if left = 0 then attempts E cfg w wakeID prompt 0 (attempt + 1) after (hr_Detail res) tr2
          else (let dl = env_Delay E tr2; tr3 = tr2 @ [CDelay dl] in
                case dl of
                  Some e \<Rightarrow> (Inl (ContextDone e), tr3)
                | None \<Rightarrow> attempts E cfg w wakeID prompt left (attempt + 1) after (hr_Detail res) tr3))"

section \<open>handleWake\<close>

definition trigger_of :: "Turn list \<Rightarrow> Wake \<Rightarrow> Turn" where
  "trigger_of before w =
     (case List.find (\<lambda>t. t_OpID t = w_OpID w) before of
        Some t \<Rightarrow> t
      | None \<Rightarrow> zero_Turn\<lparr>t_OpID := w_OpID w, t_Author := w_Author w\<rparr>)"

definition prompt_vars :: "Config \<Rightarrow> Wake \<Rightarrow> Turn list \<Rightarrow> string \<Rightarrow> (string \<times> string) list" where
  "prompt_vars cfg w before instructions =
     (let kind = (if w_Kind w = [] then KindMention else w_Kind w);
          anchor = AnchorBody before (w_OpID w);
          body = (if anchor = [] then w_Body w else anchor) in
      [(''PERSONA'', cfg_Persona cfg), (''TOPIC'', w_Topic w), (''AUTHOR'', w_Author w),
       (''OP_ID'', w_OpID w), (''BODY'', body), (''KIND'', kind), (''INSTRUCTIONS'', instructions)])"

definition is_self :: "Config \<Rightarrow> Wake \<Rightarrow> bool" where
  "is_self cfg w \<longleftrightarrow> w_Author w \<noteq> [] \<and> w_Author w = cfg_Persona cfg"

text \<open>The gate: the budget's verdict on the snapshot, and the trace after it.\<close>

definition gate :: "(string \<Rightarrow> string \<Rightarrow> string) \<Rightarrow> env \<Rightarrow> Config \<Rightarrow> Wake \<Rightarrow> Turn list \<Rightarrow> trace
    \<Rightarrow> refusal option \<times> trace" where
  "gate uuid5 E cfg w before tr =
     (if cfg_Unbudgeted cfg then (None, tr)
      else let now = env_Now E tr in
        (BudgetDecision uuid5 (cfg_Budget cfg) before (trigger_of before w) (cfg_Persona cfg) now,
         tr @ [CNow now]))"

definition materialise :: "env \<Rightarrow> Config \<Rightarrow> trace \<Rightarrow> (string + string) \<times> trace" where
  "materialise E cfg tr =
     (case cfg_Instructions cfg of
        None \<Rightarrow> (Inr [], tr)
      | Some src \<Rightarrow> let m = env_Materialise E tr src in (m, tr @ [CMaterialise src m]))"

definition handleWake ::
  "(string \<Rightarrow> string \<Rightarrow> string) \<Rightarrow> env \<Rightarrow> Config \<Rightarrow> Wake \<Rightarrow> trace \<Rightarrow> wake_result" where
  "handleWake uuid5 E cfg w tr =
     (if is_self cfg w then (Inr SelfSkipped, tr)
      else
        let wakeID = WakeOpID uuid5 (w_OpID w) (cfg_Persona cfg);
            rd = env_Read E tr (w_Topic w);
            tr1 = tr @ [CRead (w_Topic w) rd] in
        case rd of
          Inl e \<Rightarrow> (Inl (ReadFailed (w_Topic w) e), tr1)
        | Inr before \<Rightarrow>
            if ContainsOp before wakeID then (Inr AlreadyAnswered, tr1)
            else
              let (verdict, tr2) = gate uuid5 E cfg w before tr1 in
              if verdict \<noteq> None then (Inr Refused, tr2)
              else
                let (m, tr3) = materialise E cfg tr2 in
                case m of
                  Inl e \<Rightarrow> (Inl (MaterialiseFailed e), tr3)
                | Inr instructions \<Rightarrow>
                    let vars = prompt_vars cfg w before instructions;
                        prompt = fill (tpl_Prompt (cfg_Template cfg)) (env_order E tr3 vars) in
                    attempts E cfg w wakeID prompt (nat (cfg_Retries cfg)) 1 before [] tr3)"

section \<open>Projections of a trace\<close>

type_synonym post = "string \<times> string \<times> string list \<times> string \<times> (string + string)"

fun posts :: "trace \<Rightarrow> post list" where
  "posts [] = []"
| "posts (CPost t b m i r # tr) = (t, b, m, i, r) # posts tr"
| "posts (_ # tr) = posts tr"

fun runs :: "trace \<Rightarrow> (RunSpec \<times> HarnessResult) list" where
  "runs [] = []"
| "runs (CInvoke s r # tr) = (s, r) # runs tr"
| "runs (_ # tr) = runs tr"

text \<open>The snapshots: the views of the reads that succeeded.\<close>

fun views :: "trace \<Rightarrow> Turn list list" where
  "views [] = []"
| "views (CRead _ (Inr v) # tr) = v # views tr"
| "views (_ # tr) = views tr"

fun clocks :: "trace \<Rightarrow> time list" where
  "clocks [] = []"
| "clocks (CNow t # tr) = t # clocks tr"
| "clocks (_ # tr) = clocks tr"

lemma posts_append [simp, trace_simps]: "posts (a @ b) = posts a @ posts b"
  by (induction a rule: posts.induct) auto

lemma runs_append [simp, trace_simps]: "runs (a @ b) = runs a @ runs b"
  by (induction a rule: runs.induct) auto

lemma views_append [simp, trace_simps]: "views (a @ b) = views a @ views b"
  by (induction a rule: views.induct) auto

lemma clocks_append [simp, trace_simps]: "clocks (a @ b) = clocks a @ clocks b"
  by (induction a rule: clocks.induct) auto

definition asker :: "Wake \<Rightarrow> string list" where
  "asker w = (if w_Author w \<noteq> [] then [w_Author w] else [])"

section \<open>What the attempts do\<close>

text \<open>
  The contract of the loop, over the calls \<open>ext\<close> it adds: at most one post, under the wake's
  id; an attempt is the last one as soon as it concludes; how each result comes about.
\<close>

definition failed_run :: "RunSpec \<times> HarnessResult \<Rightarrow> bool" where
  "failed_run x \<longleftrightarrow> \<not> hr_OK (snd x)"

definition self_reported :: "Config \<Rightarrow> Wake \<Rightarrow> string \<Rightarrow> nat \<Rightarrow> string \<Rightarrow> trace \<Rightarrow> bool" where
  "self_reported cfg w wakeID left detail ext \<longleftrightarrow>
     length (runs ext) = left \<and> (\<forall>x \<in> set (runs ext). failed_run x) \<and>
     (\<exists>op. posts ext = [(w_Topic w,
        self_report_body (last (detail # map (hr_Detail \<circ> snd) (runs ext))) (cfg_Retries cfg),
        asker w, wakeID, Inr op)])"

definition replied :: "Wake \<Rightarrow> string \<Rightarrow> trace \<Rightarrow> bool" where
  "replied w wakeID ext \<longleftrightarrow> runs ext \<noteq> [] \<and> hr_OK (snd (last (runs ext))) \<and>
     (\<exists>op. posts ext = [(w_Topic w, hr_Text (snd (last (runs ext))), [], wakeID, Inr op)])"

definition self_posted :: "Config \<Rightarrow> Turn list list \<Rightarrow> trace \<Rightarrow> bool" where
  "self_posted cfg vs ext \<longleftrightarrow> runs ext \<noteq> [] \<and> posts ext = [] \<and> 2 \<le> length vs \<and>
     PostedDuringRun (vs ! (length vs - 2)) (last vs) (cfg_Persona cfg) \<noteq> None"

definition attempts_contract ::
  "Config \<Rightarrow> Wake \<Rightarrow> string \<Rightarrow> nat \<Rightarrow> Turn list \<Rightarrow> string \<Rightarrow> wake_failure + wake_outcome \<Rightarrow> trace \<Rightarrow> bool" where
  "attempts_contract cfg w wakeID left before detail r ext \<longleftrightarrow>
     (posts ext = [] \<or> (\<exists>b m q. posts ext = [(w_Topic w, b, m, wakeID, q)] \<and> m \<in> {[], asker w})) \<and>
     length (runs ext) \<le> left \<and>
     (\<forall>x \<in> set (butlast (runs ext)). failed_run x) \<and>
     (case r of
        Inl e \<Rightarrow> (\<forall>(t, b, m, i, q) \<in> set (posts ext). isl q)
      | Inr Answered \<Rightarrow> replied w wakeID ext \<or> self_posted cfg (before # views ext) ext
      | Inr SelfReported \<Rightarrow> self_reported cfg w wakeID left detail ext
      | Inr _ \<Rightarrow> False)"

lemma self_report_contract:
  "\<exists>r ext. self_report E cfg w wakeID detail tr = (r, tr @ ext) \<and>
     attempts_contract cfg w wakeID 0 before detail r ext"
  by (auto simp: self_report_def Let_def attempts_contract_def self_reported_def asker_def
      split: sum.split)

lemma nth_shift: "2 \<le> length vs \<Longrightarrow> (v # vs) ! (length (v # vs) - 2) = vs ! (length vs - 2)"
  by (cases vs) (auto simp: nth_Cons')

text \<open>One failed attempt in front of the rest of the loop.\<close>

lemma attempts_contract_step:
  assumes "attempts_contract cfg w wakeID left after (hr_Detail res) r ext"
    and "\<not> hr_OK res" and "runs pre = [(spec, res)]" and "views pre = [after]" and "posts pre = []"
  shows "attempts_contract cfg w wakeID (Suc left) before detail r (pre @ ext)"
proof -
  have but: "\<forall>x \<in> set (butlast ((spec, res) # runs ext)). failed_run x"
    if "\<forall>x \<in> set (butlast (runs ext)). failed_run x"
    using that assms(2) by (simp add: failed_run_def)
  have self: "self_posted cfg (before # views (pre @ ext)) (pre @ ext)"
    if "self_posted cfg (after # views ext) ext"
    using that assms(3-5) nth_shift [of "after # views ext" before]
    by (auto simp: self_posted_def)
  have rep: "replied w wakeID (pre @ ext)" if "replied w wakeID ext"
    using that assms(3-5) by (auto simp: replied_def)
  have srep: "self_reported cfg w wakeID (Suc left) detail (pre @ ext)"
    if "self_reported cfg w wakeID left (hr_Detail res) ext"
    using that assms(2-5) by (auto simp: self_reported_def failed_run_def)
  show ?thesis
    using assms(1) but self rep srep assms(3-5) unfolding attempts_contract_def
    by (auto split: sum.splits wake_outcome.splits)
qed

lemma attempts_ok:
  "\<exists>r ext. attempts E cfg w wakeID prompt left k before detail tr = (r, tr @ ext) \<and>
     attempts_contract cfg w wakeID left before detail r ext"
proof (induction left arbitrary: k before detail tr)
  case 0
  then show ?case using self_report_contract by simp
next
  case (Suc left)
  define spec where "spec = run_spec cfg w wakeID prompt k"
  define res where "res = env_Invoke E tr spec"
  define rd where "rd = env_Read E (tr @ [CInvoke spec res]) (w_Topic w)"
  define pre where "pre = [CInvoke spec res, CRead (w_Topic w) rd]"
  note unf = spec_def [symmetric] res_def [symmetric] rd_def [symmetric] Let_def
  show ?case
  proof (cases rd)
    case (Inl e)
    then have "attempts E cfg w wakeID prompt (Suc left) k before detail tr
        = (Inl (ReadFailed (w_Topic w) e), tr @ pre)"
      by (simp add: unf pre_def)
    moreover have "attempts_contract cfg w wakeID (Suc left) before detail
        (Inl (ReadFailed (w_Topic w) e)) pre"
      by (simp add: attempts_contract_def pre_def)
    ultimately show ?thesis by blast
  next
    case (Inr after)
    then have pre: "runs pre = [(spec, res)]" "views pre = [after]" "posts pre = []"
      by (simp_all add: pre_def)
    consider (self) "PostedDuringRun before after (cfg_Persona cfg) \<noteq> None"
      | (ok) "PostedDuringRun before after (cfg_Persona cfg) = None" "hr_OK res"
      | (last) "PostedDuringRun before after (cfg_Persona cfg) = None" "\<not> hr_OK res" "left = 0"
      | (more) "PostedDuringRun before after (cfg_Persona cfg) = None" "\<not> hr_OK res" "left \<noteq> 0"
      by blast
    then show ?thesis
    proof cases
      case self
      then have "attempts E cfg w wakeID prompt (Suc left) k before detail tr = (Inr Answered, tr @ pre)"
        using Inr by (simp add: unf pre_def)
      moreover have "attempts_contract cfg w wakeID (Suc left) before detail (Inr Answered) pre"
        using self pre by (simp add: attempts_contract_def self_posted_def)
      ultimately show ?thesis by blast
    next
      case ok
      define p where "p = env_Post E (tr @ pre) (w_Topic w) (hr_Text res) [] wakeID"
      have "attempts E cfg w wakeID prompt (Suc left) k before detail tr =
          (case p of Inl e \<Rightarrow> Inl (PostReplyFailed e) | Inr _ \<Rightarrow> Inr Answered,
           tr @ pre @ [CPost (w_Topic w) (hr_Text res) [] wakeID p])"
        using ok Inr by (simp add: unf pre_def p_def split: sum.split)
      moreover have "attempts_contract cfg w wakeID (Suc left) before detail
          (case p of Inl e \<Rightarrow> Inl (PostReplyFailed e) | Inr _ \<Rightarrow> Inr Answered)
          (pre @ [CPost (w_Topic w) (hr_Text res) [] wakeID p])"
        using ok pre by (auto simp: attempts_contract_def replied_def split: sum.split)
      ultimately show ?thesis by blast
    next
      case last
      obtain r ext where rec: "attempts E cfg w wakeID prompt 0 (k + 1) after (hr_Detail res) (tr @ pre)
          = (r, (tr @ pre) @ ext)" "attempts_contract cfg w wakeID 0 after (hr_Detail res) r ext"
        using self_report_contract [of E cfg w wakeID "hr_Detail res" "tr @ pre" after] by auto
      have "attempts E cfg w wakeID prompt (Suc left) k before detail tr = (r, tr @ pre @ ext)"
        using last Inr rec(1) by (simp add: unf pre_def)
      with attempts_contract_step [OF rec(2) last(2) pre] last(3) show ?thesis by blast
    next
      case more
      define dl where "dl = env_Delay E (tr @ pre)"
      let ?pre = "pre @ [CDelay dl]"
      show ?thesis
      proof (cases dl)
        case None
        obtain r ext where rec: "attempts E cfg w wakeID prompt left (k + 1) after (hr_Detail res) (tr @ ?pre)
            = (r, (tr @ ?pre) @ ext)" "attempts_contract cfg w wakeID left after (hr_Detail res) r ext"
          using Suc.IH by blast
        have "attempts E cfg w wakeID prompt (Suc left) k before detail tr = (r, tr @ ?pre @ ext)"
          using more Inr rec(1) None dl_def by (simp add: unf pre_def)
        with attempts_contract_step [OF rec(2) more(2), of ?pre spec before detail] pre show ?thesis
          by auto
      next
        case (Some e)
        have "attempts E cfg w wakeID prompt (Suc left) k before detail tr =
            (Inl (ContextDone e), tr @ ?pre)"
          using more Inr Some dl_def by (simp add: unf pre_def)
        moreover have "attempts_contract cfg w wakeID (Suc left) before detail
            (Inl (ContextDone e)) ?pre"
          using pre by (simp add: attempts_contract_def)
        ultimately show ?thesis by blast
      qed
    qed
  qed
qed

section \<open>What one wake does\<close>

text \<open>The stages of a wake that reaches the attempts, and the ways to stop before.\<close>

definition admits :: "(string \<Rightarrow> string \<Rightarrow> string) \<Rightarrow> Config \<Rightarrow> Wake \<Rightarrow> Turn list \<Rightarrow> time \<Rightarrow> bool" where
  "admits uuid5 cfg w before now \<longleftrightarrow>
     BudgetDecision uuid5 (cfg_Budget cfg) before (trigger_of before w) (cfg_Persona cfg) now = None"

definition wake_id :: "(string \<Rightarrow> string \<Rightarrow> string) \<Rightarrow> Config \<Rightarrow> Wake \<Rightarrow> string" where
  "wake_id uuid5 cfg w = WakeOpID uuid5 (w_OpID w) (cfg_Persona cfg)"

text \<open>The calls before the first attempt, for the snapshot \<open>before\<close>.\<close>

definition admission ::
  "(string \<Rightarrow> string \<Rightarrow> string) \<Rightarrow> Config \<Rightarrow> Wake \<Rightarrow> Turn list \<Rightarrow> trace \<Rightarrow> bool" where
  "admission uuid5 cfg w before pre \<longleftrightarrow>
     \<not> is_self cfg w \<and> \<not> ContainsOp before (wake_id uuid5 cfg w) \<and>
     (\<exists>clock ins. pre = CRead (w_Topic w) (Inr before) # clock @ ins \<and>
        (if cfg_Unbudgeted cfg then clock = []
         else \<exists>now. clock = [CNow now] \<and> admits uuid5 cfg w before now) \<and>
        (case cfg_Instructions cfg of None \<Rightarrow> ins = []
         | Some src \<Rightarrow> \<exists>doc. ins = [CMaterialise src (Inr doc)]))"

definition stopped ::
  "(string \<Rightarrow> string \<Rightarrow> string) \<Rightarrow> Config \<Rightarrow> Wake \<Rightarrow> wake_failure + wake_outcome \<Rightarrow> trace \<Rightarrow> bool" where
  "stopped uuid5 cfg w r ext \<longleftrightarrow>
     (case r of
        Inr SelfSkipped \<Rightarrow> is_self cfg w \<and> ext = []
      | Inr AlreadyAnswered \<Rightarrow> \<not> is_self cfg w \<and>
          (\<exists>v. ext = [CRead (w_Topic w) (Inr v)] \<and> ContainsOp v (wake_id uuid5 cfg w))
      | Inr Refused \<Rightarrow> \<not> is_self cfg w \<and> \<not> cfg_Unbudgeted cfg \<and>
          (\<exists>v now. ext = [CRead (w_Topic w) (Inr v), CNow now] \<and>
             \<not> ContainsOp v (wake_id uuid5 cfg w) \<and> \<not> admits uuid5 cfg w v now)
      | Inl (ReadFailed t e) \<Rightarrow> \<not> is_self cfg w \<and> t = w_Topic w \<and> ext = [CRead (w_Topic w) (Inl e)]
      | Inl (MaterialiseFailed e) \<Rightarrow> \<not> is_self cfg w \<and> cfg_Instructions cfg \<noteq> None \<and> posts ext = [] \<and>
          runs ext = [] \<and> last ext = CMaterialise (the (cfg_Instructions cfg)) (Inl e)
      | _ \<Rightarrow> False)"

lemma admission_pure: "admission uuid5 cfg w before pre \<Longrightarrow> posts pre = [] \<and> runs pre = [] \<and> views pre = [before]"
  by (auto simp: admission_def split: if_splits option.splits)

lemma stopped_pure: "stopped uuid5 cfg w r ext \<Longrightarrow> posts ext = [] \<and> runs ext = []"
  by (auto simp: stopped_def split: sum.splits wake_outcome.splits wake_failure.splits)

text \<open>Every wake either stops before the attempts or is admitted and then attempted.\<close>

lemma handleWake_stages:
  obtains (stop) r ext where "handleWake uuid5 E cfg w tr = (r, tr @ ext)" "stopped uuid5 cfg w r ext"
  | (attempt) r before pre ext where "handleWake uuid5 E cfg w tr = (r, tr @ pre @ ext)"
      "env_Read E tr (w_Topic w) = Inr before"
      "admission uuid5 cfg w before pre"
      "attempts_contract cfg w (wake_id uuid5 cfg w) (nat (cfg_Retries cfg)) before [] r ext"
proof (cases "is_self cfg w")
  case True
  then show thesis by (intro stop [of "Inr SelfSkipped" "[]"]) (simp_all add: handleWake_def stopped_def)
next
  case ns: False
  define rd where "rd = env_Read E tr (w_Topic w)"
  note unf = handleWake_def Let_def wake_id_def [symmetric] rd_def [symmetric]
  show thesis
  proof (cases rd)
    case (Inl e)
    show thesis
      by (rule stop [of "Inl (ReadFailed (w_Topic w) e)" "[CRead (w_Topic w) (Inl e)]"])
         (use ns Inl in \<open>simp_all add: unf stopped_def\<close>)
  next
    case (Inr before)
    let ?tr1 = "tr @ [CRead (w_Topic w) (Inr before)]"
    show thesis
    proof (cases "ContainsOp before (wake_id uuid5 cfg w)")
      case True
      show thesis
        by (rule stop [of "Inr AlreadyAnswered" "[CRead (w_Topic w) (Inr before)]"])
           (use ns Inr True in \<open>simp_all add: unf stopped_def\<close>)
    next
      case nc: False
      define now where "now = env_Now E ?tr1"
      define clock where "clock = (if cfg_Unbudgeted cfg then [] else [CNow now])"
      have g: "gate uuid5 E cfg w before ?tr1 =
          (if cfg_Unbudgeted cfg \<or> admits uuid5 cfg w before now then None
           else BudgetDecision uuid5 (cfg_Budget cfg) before (trigger_of before w) (cfg_Persona cfg) now,
           ?tr1 @ clock)"
        by (auto simp: gate_def clock_def now_def admits_def Let_def)
      show thesis
      proof (cases "cfg_Unbudgeted cfg \<or> admits uuid5 cfg w before now")
        case False
        show thesis
          by (rule stop [of "Inr Refused" "[CRead (w_Topic w) (Inr before), CNow now]"])
             (use ns Inr nc g False in \<open>auto simp: unf stopped_def clock_def admits_def\<close>)
      next
        case adm: True
        define m where "m = materialise E cfg (?tr1 @ clock)"
        have mt: "\<exists>ins. snd m = ?tr1 @ clock @ ins \<and>
            (case cfg_Instructions cfg of None \<Rightarrow> ins = [] \<and> fst m = Inr []
             | Some src \<Rightarrow> ins = [CMaterialise src (fst m)])"
          by (auto simp: m_def materialise_def Let_def split: option.split)
        then obtain ins where ins: "snd m = ?tr1 @ clock @ ins"
          "case cfg_Instructions cfg of None \<Rightarrow> ins = [] \<and> fst m = Inr []
             | Some src \<Rightarrow> ins = [CMaterialise src (fst m)]" by blast
        let ?pre = "CRead (w_Topic w) (Inr before) # clock @ ins"
        show thesis
        proof (cases "fst m")
          case (Inl e)
          show thesis
            by (rule stop [of "Inl (MaterialiseFailed e)" ?pre])
               (use ns Inr nc g adm ins Inl m_def in \<open>auto simp: unf stopped_def clock_def prod_eq_iff
                 split: option.splits prod.split\<close>)
        next
          case (Inr doc)
          define prompt where "prompt = fill (tpl_Prompt (cfg_Template cfg))
            (env_order E (snd m) (prompt_vars cfg w before doc))"
          obtain r ext where att: "attempts E cfg w (wake_id uuid5 cfg w) prompt (nat (cfg_Retries cfg)) 1
              before [] (tr @ ?pre) = (r, (tr @ ?pre) @ ext)"
            "attempts_contract cfg w (wake_id uuid5 cfg w) (nat (cfg_Retries cfg)) before [] r ext"
            using attempts_ok by blast
          have mm: "materialise E cfg (?tr1 @ clock) = (Inr doc, tr @ ?pre)"
            using Inr ins(1) m_def by (simp add: prod_eq_iff)
          have "handleWake uuid5 E cfg w tr = (r, tr @ ?pre @ ext)"
            using ns nc g adm att(1) mm \<open>rd = Inr before\<close> ins(1)
            by (simp add: unf prompt_def)
          moreover have "env_Read E tr (w_Topic w) = Inr before" using \<open>rd = Inr before\<close> rd_def by simp
          moreover have "admission uuid5 cfg w before ?pre"
            unfolding admission_def using ns nc adm ins(2) Inr
            by (intro conjI exI [of _ clock] exI [of _ ins]) (auto simp: clock_def split: option.splits)
          ultimately show thesis using att(2) by (rule attempt)
        qed
      qed
    qed
  qed
qed

lemma asker_not_self: "\<not> is_self cfg w \<Longrightarrow> cfg_Persona cfg \<notin> set (asker w)"
  by (auto simp: is_self_def asker_def)

lemma attempts_contract_posts:
  assumes "attempts_contract cfg w wakeID left before detail r ext"
  shows "length (posts ext) \<le> 1" "length (runs ext) \<le> left"
    "list_all (\<lambda>(t, b, m, i, q). t = w_Topic w \<and> i = wakeID \<and> m \<in> {[], asker w}) (posts ext)"
  using assms by (auto simp: attempts_contract_def)

text \<open>C1. One wake has one outcome slot: whatever the realm, the harness and the clock do, a
  wake makes at most one post, on its own topic, under its deterministic id, tapping at most
  the asker and never the wrapped persona; and it runs the harness at most \<open>Retries\<close> times.\<close>

theorem handleWake_one_slot:
  "\<exists>r ext. handleWake uuid5 E cfg w tr = (r, tr @ ext) \<and>
     length (posts ext) \<le> 1 \<and> length (runs ext) \<le> nat (cfg_Retries cfg) \<and>
     list_all (\<lambda>(t, b, m, i, q). t = w_Topic w \<and> i = WakeOpID uuid5 (w_OpID w) (cfg_Persona cfg) \<and>
       m \<in> {[], [w_Author w]} \<and> cfg_Persona cfg \<notin> set m) (posts ext)"
proof (cases rule: handleWake_stages [of uuid5 E cfg w tr])
  case (stop r ext)
  with stopped_pure [OF stop(2)] show ?thesis by auto
next
  case (attempt r before pre ext)
  note pure = admission_pure [OF attempt(3)] and c = attempts_contract_posts [OF attempt(4)]
  have "\<not> is_self cfg w" using attempt(3) by (simp add: admission_def)
  then have "cfg_Persona cfg \<notin> set (asker w)" by (rule asker_not_self)
  moreover have "asker w \<in> {[], [w_Author w]}" by (simp add: asker_def)
  ultimately have "list_all (\<lambda>(t, b, m, i, q). t = w_Topic w \<and>
      i = WakeOpID uuid5 (w_OpID w) (cfg_Persona cfg) \<and> m \<in> {[], [w_Author w]} \<and>
      cfg_Persona cfg \<notin> set m) (posts ext)"
    using c(3) by (auto simp: list_all_iff wake_id_def)
  with attempt(1) pure c(1,2) show ?thesis by (intro exI [of _ r] exI [of _ "pre @ ext"]) simp
qed

text \<open>C31. The outcome table: what each result of a wake says about the calls made.  A skip, a
  duplicate and a refusal post nothing and run nothing; a reply is the text of the last run,
  which concluded; a self-report follows \<open>Retries\<close> runs that all failed and names the detail of
  the last; an error result leaves no acknowledged post.\<close>

theorem handleWake_outcomes:
  "\<exists>r ext. handleWake uuid5 E cfg w tr = (r, tr @ ext) \<and>
     (case r of
        Inr SelfSkipped \<Rightarrow> is_self cfg w \<and> ext = []
      | Inr AlreadyAnswered \<Rightarrow> \<exists>v. ext = [CRead (w_Topic w) (Inr v)] \<and> ContainsOp v (wake_id uuid5 cfg w)
      | Inr Refused \<Rightarrow> \<not> cfg_Unbudgeted cfg \<and>
          (\<exists>v now. ext = [CRead (w_Topic w) (Inr v), CNow now] \<and> \<not> admits uuid5 cfg w v now)
      | Inr Answered \<Rightarrow> replied w (wake_id uuid5 cfg w) ext \<or> self_posted cfg (views ext) ext
      | Inr SelfReported \<Rightarrow> self_reported cfg w (wake_id uuid5 cfg w) (nat (cfg_Retries cfg)) [] ext
      | Inl _ \<Rightarrow> list_all (\<lambda>(t, b, m, i, q). isl q) (posts ext))"
proof (cases rule: handleWake_stages [of uuid5 E cfg w tr])
  case (stop r ext)
  with stopped_pure [OF stop(2)] show ?thesis
    by (intro exI [of _ r] exI [of _ ext])
       (auto simp: stopped_def split: sum.splits wake_outcome.splits wake_failure.splits)
next
  case (attempt r before pre ext)
  note pure = admission_pure [OF attempt(3)]
  have "replied w (wake_id uuid5 cfg w) (pre @ ext)" if "replied w (wake_id uuid5 cfg w) ext"
    using that pure by (simp add: replied_def)
  moreover have "self_posted cfg (views (pre @ ext)) (pre @ ext)" if "self_posted cfg (before # views ext) ext"
    using that pure by (auto simp: self_posted_def)
  moreover have "self_reported cfg w i n [] (pre @ ext)" if "self_reported cfg w i n [] ext" for i n
    using that pure by (simp add: self_reported_def)
  ultimately show ?thesis
    using attempt pure unfolding attempts_contract_def
    by (intro exI [of _ r] exI [of _ "pre @ ext"])
       (auto simp: list_all_iff split: sum.splits wake_outcome.splits)
qed

section \<open>A realm that keeps what it acknowledged\<close>

text \<open>The record keeps what it acknowledged: a post that succeeded is in every later view of
  its topic.\<close>

definition durable_realm :: "env \<Rightarrow> bool" where
  "durable_realm E \<longleftrightarrow> (\<forall>tr t v b m i op.
     env_Read E tr t = Inr v \<longrightarrow> (t, b, m, i, Inr op) \<in> set (posts tr) \<longrightarrow> ContainsOp v i)"

definition landed :: "trace \<Rightarrow> (string \<times> string) list" where
  "landed tr = map (\<lambda>(t, b, m, i, q). (t, i)) (filter (\<lambda>(t, b, m, i, q). \<not> isl q) (posts tr))"

lemma landed_Nil [simp]: "landed [] = []"
  by (simp add: landed_def)

lemma landed_append [simp]: "landed (a @ b) = landed a @ landed b"
  by (simp add: landed_def)

lemma landed_iff: "(t, i) \<in> set (landed tr) \<longleftrightarrow> (\<exists>b m op. (t, b, m, i, Inr op) \<in> set (posts tr))"
proof -
  have "(t, i) \<in> set (landed tr) \<longleftrightarrow> (\<exists>b m q. (t, b, m, i, q) \<in> set (posts tr) \<and> \<not> isl q)"
    by (auto simp: landed_def image_iff)
  then show ?thesis by (metis isl_def sum.disc(2) sum.exhaust_disc sum.collapse(2))
qed

lemma landed_one:
  assumes "length (posts ext) \<le> 1" and "list_all (\<lambda>(t, b, m, i, q). t = t0 \<and> i = i0) (posts ext)"
  shows "landed ext = [] \<or> landed ext = [(t0, i0)]"
  using assms by (cases "posts ext") (auto simp: landed_def)

lemma handleWake_landed:
  assumes "durable_realm E" and "distinct (landed tr)"
  shows "distinct (landed (snd (handleWake uuid5 E cfg w tr)))"
proof (cases rule: handleWake_stages [of uuid5 E cfg w tr])
  case (stop r ext)
  with stopped_pure [OF stop(2)] assms(2) show ?thesis by (simp add: landed_def)
next
  case (attempt r before pre ext)
  let ?k = "(w_Topic w, wake_id uuid5 cfg w)"
  have pure: "landed pre = []" using admission_pure [OF attempt(3)] by (simp add: landed_def)
  note c = attempts_contract_posts [OF attempt(4)]
  have "landed ext = [] \<or> landed ext = [?k]"
    by (rule landed_one [OF c(1)]) (use c(3) in \<open>auto simp: list_all_iff\<close>)
  moreover have "?k \<notin> set (landed tr)"
    using assms(1) attempt(2,3) unfolding landed_iff durable_realm_def admission_def by blast
  ultimately show ?thesis using attempt(1) assms(2) pure by auto
qed

section \<open>A concrete realm\<close>

text \<open>A realm that appends: the view of a topic is what was acknowledged there, after the
  trigger; the harness always concludes with a text.\<close>

definition demo_env :: env where
  "demo_env = \<lparr>
     env_Read = (\<lambda>tr t. Inr (zero_Turn\<lparr>t_OpID := ''op1'', t_Author := ''ann''\<rparr> #
       map (\<lambda>i. zero_Turn\<lparr>t_OpID := i, t_Author := ''bot'', t_Type := ''turn.post''\<rparr>)
         (map snd (filter (\<lambda>k. fst k = t) (landed tr))))),
     env_Now = (\<lambda>tr. 1000), env_Materialise = (\<lambda>tr src. Inr []),
     env_Invoke = (\<lambda>tr spec. \<lparr>hr_Text = ''pong'', hr_OK = True, hr_Detail = []\<rparr>),
     env_Post = (\<lambda>tr t b m i. Inr i), env_Delay = (\<lambda>tr. None), env_order = (\<lambda>tr vs. vs)\<rparr>"

definition demo_uuid :: "string \<Rightarrow> string \<Rightarrow> string" where "demo_uuid ns s = s"

definition demo_config :: Config where
  "demo_config = \<lparr>cfg_Persona = ''bot'',
     cfg_Template = \<lparr>tpl_Command = [''h''], tpl_Prompt = ''p'', tpl_Terminal = \<lparr>tm_TypeField = ''t'',
       tm_TerminalValue = ''r'', tm_TextField = ''x'', tm_StatusField = [], tm_SuccessValue = []\<rparr>,
       tpl_Env = Map.empty, tpl_MCPCommand = [], tpl_MCPArgs = [], tpl_MCPEnv = Map.empty\<rparr>,
     cfg_Scratch = ''s'', cfg_RunTimeout = 1, cfg_Retries = 2, cfg_InboxLimit = 0,
     cfg_Budget = \<lparr>b_MaxHops = 4, b_WindowMax = 8, b_WindowPer = 600\<rparr>, cfg_Unbudgeted = False,
     cfg_Wakes = None, cfg_HomeTopic = [], cfg_Instructions = None\<rparr>"

definition demo_wake :: Wake where
  "demo_wake = \<lparr>w_Topic = ''t'', w_OpID = ''op1'', w_Author = ''ann'', w_Kind = KindMention, w_Body = []\<rparr>"

lemma demo_durable: "durable_realm demo_env"
proof -
  have "ContainsOp v i"
    if "env_Read demo_env tr t = Inr v" "(t, b, m, i, Inr op) \<in> set (posts tr)" for tr t v b m i op
  proof -
    have "(t, i) \<in> set (landed tr)" using that(2) by (auto simp: landed_iff)
    with that(1) show ?thesis by (force simp: demo_env_def ContainsOp_iff)
  qed
  then show ?thesis by (auto simp: durable_realm_def)
qed

end
