(* ===== verification/Wrap_Loop_Safety.thy ===== *)
theory Wrap_Loop_Safety
  imports Wrap_Wake
begin

text \<open>
  Loop safety: what the wake budget promises about a topic's record.  The record grows by
  posts that no engine derived from a trigger and by outcomes that an engine admitted with
  \<open>BudgetDecision\<close> (src/wrap/correlate.go) on an earlier snapshot.  The step relation allows
  any number of engines, each with its own budget, and any interleaving of their posts; its
  side conditions exclude collisions among the hashed ids in play.  \<open>handleWake_refines\<close>
  shows that the outcome a wake posts is such a step.
\<close>

section \<open>The record as it grows\<close>

datatype entry = is_Other: Other (turn: Turn) | is_Outcome: Outcome (turn: Turn)

abbreviation turns :: "entry list \<Rightarrow> Turn list" where
  "turns es \<equiv> map turn es"

abbreviation ids :: "entry list \<Rightarrow> string set" where
  "ids es \<equiv> t_OpID ` set (turns es)"

definition outcomes_by :: "string \<Rightarrow> entry list \<Rightarrow> Turn list" where
  "outcomes_by p es = map turn (filter (\<lambda>e. is_Outcome e \<and> t_Author (turn e) = p) es)"

text \<open>What the stream and the hash give for a new op: a new id, a timestamp not before the
  record's, and no op of the record that its id would appear to trigger.\<close>

definition fresh_op :: "(string \<Rightarrow> string \<Rightarrow> string) \<Rightarrow> entry list \<Rightarrow> Turn \<Rightarrow> bool" where
  "fresh_op uuid5 es t \<longleftrightarrow> t_OpID t \<notin> ids es \<and>
     (\<forall>c \<in> set (turns es). t_Timestamp c \<le> t_Timestamp t \<and> \<not> is_parent (WakeOpID uuid5) c t)"

inductive record_step ::
  "(string \<Rightarrow> string \<Rightarrow> string) \<Rightarrow> (string \<Rightarrow> Budget) \<Rightarrow> entry list \<Rightarrow> entry list \<Rightarrow> bool"
  for uuid5 bud where
  post: "fresh_op uuid5 es t \<Longrightarrow> \<forall>c \<in> set (turns es). \<not> is_parent (WakeOpID uuid5) t c \<Longrightarrow>
    record_step uuid5 bud es (es @ [Other t])"
| outcome: "es = view @ since \<Longrightarrow>
    trig \<in> set (turns view) \<or> t_OpID trig \<notin> ids es \<Longrightarrow>
    BudgetDecision uuid5 (bud p) (turns view) trig p now = None \<Longrightarrow>
    outcomes_by p since = [] \<Longrightarrow>
    own_turn p t \<Longrightarrow> t_OpID t = WakeOpID uuid5 (t_OpID trig) p \<Longrightarrow> now \<le> t_Timestamp t \<Longrightarrow>
    fresh_op uuid5 es t \<Longrightarrow>
    \<forall>c \<in> set (turns es). is_parent (WakeOpID uuid5) t c \<longrightarrow> t_OpID c = t_OpID trig \<Longrightarrow>
    record_step uuid5 bud es (es @ [Outcome t])"

inductive_simps record_step_iff: "record_step uuid5 bud es es'"

section \<open>Depth\<close>

lemma causal_append:
  assumes "causal uuid5 (v @ ext)" and "op \<in> set v"
  shows "filter (is_parent (WakeOpID uuid5) op) (v @ ext) = filter (is_parent (WakeOpID uuid5) op) v"
proof -
  from assms(2) obtain j where j: "j < length v" "op = v ! j" by (auto simp: in_set_conv_nth)
  have "\<not> is_parent (WakeOpID uuid5) op (ext ! i)" if "i < length ext" for i
    using causalD [OF assms(1), of "length v + i" j] j that
    by (auto simp: nth_append)
  then show ?thesis by (auto simp: filter_empty_conv in_set_conv_nth)
qed

lemma links_append:
  assumes "causal uuid5 (v @ ext)" and "op \<in> set v"
  shows "links uuid5 (v @ ext) k op = links uuid5 v k op"
  using assms(2)
proof (induction k arbitrary: op)
  case 0
  then show ?case by simp
next
  case (Suc k)
  have eq: "ParentOf uuid5 (v @ ext) op = ParentOf uuid5 v op"
    using causal_append [OF assms(1) Suc.prems] by (simp add: ParentOf_eq)
  obtain p n where pn: "ParentOf uuid5 v op = (p, n)" by force
  show ?case
  proof (cases "n = 0")
    case True
    with pn eq show ?thesis by simp
  next
    case False
    with pn have "p \<in> set v" using ParentOf_parent by blast
    with Suc.IH pn eq show ?thesis by simp
  qed
qed

lemma causal_prefix: "causal uuid5 (v @ ext) \<Longrightarrow> causal uuid5 v"
  unfolding causal_def by (metis length_append nth_append trans_less_add1)

lemma hops_append:
  assumes "causal uuid5 (v @ ext)" and "op \<in> set v"
  shows "ProvableHops uuid5 (v @ ext) op = ProvableHops uuid5 v op"
  using links_append [OF assms, of "length (v @ ext)"] links_enough [OF causal_prefix [OF assms(1)],
      of "length (v @ ext)" op]
  by (simp add: ProvableHops_links)

lemma causal_snoc:
  assumes "causal uuid5 v" and "\<forall>c \<in> set v. \<not> is_parent (WakeOpID uuid5) c t"
  shows "causal uuid5 (v @ [t])"
proof -
  have "i < j" if ij: "i < length (v @ [t])" "j < length (v @ [t])"
    "is_parent (WakeOpID uuid5) ((v @ [t]) ! j) ((v @ [t]) ! i)" for i j
  proof -
    consider "i < length v" "j < length v" | "i < length v" "j = length v"
      | "i = length v" "j < length v" | "i = length v" "j = length v"
      using ij(1,2) by (auto simp: less_Suc_eq)
    then show ?thesis
    proof cases
      case 1
      with ij(3) causalD [OF assms(1)] show ?thesis by (simp add: nth_append)
    next
      case 3
      with ij(3) assms(2) nth_mem show ?thesis by (auto simp: nth_append)
    next
      case 4
      with ij(3) show ?thesis by (simp add: is_parent_def)
    qed simp
  qed
  then show ?thesis unfolding causal_def by blast
qed

text \<open>An op nobody triggered is a root; one triggered by a single op sits one hop below it.\<close>

lemma hops_root:
  "\<forall>c \<in> set v. \<not> is_parent (WakeOpID uuid5) t c \<Longrightarrow> ProvableHops uuid5 v t = 0"
  using ParentOf_count [of uuid5 v t]
  by (cases "length v") (auto simp: ProvableHops_links Let_def split: prod.split)

lemma hops_child:
  assumes "causal uuid5 (v @ [t])" and "filter (is_parent (WakeOpID uuid5) t) v = [p]"
  shows "ProvableHops uuid5 (v @ [t]) t = ProvableHops uuid5 v p + 1"
proof -
  have p: "p \<in> set v" using assms(2) by (metis filter_eq_Cons_iff in_set_conv_decomp)
  have "ParentOf uuid5 (v @ [t]) t = (p, 1)"
    using assms(2) by (simp add: ParentOf_eq is_parent_def)
  then show ?thesis
    using links_append [OF assms(1) p] by (simp add: ProvableHops_links)
qed

lemma filter_single:
  assumes "distinct (map f xs)" and "x \<in> set xs" and "P x" and "\<forall>y \<in> set xs. P y \<longrightarrow> f y = f x"
  shows "filter P xs = [x]"
  using assms
proof (induction xs)
  case (Cons y xs)
  show ?case
  proof (cases "y = x")
    case True
    have "\<forall>z \<in> set xs. \<not> P z"
    proof
      fix z assume z: "z \<in> set xs"
      then have "f z \<noteq> f x" using Cons.prems(1) True
        by (metis distinct.simps(2) imageI list.simps(9) set_map)
      with z Cons.prems(4) show "\<not> P z" by (metis list.set_intros(2))
    qed
    with True Cons.prems(3) show ?thesis by (simp add: filter_empty_conv)
  next
    case False
    with Cons.prems have x: "x \<in> set xs" by simp
    have "f y \<noteq> f x" using Cons.prems(1) x by force
    then have "\<not> P y" using Cons.prems(4) by (metis list.set_intros(1))
    moreover have "filter P xs = [x]"
    proof (rule Cons.IH)
      show "distinct (map f xs)" using Cons.prems(1) by simp
      show "\<forall>z \<in> set xs. P z \<longrightarrow> f z = f x" using Cons.prems(4) by (metis list.set_intros(2))
    qed (fact x, fact Cons.prems(3))
    ultimately show ?thesis by simp
  qed
qed simp

section \<open>The window\<close>

definition in_window :: "time \<Rightarrow> duration \<Rightarrow> Turn \<Rightarrow> bool" where
  "in_window hi w t \<longleftrightarrow> hi - w < t_Timestamp t \<and> t_Timestamp t \<le> hi"

lemma outcomes_by_append [simp]: "outcomes_by p (a @ b) = outcomes_by p a @ outcomes_by p b"
  by (simp add: outcomes_by_def)

lemma outcomes_by_single [simp]:
  "outcomes_by p [Other t] = []"
  "outcomes_by p [Outcome t] = (if t_Author t = p then [t] else [])"
  by (simp_all add: outcomes_by_def)

text \<open>The outcomes of a persona inside the window are among the turns the budget counts.\<close>

lemma outcomes_recent:
  assumes "\<forall>e \<in> set es. is_Outcome e \<longrightarrow> t_Type (turn e) = ''turn.post''" and "since \<le> hi - w"
  shows "length (filter (in_window hi w) (outcomes_by p es)) \<le> own_recent (turns es) p since"
  using assms(1)
proof (induction es)
  case (Cons e es)
  then show ?case
    using assms(2) by (cases e) (auto simp: outcomes_by_def own_recent_def in_window_def own_turn_def)
qed (simp add: outcomes_by_def own_recent_def)

section \<open>The invariant\<close>

definition depth_ok :: "(string \<Rightarrow> string \<Rightarrow> string) \<Rightarrow> (string \<Rightarrow> Budget) \<Rightarrow> entry list \<Rightarrow> bool" where
  "depth_ok uuid5 bud es \<longleftrightarrow> (\<forall>t \<in> set (turns es).
     0 < b_MaxHops (bud (t_Author t)) \<longrightarrow> ProvableHops uuid5 (turns es) t \<le> b_MaxHops (bud (t_Author t)))"

definition window_ok :: "(string \<Rightarrow> Budget) \<Rightarrow> entry list \<Rightarrow> bool" where
  "window_ok bud es \<longleftrightarrow> (\<forall>p hi. 0 < b_WindowMax (bud p) \<longrightarrow>
     int (length (filter (in_window hi (b_WindowPer (bud p))) (outcomes_by p es))) \<le> b_WindowMax (bud p))"

definition loop_inv :: "(string \<Rightarrow> string \<Rightarrow> string) \<Rightarrow> (string \<Rightarrow> Budget) \<Rightarrow> entry list \<Rightarrow> bool" where
  "loop_inv uuid5 bud es \<longleftrightarrow> distinct (map t_OpID (turns es)) \<and> causal uuid5 (turns es) \<and>
     (\<forall>e \<in> set es. is_Outcome e \<longrightarrow> t_Type (turn e) = ''turn.post'') \<and>
     depth_ok uuid5 bud es \<and> window_ok bud es"

lemma loop_inv_snoc:
  assumes "loop_inv uuid5 bud es" and "fresh_op uuid5 es (turn e)"
    and "is_Outcome e \<longrightarrow> t_Type (turn e) = ''turn.post''"
    and "0 < b_MaxHops (bud (t_Author (turn e))) \<longrightarrow>
      ProvableHops uuid5 (turns (es @ [e])) (turn e) \<le> b_MaxHops (bud (t_Author (turn e)))"
    and "window_ok bud (es @ [e])"
  shows "loop_inv uuid5 bud (es @ [e])"
proof -
  have c: "causal uuid5 (turns es @ [turn e])"
    using assms(1,2) by (intro causal_snoc) (simp_all add: loop_inv_def fresh_op_def)
  have "depth_ok uuid5 bud (es @ [e])"
    using assms(1,4) hops_append [OF c] by (auto simp: depth_ok_def loop_inv_def)
  with assms c show ?thesis by (auto simp: loop_inv_def fresh_op_def)
qed

lemma post_inv:
  assumes "loop_inv uuid5 bud es" and "fresh_op uuid5 es t"
    and "\<forall>c \<in> set (turns es). \<not> is_parent (WakeOpID uuid5) t c"
  shows "loop_inv uuid5 bud (es @ [Other t])"
proof (rule loop_inv_snoc [OF assms(1)])
  have "ProvableHops uuid5 (turns (es @ [Other t])) t = 0"
    using assms(3) by (intro hops_root) (auto simp: is_parent_def)
  then show "0 < b_MaxHops (bud (t_Author (turn (Other t)))) \<longrightarrow>
      ProvableHops uuid5 (turns (es @ [Other t])) (turn (Other t)) \<le> b_MaxHops (bud (t_Author (turn (Other t))))"
    by simp
  show "window_ok bud (es @ [Other t])"
    using assms(1) by (simp add: loop_inv_def window_ok_def)
qed (use assms(2) in simp_all)

lemma outcome_depth:
  assumes inv: "loop_inv uuid5 bud es" and es: "es = view @ since"
    and trig: "trig \<in> set (turns view) \<or> t_OpID trig \<notin> ids es"
    and dec: "BudgetDecision uuid5 (bud p) (turns view) trig p now = None"
    and own: "own_turn p t" and id: "t_OpID t = WakeOpID uuid5 (t_OpID trig) p"
    and fresh: "fresh_op uuid5 es t"
    and only: "\<forall>c \<in> set (turns es). is_parent (WakeOpID uuid5) t c \<longrightarrow> t_OpID c = t_OpID trig"
  shows "0 < b_MaxHops (bud p) \<longrightarrow> ProvableHops uuid5 (turns es @ [t]) t \<le> b_MaxHops (bud p)"
proof (cases "trig \<in> set (turns view)")
  case False
  with trig have "t_OpID trig \<notin> ids es" by blast
  with only have "\<forall>c \<in> set (turns es @ [t]). \<not> is_parent (WakeOpID uuid5) t c"
    by (auto simp: is_parent_def)
  then show ?thesis by (simp add: hops_root)
next
  case True
  have c: "causal uuid5 (turns es)" and d: "distinct (map t_OpID (turns es))"
    using inv by (simp_all add: loop_inv_def)
  have cs: "causal uuid5 (turns es @ [t])"
    using c fresh by (intro causal_snoc) (simp_all add: fresh_op_def)
  have mem: "trig \<in> set (turns es)" using True es by auto
  have par: "is_parent (WakeOpID uuid5) t trig"
    using own id mem fresh by (auto simp: is_parent_def own_turn_def fresh_op_def)
  have "filter (is_parent (WakeOpID uuid5) t) (turns es) = [trig]"
    by (rule filter_single [OF d mem par only])
  from hops_child [OF cs this] hops_append [of uuid5 "turns view" "turns since" trig] c es True
  have "ProvableHops uuid5 (turns es @ [t]) t = ProvableHops uuid5 (turns view) trig + 1" by simp
  with dec show ?thesis by (simp add: BudgetDecision_None)
qed

lemma outcome_window:
  assumes inv: "loop_inv uuid5 bud es" and es: "es = view @ since"
    and dec: "BudgetDecision uuid5 (bud p) (turns view) trig p now = None"
    and seq: "outcomes_by p since = []" and own: "own_turn p t" and now: "now \<le> t_Timestamp t"
  shows "window_ok bud (es @ [Outcome t])"
proof -
  have "int (length (filter (in_window hi (b_WindowPer (bud p))) (outcomes_by p (es @ [Outcome t]))))
      \<le> b_WindowMax (bud p)"
    if pos: "0 < b_WindowMax (bud p)" for hi
  proof (cases "in_window hi (b_WindowPer (bud p)) t")
    case False
    with inv pos show ?thesis by (simp add: loop_inv_def window_ok_def)
  next
    case True
    have "\<forall>e \<in> set view. is_Outcome e \<longrightarrow> t_Type (turn e) = ''turn.post''"
      using inv es by (simp add: loop_inv_def)
    moreover have "now - b_WindowPer (bud p) \<le> hi - b_WindowPer (bud p)"
      using True now by (simp add: in_window_def)
    ultimately have "length (filter (in_window hi (b_WindowPer (bud p))) (outcomes_by p view))
        \<le> own_recent (turns view) p (now - b_WindowPer (bud p))" by (rule outcomes_recent)
    moreover have "int (own_recent (turns view) p (now - b_WindowPer (bud p))) < b_WindowMax (bud p)"
      using dec pos by (simp add: BudgetDecision_None)
    ultimately show ?thesis using True own es seq by (simp add: own_turn_def)
  qed
  moreover have "outcomes_by q (es @ [Outcome t]) = outcomes_by q es" if "q \<noteq> p" for q
    using that own by (simp add: own_turn_def)
  ultimately show ?thesis
    using inv unfolding loop_inv_def window_ok_def by metis
qed

interpretation loop: invariant_system "\<lambda>es. es = []" "record_step uuid5 bud" "loop_inv uuid5 bud"
  for uuid5 bud
proof
  show "loop_inv uuid5 bud es" if "es = []" for es
    using that by (simp add: loop_inv_def causal_def depth_ok_def window_ok_def outcomes_by_def)
next
  fix es es' assume inv: "loop_inv uuid5 bud es" and step: "record_step uuid5 bud es es'"
  from step show "loop_inv uuid5 bud es'"
  proof cases
    case (post t)
    with post_inv [OF inv] show ?thesis by simp
  next
    case (outcome view since trig p now t)
    have "0 < b_MaxHops (bud p) \<longrightarrow> ProvableHops uuid5 (turns es @ [t]) t \<le> b_MaxHops (bud p)"
      by (rule outcome_depth [OF inv outcome(2-4,6,7,9,10)])
    moreover have "window_ok bud (es @ [Outcome t])"
      by (rule outcome_window [OF inv outcome(2,4-6,8)])
    moreover have "t_Author t = p" "t_Type t = ''turn.post''"
      using outcome(6) by (simp_all add: own_turn_def)
    ultimately show ?thesis
      using loop_inv_snoc [OF inv, of "Outcome t"] outcome(1,9) by simp
  qed
qed

section \<open>The loop-safety theorems\<close>

abbreviation grown :: "(string \<Rightarrow> string \<Rightarrow> string) \<Rightarrow> (string \<Rightarrow> Budget) \<Rightarrow> entry list \<Rightarrow> bool" where
  "grown uuid5 bud \<equiv> reach (\<lambda>es. es = []) (record_step uuid5 bud)"

text \<open>C2. Depth: in every record the engines and the world can grow, an op by a persona whose
  engine has a depth budget of D sits at most D provable hops from a chain root.\<close>

theorem depth_bound:
  assumes "grown uuid5 bud es" and "t \<in> set (turns es)" and "0 < b_MaxHops (bud (t_Author t))"
  shows "ProvableHops uuid5 (turns es) t \<le> b_MaxHops (bud (t_Author t))"
  using loop.reach_inv [OF assms(1)] assms(2,3) unfolding loop_inv_def depth_ok_def by blast

text \<open>C3. Window: a persona whose engine has the window budget (K, W) has at most K outcomes in
  any time window of length W, whoever else posts and however the chains run.\<close>

theorem window_bound:
  assumes "grown uuid5 bud es" and "0 < b_WindowMax (bud p)"
  shows "int (length (filter (in_window hi (b_WindowPer (bud p))) (outcomes_by p es)))
     \<le> b_WindowMax (bud p)"
  using loop.reach_inv [OF assms(1)] assms(2) by (simp add: loop_inv_def window_ok_def)

text \<open>C30. The walker's bound is never what ends the walk: in every such record the chain of an op
  runs from the op through provable parents to an op that has none.\<close>

theorem chain_reaches_root:
  assumes "grown uuid5 bud es" and "t \<in> set (turns es)"
  shows "let chain = fst (ChainToRoot uuid5 (turns es) t) in
    hd chain = t \<and> successively (is_parent (WakeOpID uuid5)) chain \<and>
    snd (ParentOf uuid5 (turns es) (last chain)) = 0"
proof -
  have c: "causal uuid5 (turns es)" using loop.reach_inv [OF assms(1)] by (simp add: loop_inv_def)
  obtain i where i: "i < length (turns es)" "t = turns es ! i"
    using assms(2) by (metis in_set_conv_nth)
  have "snd (ParentOf uuid5 (turns es) (last (fst (ChainToRoot uuid5 (turns es) t)))) = 0"
    using chain_loop_root [OF c, of "[t]" i "length (turns es)" 0] i by (simp add: ChainToRoot_def)
  with ChainToRoot_linked [of uuid5 "turns es" t] show ?thesis by (simp add: Let_def)
qed

section \<open>handleWake grows the record by such a step\<close>

definition engine_budget :: "Config \<Rightarrow> Budget" where
  "engine_budget cfg = (if cfg_Unbudgeted cfg then zero_Budget else cfg_Budget cfg)"

lemma zero_Budget_admits: "BudgetDecision uuid5 zero_Budget v t p now = None"
  by (simp add: BudgetDecision_None zero_Budget_def)

lemma admission_decision:
  assumes "admission uuid5 cfg w before pre"
  obtains now where "BudgetDecision uuid5 (engine_budget cfg) before (trigger_of before w) (cfg_Persona cfg) now = None"
    and "cfg_Unbudgeted cfg \<or> now \<in> set (clocks pre)"
  using assms by (auto simp: admission_def admits_def engine_budget_def zero_Budget_admits split: if_splits)

lemma trigger_of_id: "t_OpID (trigger_of before w) = w_OpID w"
  by (auto simp: trigger_of_def zero_Turn_def split: option.split dest: find_SomeD)

lemma trigger_of_mem:
  "trigger_of before w \<in> set before \<or> w_OpID w \<notin> t_OpID ` set before"
  by (auto simp: trigger_of_def find_None_iff' split: option.split dest: find_SomeD)

text \<open>C29. \<open>handleWake\<close> refines the step relation: when a wake's post is acknowledged, then the
  turn that lands on the record, at a time not before the clock reading of the decision, makes
  an \<open>outcome\<close> step from the record as it then is.\<close>

theorem handleWake_refines:
  assumes run: "handleWake uuid5 E cfg w tr = (r, tr @ ext)"
    and acked: "(w_Topic w, b, m, i, Inr op) \<in> set (posts ext)"
    and read: "env_Read E tr (w_Topic w) = Inr (turns view)"
    and world: "es = view @ since" "w_OpID w \<in> ids es \<longrightarrow> w_OpID w \<in> ids view"
      "outcomes_by (cfg_Persona cfg) since = []"
    and lands: "own_turn (cfg_Persona cfg) t" "t_OpID t = i" "fresh_op uuid5 es t"
      "\<forall>c \<in> set (turns es). is_parent (WakeOpID uuid5) t c \<longrightarrow> t_OpID c = w_OpID w"
      "\<forall>now \<in> set (clocks ext). now \<le> t_Timestamp t"
    and budget: "bud (cfg_Persona cfg) = engine_budget cfg"
  shows "record_step uuid5 bud es (es @ [Outcome t])"
proof (cases rule: handleWake_stages [of uuid5 E cfg w tr])
  case (stop r' ext')
  with run acked stopped_pure [OF stop(2)] show ?thesis by simp
next
  case (attempt r' before pre ext')
  have bef: "before = turns view" using attempt(2) read by simp
  have ext: "ext = pre @ ext'" using run attempt(1) by simp
  have i: "i = WakeOpID uuid5 (w_OpID w) (cfg_Persona cfg)"
    using acked ext admission_pure [OF attempt(3)] attempts_contract_posts(3) [OF attempt(4)]
    by (auto simp: list_all_iff wake_id_def)
  let ?trig = "trigger_of (turns view) w"
  have trig: "?trig \<in> set (turns view) \<or> t_OpID ?trig \<notin> ids es"
    using trigger_of_mem [of "turns view" w] world(2) by (auto simp: trigger_of_id)
  obtain now where now: "BudgetDecision uuid5 (engine_budget cfg) before (trigger_of before w) (cfg_Persona cfg) now = None"
    "cfg_Unbudgeted cfg \<or> now \<in> set (clocks pre)"
    using admission_decision [OF attempt(3)] by blast
  define now' where "now' = (if cfg_Unbudgeted cfg then t_Timestamp t else now)"
  have "BudgetDecision uuid5 (bud (cfg_Persona cfg)) (turns view) ?trig (cfg_Persona cfg) now' = None"
    using now(1) bef budget zero_Budget_admits by (auto simp: now'_def engine_budget_def split: if_splits)
  moreover have "now' \<le> t_Timestamp t" using now(2) lands(5) ext by (auto simp: now'_def)
  moreover have "t_OpID t = WakeOpID uuid5 (t_OpID ?trig) (cfg_Persona cfg)"
    using lands(2) i by (simp add: trigger_of_id)
  moreover have "\<forall>c \<in> set (turns es). is_parent (WakeOpID uuid5) t c \<longrightarrow> t_OpID c = t_OpID ?trig"
    using lands(4) by (simp add: trigger_of_id)
  ultimately show ?thesis
    using record_step.outcome [OF world(1) trig _ world(3) lands(1) _ _ lands(3)] by blast
qed

section \<open>A concrete record\<close>

definition demo_ask :: Turn where
  "demo_ask = zero_Turn\<lparr>t_OpID := ''op1'', t_Author := ''ann''\<rparr>"

definition demo_reply :: Turn where
  "demo_reply = \<lparr>t_OpID = ''op1/bot'', t_Author = ''bot'', t_Type = ''turn.post'', t_Body = ''pong'',
     t_Timestamp = 1000\<rparr>"

definition demo_budget :: "string \<Rightarrow> Budget" where
  "demo_budget p = \<lparr>b_MaxHops = 4, b_WindowMax = 8, b_WindowPer = 600\<rparr>"

abbreviation demo_record :: "entry list" where
  "demo_record \<equiv> [Other demo_ask, Outcome demo_reply]"

definition demo_ext :: trace where
  "demo_ext = snd (handleWake demo_uuid demo_env demo_config demo_wake [])"

lemma demo_handle:
  "handleWake demo_uuid demo_env demo_config demo_wake [] =
     (fst (handleWake demo_uuid demo_env demo_config demo_wake []), [] @ demo_ext)"
  by (simp add: demo_ext_def)

lemma demo_calls: "posts demo_ext = [(''t'', ''pong'', [], ''op1/bot'', Inr ''op1/bot'')]"
  "clocks demo_ext = [1000]" "env_Read demo_env [] ''t'' = Inr [demo_ask]"
  by code_simp+

theorem handleWake_refines_witness:
  "record_step demo_uuid demo_budget [Other demo_ask] demo_record"
proof -
  have "record_step demo_uuid demo_budget [Other demo_ask] ([Other demo_ask] @ [Outcome demo_reply])"
    by (rule handleWake_refines [OF demo_handle, where view = "[Other demo_ask]" and since = "[]"
          and bud = demo_budget and b = "''pong''" and m = "[]" and i = "''op1/bot''" and op = "''op1/bot''"])
       (simp_all add: demo_calls demo_wake_def demo_config_def demo_ask_def demo_reply_def demo_budget_def
         zero_Turn_def own_turn_def fresh_op_def is_parent_def WakeOpID_def demo_uuid_def outcomes_by_def
         engine_budget_def)
  then show ?thesis by simp
qed

lemma demo_first: "record_step demo_uuid demo_budget [] [Other demo_ask]"
  using record_step.post [of demo_uuid "[]" demo_ask demo_budget] by (simp add: fresh_op_def)

lemma demo_second: "record_step demo_uuid demo_budget [Other demo_ask] demo_record"
proof -
  have "record_step demo_uuid demo_budget [Other demo_ask] ([Other demo_ask] @ [Outcome demo_reply])"
    by (rule record_step.outcome [where view = "[Other demo_ask]" and since = "[]" and trig = demo_ask
          and p = "''bot''" and now = 1000])
       (simp_all add: demo_ask_def demo_reply_def demo_budget_def
         zero_Turn_def own_turn_def fresh_op_def is_parent_def WakeOpID_def demo_uuid_def outcomes_by_def
         BudgetDecision_None ProvableHops_links ParentOf_eq own_recent_def)
  then show ?thesis by simp
qed

lemma demo_grown: "grown demo_uuid demo_budget demo_record"
  using demo_first demo_second reach_init [of "\<lambda>es. es = []" "[]"] by (blast intro: reach_step)

lemma demo_hops: "ProvableHops demo_uuid [demo_ask, demo_reply] demo_reply = 1"
  by code_simp

theorem depth_bound_witness:
  "ProvableHops demo_uuid (turns demo_record) demo_reply = 1 \<and>
   ProvableHops demo_uuid (turns demo_record) demo_reply \<le> 4"
  using depth_bound [OF demo_grown, of demo_reply] demo_hops by (simp add: demo_budget_def)

theorem window_bound_witness:
  "length (outcomes_by ''bot'' demo_record) = 1 \<and>
   int (length (filter (in_window 1000 600) (outcomes_by ''bot'' demo_record))) \<le> 8"
  using window_bound [OF demo_grown, of "''bot''" 1000]
  by (simp add: demo_budget_def outcomes_by_def demo_reply_def)

theorem chain_reaches_root_witness:
  "fst (ChainToRoot demo_uuid (turns demo_record) demo_reply) = [demo_reply, demo_ask] \<and>
   snd (ParentOf demo_uuid (turns demo_record) (last [demo_reply, demo_ask])) = 0"
proof -
  have "fst (ChainToRoot demo_uuid (turns demo_record) demo_reply) = [demo_reply, demo_ask]" by code_simp
  with chain_reaches_root [OF demo_grown, of demo_reply] show ?thesis by (simp add: Let_def)
qed

end
