(* ===== verification/Wrap_Budget_Order.thy ===== *)
theory Wrap_Budget_Order
  imports Wrap_Loop_Safety
begin

text \<open>
  Budgets by strictness.  A limit of zero is no limit (src/wrap/correlate.go), so the order is not the
  numeric one.  With it as an instance of the library's \<open>preorder\<close>, budgets of whole fleets are compared
  pointwise, and loosening a budget never forbids what a stricter one allowed.
\<close>

section \<open>Stricter budgets\<close>

instantiation Budget_ext :: (type) preorder
begin

definition less_eq_Budget_ext :: "'a Budget_scheme \<Rightarrow> 'a Budget_scheme \<Rightarrow> bool" where
  "less_eq_Budget_ext a b \<longleftrightarrow>
     (0 < b_MaxHops b \<longrightarrow> 0 < b_MaxHops a \<and> b_MaxHops a \<le> b_MaxHops b) \<and>
     (0 < b_WindowMax b \<longrightarrow> 0 < b_WindowMax a \<and> b_WindowMax a \<le> b_WindowMax b \<and> b_WindowPer b \<le> b_WindowPer a)"

definition less_Budget_ext :: "'a Budget_scheme \<Rightarrow> 'a Budget_scheme \<Rightarrow> bool" where
  "less_Budget_ext a b \<longleftrightarrow> a \<le> b \<and> \<not> b \<le> a"

instance
  by standard (auto simp: less_eq_Budget_ext_def less_Budget_ext_def)

end

lemma own_recent_antimono: "since \<le> since' \<Longrightarrow> own_recent view p since' \<le> own_recent view p since"
  unfolding own_recent_def
  by (induction view) (auto simp: le_SucI)

lemma admitted_mono:
  assumes "(b :: Budget) \<le> b'" and "BudgetDecision uuid5 b view trig p now = None"
  shows "BudgetDecision uuid5 b' view trig p now = None"
proof -
  have "own_recent view p (now - b_WindowPer b') \<le> own_recent view p (now - b_WindowPer b)" if "0 < b_WindowMax b'"
    using that assms(1) by (intro own_recent_antimono) (auto simp: less_eq_Budget_ext_def)
  with assms show ?thesis
    by (auto simp: BudgetDecision_None less_eq_Budget_ext_def)
qed

text \<open>Raising a limit or shortening the window can only turn refusals into admissions: what a looser budget
  refuses, every stricter one refuses.\<close>

theorem stricter_refuses_more:
  "(b :: Budget) \<le> b' \<Longrightarrow> BudgetDecision uuid5 b' view trig p now \<noteq> None \<Longrightarrow> BudgetDecision uuid5 b view trig p now \<noteq> None"
  by (rule notI, drule (1) admitted_mono, rule notE)

text \<open>The zero budget is the loosest: it refuses nothing.\<close>

lemma zero_loosest: "(b :: Budget) \<le> zero_Budget"
  by (simp add: less_eq_Budget_ext_def zero_Budget_def)

section \<open>Fleets of engines\<close>

text \<open>The budgets of all personas are compared pointwise by the instance for functions.\<close>

lemma record_step_mono:
  assumes "bud \<le> bud'" and "record_step uuid5 bud es es'"
  shows "record_step uuid5 bud' es es'"
  using assms(2)
proof cases
  case (post t)
  then show ?thesis unfolding post(1) by (intro record_step.post) auto
next
  case (outcome view since trig p now t)
  have adm: "BudgetDecision uuid5 (bud' p) (turns view) trig p now = None"
    using admitted_mono [OF le_funD [OF assms(1)] outcome(4)] .
  show ?thesis
    unfolding outcome(1) by (rule record_step.outcome [where bud = bud' and p = p, OF outcome(2,3) adm outcome(5-10)])
qed


theorem stricter_refuses_more_witness:
  "BudgetDecision demo_uuid \<lparr>b_MaxHops = 1, b_WindowMax = 0, b_WindowPer = 0\<rparr> [demo_ask, demo_reply] demo_reply ''bot'' 0 \<noteq> None"
proof -
  have "\<lparr>b_MaxHops = 1, b_WindowMax = 0, b_WindowPer = 0\<rparr> \<le> (\<lparr>b_MaxHops = 1, b_WindowMax = 0, b_WindowPer = 60\<rparr> :: Budget)"
    by (simp add: less_eq_Budget_ext_def)
  moreover have "BudgetDecision demo_uuid \<lparr>b_MaxHops = 1, b_WindowMax = 0, b_WindowPer = 60\<rparr> [demo_ask, demo_reply] demo_reply ''bot'' 0 \<noteq> None"
    by (simp add: BudgetDecision_None demo_hops)
  ultimately show ?thesis by (rule stricter_refuses_more)
qed


end
