(* ===== verification/Go_Json.thy ===== *)
theory Go_Json
  imports Go_Net
begin

text \<open>
  What the program uses of Go's \<open>encoding/json\<close>: the scanner and decoder of one value from a
  prefix of the input, and the compact encoder (the one of \<open>Marshal\<close>, which escapes HTML).  A number keeps
  its literal.  An object keeps its members in order, duplicates included.  The recursion of
  the parser runs on fuel; \<open>json_fuel\<close> is enough for every input (\<open>jvalue_fuel\<close>).
\<close>

datatype json =
    JNull
  | JBool bool
  | JNum string
  | JStr string
  | JArr "json list"
  | JObj "(string \<times> json) list"

abbreviation quot :: char where "quot \<equiv> CHR 0x22"
abbreviation bslash :: char where "bslash \<equiv> CHR 0x5C"

section \<open>Strings\<close>

text \<open>\<open>utf8.AppendRune\<close>\<close>

definition encode_rune :: "nat \<Rightarrow> string" where
  "encode_rune r =
     (if r < 0x80 then [char_of r]
      else if r < 0x800 then [char_of (0xC0 + r div 64), char_of (0x80 + r mod 64)]
      else if 0xD800 \<le> r \<and> r \<le> 0xDFFF \<or> 0x10FFFF < r then [CHR 0xEF, CHR 0xBF, CHR 0xBD]
      else if r < 0x10000 then
        [char_of (0xE0 + r div 4096), char_of (0x80 + (r div 64) mod 64), char_of (0x80 + r mod 64)]
      else
        [char_of (0xF0 + r div 262144), char_of (0x80 + (r div 4096) mod 64),
         char_of (0x80 + (r div 64) mod 64), char_of (0x80 + r mod 64)])"

definition hex4 :: "char \<Rightarrow> char \<Rightarrow> char \<Rightarrow> char \<Rightarrow> nat option" where
  "hex4 a b c d =
     (case (hex_val a, hex_val b, hex_val c, hex_val d) of
        (Some x, Some y, Some z, Some w) \<Rightarrow> Some (((x * 16 + y) * 16 + z) * 16 + w)
      | _ \<Rightarrow> None)"

text \<open>The second half of a surrogate pair: the rune and what follows it.\<close>

fun low_half :: "nat \<Rightarrow> string \<Rightarrow> (nat \<times> string) option" where
  "low_half r (x # u # a # b # c # d # rest) =
     (if x = bslash \<and> u = CHR ''u'' then
        (case hex4 a b c d of None \<Rightarrow> None | Some r2 \<Rightarrow>
          if 0xD800 \<le> r \<and> r < 0xDC00 \<and> 0xDC00 \<le> r2 \<and> r2 < 0xE000
          then Some ((r - 0xD800) * 1024 + (r2 - 0xDC00) + 0x10000, rest) else None)
      else None)"
| "low_half r _ = None"

lemma low_half_length: "low_half r s = Some (r2, rest) \<Longrightarrow> length rest < length s"
  by (induction r s rule: low_half.induct) (auto split: if_splits option.splits)

definition unescape_char :: "char \<Rightarrow> char option" where
  "unescape_char e = map_of [(quot, quot), (bslash, bslash), (CHR ''/'', CHR ''/''), (CHR ''b'', CHR 0x08),
     (CHR ''f'', CHR 0x0C), (CHR ''n'', CHR 0x0A), (CHR ''r'', CHR 0x0D), (CHR ''t'', CHR 0x09)] e"

text \<open>The string after its opening quote: its content and what follows the closing one.  A
  malformed byte becomes U+FFFD, as does half a surrogate pair.\<close>

function json_string :: "string \<Rightarrow> (string \<times> string) option" where
  "json_string [] = None"
| "json_string (c # cs) =
     (if c = quot then Some ([], cs)
      else if byte c < 0x20 then None
      else if c \<noteq> bslash then
        (let (r, w) = decode_rune c cs in
         map_option (apfst (append (if r = rune_error \<and> w = 1 then encode_rune rune_error else c # take (w - 1) cs)))
           (json_string (drop (w - 1) cs)))
      else
        (case cs of [] \<Rightarrow> None | e # cs1 \<Rightarrow>
          if e \<noteq> CHR ''u'' then
            (case unescape_char e of None \<Rightarrow> None | Some x \<Rightarrow> map_option (apfst (append [x])) (json_string cs1))
          else
            (case cs1 of x # y # z # v # cs2 \<Rightarrow>
              (case hex4 x y z v of None \<Rightarrow> None | Some r \<Rightarrow>
                if \<not> (0xD800 \<le> r \<and> r < 0xE000)
                then map_option (apfst (append (encode_rune r))) (json_string cs2)
                else (case low_half r cs2 of
                    None \<Rightarrow> map_option (apfst (append (encode_rune rune_error))) (json_string cs2)
                  | Some (r2, cs3) \<Rightarrow> map_option (apfst (append (encode_rune r2))) (json_string cs3)))
             | _ \<Rightarrow> None)))"
  by pat_completeness auto
termination
  by (relation "measure length") (auto dest: low_half_length)

lemma json_string_length: "json_string s = Some (x, rest) \<Longrightarrow> length rest < length s"
proof (induction s arbitrary: x rest rule: json_string.induct)
  case 1
  then show ?case by simp
next
  case (2 c cs)
  have step: "length rest' < Suc (length cs)" if "json_string t = Some (y, rest')" "length t \<le> length cs"
    "length rest' < length t" for t y rest'
    using that by simp
  show ?case
    using 2 by (fastforce split: if_splits option.splits list.splits prod.splits dest: low_half_length)
qed

section \<open>Numbers\<close>

definition json_exponent :: "string \<Rightarrow> string \<Rightarrow> (string \<times> string) option" where
  "json_exponent acc s =
     (case s of e # t \<Rightarrow>
        if e = CHR ''e'' \<or> e = CHR ''E'' then
          (let (sg, t1) = (case t of x # u \<Rightarrow> if x = CHR ''+'' \<or> x = CHR ''-'' then ([x], u) else ([], t) | [] \<Rightarrow> ([], t));
               ds = takeWhile is_digit t1 in
           if ds = [] then None else Some (acc @ [e] @ sg @ ds, dropWhile is_digit t1))
        else Some (acc, s)
      | [] \<Rightarrow> Some (acc, s))"

definition json_fraction :: "string \<Rightarrow> string \<Rightarrow> (string \<times> string) option" where
  "json_fraction acc s =
     (case s of p # t \<Rightarrow>
        if p = CHR ''.'' then
          (let ds = takeWhile is_digit t in
           if ds = [] then None else json_exponent (acc @ [p] @ ds) (dropWhile is_digit t))
        else json_exponent acc s
      | [] \<Rightarrow> json_exponent acc s)"

definition json_number :: "string \<Rightarrow> (string \<times> string) option" where
  "json_number s =
     (let (sg, s1) = (case s of x # u \<Rightarrow> if x = CHR ''-'' then ([x], u) else ([], s) | [] \<Rightarrow> ([], s)) in
      case s1 of [] \<Rightarrow> None | d # t \<Rightarrow>
        if d = CHR ''0'' then json_fraction (sg @ [d]) t
        else if is_digit d then json_fraction (sg @ d # takeWhile is_digit t) (dropWhile is_digit t)
        else None)"

lemma json_exponent_length: "json_exponent acc s = Some (n, r) \<Longrightarrow> length r \<le> length s"
  by (auto simp: json_exponent_def Let_def split: list.splits if_splits)
     (meson le_SucI length_dropWhile_le le_trans)+

lemma json_fraction_length: "json_fraction acc s = Some (n, r) \<Longrightarrow> length r \<le> length s"
  by (auto simp: json_fraction_def Let_def split: list.splits if_splits dest!: json_exponent_length)
     (metis le_SucI le_trans length_dropWhile_le)

lemma json_number_length: "json_number s = Some (n, r) \<Longrightarrow> length r < length s"
  by (auto simp: json_number_def Let_def split: list.splits if_splits dest!: json_fraction_length)
     (metis le_imp_less_Suc le_trans length_dropWhile_le less_SucI)+

section \<open>Values\<close>

definition json_ws :: "char \<Rightarrow> bool" where
  "json_ws c \<longleftrightarrow> c = CHR '' '' \<or> c = CHR 0x09 \<or> c = CHR 0x0A \<or> c = CHR 0x0D"

definition skip_ws :: "string \<Rightarrow> string" where
  "skip_ws s = dropWhile json_ws s"

lemma skip_ws_length: "length (skip_ws s) \<le> length s"
  by (simp add: skip_ws_def length_dropWhile_le)

lemma skip_ws_Cons: "skip_ws s = c # cs \<Longrightarrow> length cs < length s"
  using skip_ws_length [of s] by simp

definition max_depth :: int where "max_depth = 10000"

definition json_literal :: "string \<Rightarrow> json \<Rightarrow> string \<Rightarrow> (json \<times> string) option" where
  "json_literal word v s = map_option (Pair v) (CutPrefix s word)"

lemma json_literal_length: "json_literal w v s = Some (x, r) \<Longrightarrow> length r \<le> length s"
  by (auto simp: json_literal_def CutPrefix_Some)

text \<open>\<open>d\<close> is the nesting depth.  \<open>jelems\<close> reads the elements of an array up to its bracket,
  \<open>jmembers\<close> the members of an object up to its brace.\<close>

fun jvalue :: "nat \<Rightarrow> int \<Rightarrow> string \<Rightarrow> (json \<times> string) option"
  and jelems :: "nat \<Rightarrow> int \<Rightarrow> string \<Rightarrow> (json list \<times> string) option"
  and jmembers :: "nat \<Rightarrow> int \<Rightarrow> string \<Rightarrow> ((string \<times> json) list \<times> string) option" where
  "jvalue 0 d s = None"
| "jvalue (Suc f) d s =
     (case skip_ws s of [] \<Rightarrow> None | c # cs \<Rightarrow>
      if c = CHR ''{'' then
        (if max_depth \<le> d then None
         else case skip_ws cs of [] \<Rightarrow> None | x # xs \<Rightarrow>
           if x = CHR ''}'' then Some (JObj [], xs) else map_option (apfst JObj) (jmembers f (d + 1) (x # xs)))
      else if c = CHR ''['' then
        (if max_depth \<le> d then None
         else case skip_ws cs of [] \<Rightarrow> None | x # xs \<Rightarrow>
           if x = CHR '']'' then Some (JArr [], xs) else map_option (apfst JArr) (jelems f (d + 1) (x # xs)))
      else if c = quot then map_option (apfst JStr) (json_string cs)
      else if c = CHR ''t'' then json_literal ''rue'' (JBool True) cs
      else if c = CHR ''f'' then json_literal ''alse'' (JBool False) cs
      else if c = CHR ''n'' then json_literal ''ull'' JNull cs
      else map_option (apfst JNum) (json_number (c # cs)))"
| "jelems 0 d s = None"
| "jelems (Suc f) d s =
     (case jvalue f d s of None \<Rightarrow> None | Some (v, r) \<Rightarrow>
      case skip_ws r of [] \<Rightarrow> None | c # cs \<Rightarrow>
        if c = CHR '','' then map_option (apfst (Cons v)) (jelems f d cs)
        else if c = CHR '']'' then Some ([v], cs) else None)"
| "jmembers 0 d s = None"
| "jmembers (Suc f) d s =
     (case skip_ws s of [] \<Rightarrow> None | q # qs \<Rightarrow>
      if q \<noteq> quot then None else
      case json_string qs of None \<Rightarrow> None | Some (k, r1) \<Rightarrow>
      case skip_ws r1 of [] \<Rightarrow> None | c # r2 \<Rightarrow>
      if c \<noteq> CHR '':'' then None else
      case jvalue f d r2 of None \<Rightarrow> None | Some (v, r3) \<Rightarrow>
      case skip_ws r3 of [] \<Rightarrow> None | e # r4 \<Rightarrow>
        if e = CHR '','' then map_option (apfst (Cons (k, v))) (jmembers f d r4)
        else if e = CHR ''}'' then Some ([(k, v)], r4) else None)"

definition json_fuel :: "string \<Rightarrow> nat" where
  "json_fuel s = 2 * length s + 2"

text \<open>The first value of the input, and what follows it.\<close>

definition json_decode :: "string \<Rightarrow> (json \<times> string) option" where
  "json_decode s = jvalue (json_fuel s) 0 s"

text \<open>\<open>Decoder.More\<close> at the top level: the next byte that is not white space, if there is one, is
  neither a closing bracket nor a closing brace.\<close>

definition json_more :: "string \<Rightarrow> bool" where
  "json_more s = (case skip_ws s of [] \<Rightarrow> False | c # _ \<Rightarrow> c \<noteq> CHR '']'' \<and> c \<noteq> CHR ''}'')"

text \<open>\<open>Unmarshal\<close> reads the whole input.\<close>

definition json_whole :: "string \<Rightarrow> json option" where
  "json_whole s = (case json_decode s of None \<Rightarrow> None | Some (v, rest) \<Rightarrow> if skip_ws rest = [] then Some v else None)"

lemma parse_length:
  "jvalue f d s = Some (v, r) \<Longrightarrow> length r < length s"
  "jelems f d s = Some (vs, r) \<Longrightarrow> length r < length s"
  "jmembers f d s = Some (ms, r) \<Longrightarrow> length r < length s"
proof (induction f d s and f d s and f d s arbitrary: v r and vs r and ms r rule: jvalue_jelems_jmembers.induct)
  case (2 f d s)
  from 2(3) obtain c cs where c: "skip_ws s = c # cs" by (auto split: list.splits)
  then have len: "length cs < length s" by (rule skip_ws_Cons)
  from 2 c show ?case
    by (auto split: list.splits if_splits dest!: json_string_length json_literal_length json_number_length skip_ws_Cons
        dest: less_trans [OF _ len] le_less_trans [OF _ len]) fastforce+
qed (fastforce split: list.splits option.splits if_splits dest!: json_string_length skip_ws_Cons)+

text \<open>More fuel than needed changes nothing.\<close>

lemma parse_fuel:
  "2 * length s + 2 \<le> f \<Longrightarrow> 2 * length s + 2 \<le> g \<Longrightarrow> jvalue f d s = jvalue g d s"
  "2 * length s + 3 \<le> f \<Longrightarrow> 2 * length s + 3 \<le> g \<Longrightarrow> jelems f d s = jelems g d s"
  "2 * length s + 3 \<le> f \<Longrightarrow> 2 * length s + 3 \<le> g \<Longrightarrow> jmembers f d s = jmembers g d s"
proof (induction f d s and f d s and f d s arbitrary: g and g and g rule: jvalue_jelems_jmembers.induct)
  case (2 f d s)
  from 2(4) obtain g' where g: "g = Suc g'" by (cases g) auto
  show ?case
  proof (cases "skip_ws s")
    case Nil
    then show ?thesis by (simp add: g)
  next
    case (Cons c cs)
    show ?thesis
    proof (cases "skip_ws cs")
      case Nil
      with Cons show ?thesis by (simp add: g)
    next
      case (Cons x xs)
      note sk = \<open>skip_ws s = c # cs\<close>
      have len: "Suc (length xs) < length s"
        using skip_ws_Cons [OF sk] skip_ws_Cons [OF Cons] by simp
      have "c = CHR ''{'' \<Longrightarrow> \<not> max_depth \<le> d \<Longrightarrow> x \<noteq> CHR ''}'' \<Longrightarrow>
          jmembers f (d + 1) (x # xs) = jmembers g' (d + 1) (x # xs)"
        using 2(3,4) len g by (intro 2(1) [OF sk _ _ Cons]) auto
      moreover have "c = CHR ''['' \<Longrightarrow> \<not> max_depth \<le> d \<Longrightarrow> x \<noteq> CHR '']'' \<Longrightarrow>
          jelems f (d + 1) (x # xs) = jelems g' (d + 1) (x # xs)"
        using 2(3,4) len g by (intro 2(2) [OF sk _ _ _ Cons]) auto
      ultimately show ?thesis using sk Cons by (auto simp: g)
    qed
  qed
next
  case (4 f d s)
  from 4(4) obtain g' where g: "g = Suc g'" by (cases g) auto
  have v: "jvalue f d s = jvalue g' d s" by (rule 4(1)) (use 4(3,4) g in auto)
  show ?case
  proof (cases "jvalue g' d s")
    case None
    with v show ?thesis by (simp add: g)
  next
    case (Some xr)
    then obtain x r where xr: "jvalue g' d s = Some (x, r)" by (cases xr) auto
    have e: "jelems f d cs = jelems g' d cs" if "skip_ws r = CHR '','' # cs" for cs
      by (rule 4(2) [OF xr [folded v] refl that]) (use 4(3,4) g parse_length(1) [OF xr] skip_ws_Cons [OF that] in auto)
    show ?thesis
    proof (cases "skip_ws r")
      case Nil
      with v xr show ?thesis by (simp add: g)
    next
      case (Cons c cs)
      with v xr e show ?thesis by (auto simp: g)
    qed
  qed
next
  case (6 f d s)
  from 6(4) obtain g' where g: "g = Suc g'" by (cases g) auto
  show ?case
  proof (cases "skip_ws s")
    case Nil
    then show ?thesis by (simp add: g)
  next
    case (Cons q qs)
    note s = Cons
    show ?thesis
    proof (cases "q = quot \<and> (\<exists>k r1 r2. json_string qs = Some (k, r1) \<and> skip_ws r1 = CHR '':'' # r2)")
      case False
      with s show ?thesis by (auto simp: g split: option.split list.split)
    next
      case True
      then obtain k r1 r2 where k: "q = quot" "json_string qs = Some (k, r1)" "skip_ws r1 = CHR '':'' # r2" by blast
      have l1: "Suc (length r2) < length s"
        using json_string_length [OF k(2)] skip_ws_Cons [OF k(3)] skip_ws_Cons [OF s] by simp
      have v: "jvalue f d r2 = jvalue g' d r2"
        by (rule 6(1) [OF s _ k(2) refl k(3)]) (use 6(3,4) k g l1 in auto)
      show ?thesis
      proof (cases "jvalue g' d r2")
        case None
        with v s k show ?thesis by (simp add: g)
      next
        case (Some xr)
        then obtain x r3 where xr: "jvalue g' d r2 = Some (x, r3)" by (cases xr) auto
        have e: "jmembers f d r4 = jmembers g' d r4" if "skip_ws r3 = CHR '','' # r4" for r4
          by (rule 6(2) [OF s _ k(2) refl k(3) _ xr [folded v] refl that])
             (use 6(3,4) k g l1 parse_length(1) [OF xr] skip_ws_Cons [OF that] in auto)
        show ?thesis
        proof (cases "skip_ws r3")
          case Nil
          with v xr s k show ?thesis by (simp add: g)
        next
          case (Cons c cs)
          with v xr e s k show ?thesis by (auto simp: g)
        qed
      qed
    qed
  qed
qed auto

lemma jvalue_fuel: "json_fuel s \<le> f \<Longrightarrow> jvalue f d s = jvalue (json_fuel s) d s"
  by (rule parse_fuel(1)) (simp_all add: json_fuel_def)

lemmas parse_steps = jvalue.simps(2) jelems.simps(2) jmembers.simps(2)
declare parse_steps [simp del]

lemma parse_Suc:
  "jvalue f d s = Some x \<Longrightarrow> jvalue (Suc f) d s = Some x"
  "jelems f d s = Some xs \<Longrightarrow> jelems (Suc f) d s = Some xs"
  "jmembers f d s = Some ms \<Longrightarrow> jmembers (Suc f) d s = Some ms"
proof (induction f d s and f d s and f d s arbitrary: x and xs and ms rule: jvalue_jelems_jmembers.induct)
  case (2 f d s)
  then obtain c cs where c: "skip_ws s = c # cs" by (auto simp: parse_steps split: list.splits)
  show ?case
    unfolding jvalue.simps(2) [of "Suc f"] using 2 c
    by (auto simp: jvalue.simps(2) [of f] split: list.splits if_splits)
next
  case (4 f d s)
  then obtain v r c cs where v: "jvalue f d s = Some (v, r)" "skip_ws r = c # cs"
    by (auto simp: parse_steps split: list.splits option.splits)
  with 4 have "jvalue (Suc f) d s = Some (v, r)" by blast
  with 4 v show ?case
    unfolding jelems.simps(2) [of "Suc f"] by (auto simp: jelems.simps(2) [of f] split: if_splits)
next
  case (6 f d s)
  then obtain q qs k r1 c r2 v r3 e r4 where v: "skip_ws s = q # qs" "json_string qs = Some (k, r1)" "skip_ws r1 = c # r2"
      "q = quot" "c = CHR '':''" "jvalue f d r2 = Some (v, r3)" "skip_ws r3 = e # r4"
    by (auto simp: parse_steps split: list.splits option.splits if_splits)
  with 6 have "jvalue (Suc f) d r2 = Some (v, r3)" by simp
  with 6 v show ?case
    unfolding jmembers.simps(2) [of "Suc f"] by (auto simp: jmembers.simps(2) [of f] split: if_splits)
qed auto

section \<open>The encoder\<close>

definition hex_lower :: "nat \<Rightarrow> char" where
  "hex_lower n = ''0123456789abcdef'' ! n"

text \<open>A byte below 0x80: control characters and \<open><\<close>, \<open>>\<close>, \<open>&\<close> are escaped.\<close>

definition escape_byte :: "char \<Rightarrow> string" where
  "escape_byte c =
     (if c = quot \<or> c = bslash then [bslash, c]
      else if c = CHR 0x08 then [bslash, CHR ''b''] else if c = CHR 0x0C then [bslash, CHR ''f'']
      else if c = CHR 0x0A then [bslash, CHR ''n''] else if c = CHR 0x0D then [bslash, CHR ''r'']
      else if c = CHR 0x09 then [bslash, CHR ''t'']
      else if byte c < 0x20 \<or> c \<in> set ''<>&''
      then [bslash, CHR ''u'', CHR ''0'', CHR ''0'', hex_lower (byte c div 16), hex_lower (byte c mod 16)]
      else [c])"

function json_escape :: "string \<Rightarrow> string" where
  "json_escape [] = []"
| "json_escape (c # cs) =
     (let (r, w) = decode_rune c cs in
      (if byte c < 0x80 then escape_byte c
       else if r = rune_error \<and> w = 1 then bslash # ''ufffd''
       else if r = 0x2028 then bslash # ''u2028'' else if r = 0x2029 then bslash # ''u2029''
       else c # take (w - 1) cs) @ json_escape (drop (w - 1) cs))"
  by pat_completeness auto
termination
  by (relation "measure length") auto

definition json_quote :: "string \<Rightarrow> string" where
  "json_quote s = quot # json_escape s @ [quot]"

primrec json_print :: "json \<Rightarrow> string" where
  "json_print JNull = ''null''"
| "json_print (JBool b) = (if b then ''true'' else ''false'')"
| "json_print (JNum n) = n"
| "json_print (JStr s) = json_quote s"
| "json_print (JArr js) = ''['' @ join_with '','' (map json_print js) @ '']''"
| "json_print (JObj ms) = ''{'' @ join_with '','' (map (\<lambda>(k, v). json_quote k @ '':'' @ v) (map (map_prod id json_print) ms)) @ ''}''"

section \<open>Printing and parsing\<close>

text \<open>A well-formed UTF-8 string, by the decoder of runes.\<close>

function utf8_valid :: "string \<Rightarrow> bool" where
  "utf8_valid [] \<longleftrightarrow> True"
| "utf8_valid (c # cs) \<longleftrightarrow>
     (let (r, w) = decode_rune c cs in \<not> (r = rune_error \<and> w = 1) \<and> utf8_valid (drop (w - 1) cs))"
  by pat_completeness auto
termination
  by (relation "measure length") auto

lemma utf8_valid_ascii: "\<forall>c \<in> set s. byte c < 128 \<Longrightarrow> utf8_valid s"
  by (induction s) (auto simp: decode_rune_ascii rune_error_def)

text \<open>A decoded rune depends on its own bytes only.\<close>

lemma decode_rune_local:
  assumes "decode_rune c cs = (r, w)" and "\<not> (r = rune_error \<and> w = 1)"
  shows "w - 1 \<le> length cs \<and> decode_rune c (take (w - 1) cs @ post) = (r, w)"
  using assms unfolding decode_rune_def Let_def
  by (auto split: prod.splits if_splits list.splits)

lemma decode_rune_multi:
  assumes "decode_rune c cs = (r, w)" and "\<not> byte c < 0x80" and "\<not> (r = rune_error \<and> w = 1)"
  shows "1 < w"
  using assms unfolding decode_rune_def Let_def
  by (auto split: prod.splits if_splits list.splits)

lemma char_byte: "byte c = n \<Longrightarrow> c = char_of n"
  by auto

lemma three_bytes:
  fixes b x y :: nat
  assumes "224 \<le> b" "128 \<le> x" "x \<le> 191" "128 \<le> y" "y \<le> 191"
    and "(b - 224) * 4096 + (x - 128) * 64 + (y - 128) = n" and "n = 8232 \<or> n = 8233"
  shows "b = 226 \<and> x = 128 \<and> y + 8064 = n"
proof -
  define B X Y where "B = b - 224" "X = x - 128" "Y = y - 128"
  then have eq: "B * 4096 + X * 64 + Y = n" "X < 64" "Y < 64" using assms by auto
  then have "1 < B" "B < 3" using assms(7) by linarith+
  then have B: "B = 2" by simp
  with eq assms(7) have "X < 1" by linarith
  then have "X = 0" by simp
  with eq B \<open>B = b - 224\<close> \<open>X = x - 128\<close> \<open>Y = y - 128\<close> assms(1-5) show ?thesis by linarith
qed

lemma decode_rune_separator:
  assumes "decode_rune c cs = (r, w)" and "\<not> byte c < 0x80" and "r = 0x2028 \<or> r = 0x2029"
  shows "w = 3 \<and> c # take 2 cs = encode_rune r"
proof -
  have "w = 3 \<and> (\<exists>c1 c2 t. cs = c1 # c2 # t \<and> 224 \<le> byte c \<and> 128 \<le> byte c1 \<and> byte c1 \<le> 191 \<and>
      128 \<le> byte c2 \<and> byte c2 \<le> 191 \<and> (byte c - 224) * 4096 + (byte c1 - 128) * 64 + (byte c2 - 128) = r)"
    using assms unfolding decode_rune_def Let_def second_range_def is_cont_def
    by (auto simp: rune_error_def split: prod.splits if_splits list.splits)
  then obtain c1 c2 t where c: "w = 3" "cs = c1 # c2 # t" "224 \<le> byte c" "128 \<le> byte c1" "byte c1 \<le> 191"
      "128 \<le> byte c2" "byte c2 \<le> 191" "(byte c - 224) * 4096 + (byte c1 - 128) * 64 + (byte c2 - 128) = r" by blast
  from three_bytes [OF c(3-8) assms(3)] have "c = char_of (226::nat)" "c1 = char_of (128::nat)" "c2 = char_of (r - 8064)"
    by (auto intro!: char_byte)
  with c(1,2) assms(3) show ?thesis by (auto simp: encode_rune_def)
qed

lemma hex_lower_val: "n < 16 \<Longrightarrow> hex_val (hex_lower n) = Some n"
proof -
  assume "n < 16"
  have "list_all (\<lambda>n. hex_val (hex_lower n) = Some n) [0..<16]" by code_simp
  with \<open>n < 16\<close> show ?thesis by (simp add: list_all_iff)
qed

lemma json_string_byte:
  assumes "byte c < 0x80"
  shows "json_string (escape_byte c @ s) = map_option (apfst (Cons c)) (json_string s)"
proof -
  have hex: "hex4 (CHR ''0'') (CHR ''0'') (hex_lower (byte c div 16)) (hex_lower (byte c mod 16)) = Some (byte c)"
    using assms hex_lower_val [of "byte c div 16"] hex_lower_val [of "byte c mod 16"]
    by (auto simp: hex4_def hex_val_def is_digit_def)
  have enc: "encode_rune (byte c) = [c]" using assms by (simp add: encode_rune_def)
  have ap: "append [x] = Cons x" for x :: char by (rule ext) simp
  show ?thesis
  proof (cases "c \<in> {quot, bslash, CHR 0x08, CHR 0x0C, CHR 0x0A, CHR 0x0D, CHR 0x09}")
    case True
    then show ?thesis by (auto simp: escape_byte_def unescape_char_def ap)
  next
    case False
    show ?thesis
    proof (cases "byte c < 0x20 \<or> c \<in> set ''<>&''")
      case True
      then have "escape_byte c = [bslash, CHR ''u'', CHR ''0'', CHR ''0'', hex_lower (byte c div 16), hex_lower (byte c mod 16)]"
        using False unfolding escape_byte_def by auto
      then show ?thesis using hex enc assms by (simp add: ap)
    next
      case plain: False
      then have "escape_byte c = [c]" using False unfolding escape_byte_def by auto
      then show ?thesis using assms False plain by (simp add: decode_rune_ascii rune_error_def ap)
    qed
  qed
qed

lemma json_string_separator:
  "json_string (bslash # ''u2028'' @ s) = map_option (apfst (append (encode_rune 0x2028))) (json_string s)"
  "json_string (bslash # ''u2029'' @ s) = map_option (apfst (append (encode_rune 0x2029))) (json_string s)"
  by (simp_all add: hex4_def hex_val_def is_digit_def)

text \<open>What is escaped is read back, whatever follows the closing quote.\<close>

lemma json_string_escape: "utf8_valid x \<Longrightarrow> json_string (json_escape x @ quot # s) = Some (x, s)"
proof (induction x rule: json_escape.induct)
  case 1
  then show ?case by simp
next
  case (2 c cs)
  obtain r w where rw: "decode_rune c cs = (r, w)" by (cases "decode_rune c cs")
  with 2(2) have ok: "\<not> (r = rune_error \<and> w = 1)" "utf8_valid (drop (w - 1) cs)" by auto
  have IH: "json_string (json_escape (drop (w - 1) cs) @ quot # s) = Some (drop (w - 1) cs, s)"
    using 2(1) [OF rw [symmetric] refl ok(2)] .
  show ?case
  proof (cases "byte c < 0x80")
    case True
    with rw have "w = 1" by (simp add: decode_rune_ascii)
    with True rw IH json_string_byte [OF True] show ?thesis by simp
  next
    case False
    have w: "1 < w" by (rule decode_rune_multi [OF rw False ok(1)])
    consider (sep) "r = 0x2028 \<or> r = 0x2029" | (plain) "r \<noteq> 0x2028" "r \<noteq> 0x2029" by blast
    then show ?thesis
    proof cases
      case sep
      then have "w = 3" "c # take 2 cs = encode_rune r" using decode_rune_separator [OF rw False] by auto
      then have cs: "encode_rune r @ drop 2 cs = c # cs" by (metis append_Cons append_take_drop_id)
      have ne: "rune_error \<noteq> 0x2028" "rune_error \<noteq> 0x2029" by (simp_all add: rune_error_def)
      from sep show ?thesis
      proof
        assume "r = 0x2028"
        then show ?thesis using rw False ok cs IH ne \<open>w = 3\<close>
          by (simp add: json_string_separator(1) [simplified])
      next
        assume "r = 0x2029"
        then show ?thesis using rw False ok cs IH ne \<open>w = 3\<close>
          by (simp add: json_string_separator(2) [simplified])
      qed
    next
      case plain
      have loc: "decode_rune c (take (w - 1) cs @ json_escape (drop (w - 1) cs) @ quot # s) = (r, w)"
        "w - 1 \<le> length cs"
        using decode_rune_local [OF rw ok(1)] by auto
      have nq: "c \<noteq> quot" "c \<noteq> bslash" using False by auto
      have len: "length (take (w - 1) cs) = w - 1" using loc(2) by simp
      have "json_string (json_escape (c # cs) @ quot # s) =
          json_string (c # take (w - 1) cs @ json_escape (drop (w - 1) cs) @ quot # s)"
        using rw False ok plain w by (simp del: json_string.simps)
      also have "\<dots> = map_option (apfst (append (c # take (w - 1) cs))) (json_string (json_escape (drop (w - 1) cs) @ quot # s))"
        using nq False loc(1) ok(1) len w by (subst json_string.simps(2)) (simp add: Let_def)
      also have "\<dots> = Some (c # cs, s)" using IH by simp
      finally show ?thesis .
    qed
  qed
qed

lemma json_string_quote: "utf8_valid x \<Longrightarrow> json_string (tl (json_quote x) @ s) = Some (x, s)"
  by (simp add: json_quote_def json_string_escape)

text \<open>What may follow a value: a delimiter or white space.\<close>

definition json_end :: "string \<Rightarrow> bool" where
  "json_end s \<longleftrightarrow> (case s of [] \<Rightarrow> True | c # _ \<Rightarrow> c = CHR '','' \<or> c = CHR '']'' \<or> c = CHR ''}'' \<or> json_ws c)"

lemma decimal_nat_digits: "list_all is_digit (decimal_nat n)"
proof (induction n rule: decimal_nat.induct)
  case (1 n)
  show ?case by (subst decimal_nat.simps) (use 1 in \<open>auto simp: is_digit_def list_all_iff\<close>)
qed

lemma decimal_nat_head: "10 \<le> n \<Longrightarrow> byte (hd (decimal_nat n)) \<noteq> 48"
proof (induction n rule: decimal_nat.induct)
  case (1 n)
  then have eq: "decimal_nat n = decimal_nat (n div 10) @ [char_of (48 + n mod 10)]"
    by (subst decimal_nat.simps) simp
  show ?case
  proof (cases "n div 10 < 10")
    case True
    then have "decimal_nat (n div 10) = [char_of (48 + n div 10)]" by (subst decimal_nat.simps) simp
    moreover have "0 < n div 10" using 1(2) by simp
    ultimately show ?thesis using eq True by simp
  next
    case False
    then have "byte (hd (decimal_nat (n div 10))) \<noteq> 48" using 1 by simp
    then show ?thesis using eq by simp
  qed
qed

lemma json_end_number: "json_end s \<Longrightarrow> json_fraction acc s = Some (acc, s) \<and> takeWhile is_digit s = [] \<and> dropWhile is_digit s = s"
proof (cases s)
  case (Cons c cs)
  assume "json_end s"
  with Cons have c: "c = CHR '','' \<or> c = CHR '']'' \<or> c = CHR ''}'' \<or> json_ws c" by (simp add: json_end_def)
  then have "\<not> is_digit c" "c \<noteq> CHR ''.''" "c \<noteq> CHR ''e''" "c \<noteq> CHR ''E''" by (auto simp: is_digit_def json_ws_def)
  with Cons show ?thesis by (simp add: json_fraction_def json_exponent_def)
qed (simp add: json_fraction_def json_exponent_def)

lemma json_number_nat:
  assumes "json_end s"
  shows "json_number (decimal_nat n @ s) = Some (decimal_nat n, s)"
    "json_number (CHR ''-'' # decimal_nat n @ s) = Some (CHR ''-'' # decimal_nat n, s)"
proof -
  obtain d ds where dec: "decimal_nat n = d # ds" by (cases "decimal_nat n") auto
  have dig: "is_digit d" "list_all is_digit ds" using decimal_nat_digits [of n] dec by auto
  have sign: "d \<noteq> CHR ''-''" using dig(1) by (auto simp: is_digit_def)
  have tw: "takeWhile is_digit (ds @ s) = ds" "dropWhile is_digit (ds @ s) = s"
    using dig(2) json_end_number [OF assms] by (simp_all add: list_all_iff)
  have zero: "ds = []" if "d = CHR ''0''"
  proof (cases "n < 10")
    case True
    then have "decimal_nat n = [char_of (48 + n)]" by (subst decimal_nat.simps) simp
    with dec show ?thesis by simp
  next
    case False
    with decimal_nat_head [of n] dec that show ?thesis by simp
  qed
  show "json_number (decimal_nat n @ s) = Some (decimal_nat n, s)"
    using sign dig tw zero json_end_number [OF assms] by (auto simp: json_number_def Let_def dec)
  show "json_number (CHR ''-'' # decimal_nat n @ s) = Some (CHR ''-'' # decimal_nat n, s)"
    using dig tw zero json_end_number [OF assms] by (auto simp: json_number_def Let_def dec)
qed

lemma json_number_decimal: "json_end s \<Longrightarrow> json_number (decimal i @ s) = Some (decimal i, s)"
  by (simp add: decimal_def json_number_nat)

lemma decimal_head: "\<exists>c cs. decimal i = c # cs \<and> (is_digit c \<or> c = CHR ''-'')"
proof (cases "i < 0")
  case False
  obtain c cs where "decimal_nat (nat i) = c # cs" by (cases "decimal_nat (nat i)") auto
  with False decimal_nat_digits [of "nat i"] show ?thesis by (auto simp: decimal_def)
qed (simp add: decimal_def)

section \<open>The round trip of values\<close>

text \<open>What the encoder is given: well-formed strings, integers, and no deeper nesting than the scanner takes.\<close>

primrec json_plain :: "json \<Rightarrow> bool" where
  "json_plain JNull \<longleftrightarrow> True"
| "json_plain (JBool b) \<longleftrightarrow> True"
| "json_plain (JNum n) \<longleftrightarrow> (\<exists>i. n = decimal i)"
| "json_plain (JStr s) \<longleftrightarrow> utf8_valid s"
| "json_plain (JArr js) \<longleftrightarrow> list_all id (map json_plain js)"
| "json_plain (JObj ms) \<longleftrightarrow> list_all (\<lambda>(k, p). utf8_valid k \<and> p) (map (map_prod id json_plain) ms)"

primrec json_depth :: "json \<Rightarrow> nat" where
  "json_depth JNull = 0"
| "json_depth (JBool b) = 0"
| "json_depth (JNum n) = 0"
| "json_depth (JStr s) = 0"
| "json_depth (JArr js) = Suc (foldr max (map json_depth js) 0)"
| "json_depth (JObj ms) = Suc (foldr max (map snd (map (map_prod id json_depth) ms)) 0)"

lemma foldr_max: "x \<in> set xs \<Longrightarrow> x \<le> foldr max xs (0 :: nat)"
  by (induction xs) auto

text \<open>The first byte of a printed value is neither white space nor a closing bracket or brace.\<close>

lemma json_print_head:
  "json_plain j \<Longrightarrow> \<exists>c cs. json_print j = c # cs \<and> \<not> json_ws c \<and> c \<noteq> CHR '']'' \<and> c \<noteq> CHR ''}''"
  using decimal_head by (cases j) (fastforce simp: json_ws_def json_quote_def is_digit_def)+

lemma skip_ws_head: "\<not> json_ws c \<Longrightarrow> skip_ws (c # cs) = c # cs"
  by (simp add: skip_ws_def)

lemma parse_more:
  assumes "f \<le> g"
  shows "jvalue f d s = Some x \<Longrightarrow> jvalue g d s = Some x"
    "jelems f d s = Some xs \<Longrightarrow> jelems g d s = Some xs"
    "jmembers f d s = Some ms \<Longrightarrow> jmembers g d s = Some ms"
  using assms by (induction rule: dec_induct) (auto intro: parse_Suc)

text \<open>\<open>reads d t x\<close>: with some fuel, the printed \<open>t\<close> before a delimiter is read as \<open>x\<close>.\<close>

definition reads :: "int \<Rightarrow> string \<Rightarrow> json \<Rightarrow> bool" where
  "reads d t j \<longleftrightarrow> (\<forall>s. json_end s \<longrightarrow> (\<exists>f. jvalue f d (t @ s) = Some (j, s)))"

lemma jelems_print:
  assumes "js \<noteq> []" and "\<forall>j \<in> set js. reads d (json_print j) j"
  shows "\<exists>f. jelems f d (join_with '','' (map json_print js) @ CHR '']'' # s) = Some (js, s)"
  using assms
proof (induction js rule: induct_list012)
  case (2 j)
  then obtain f where "jvalue f d (json_print j @ CHR '']'' # s) = Some (j, CHR '']'' # s)"
    by (auto simp: reads_def json_end_def dest!: spec [of _ "CHR '']'' # s"])
  then have "jelems (Suc f) d (json_print j @ CHR '']'' # s) = Some ([j], s)"
    by (simp add: parse_steps skip_ws_head json_ws_def)
  then show ?case by auto
next
  case (3 j k js)
  let ?t = "join_with '','' (map json_print (k # js)) @ CHR '']'' # s"
  obtain f where f: "jvalue f d (json_print j @ CHR '','' # ?t) = Some (j, CHR '','' # ?t)"
    using 3(4) by (auto simp: reads_def json_end_def simp del: join_with.simps dest!: spec [of _ "CHR '','' # ?t"])
  obtain g where g: "jelems g d ?t = Some (k # js, s)" using 3 by auto
  have "jelems (Suc (max f g)) d (json_print j @ CHR '','' # ?t) = Some (j # k # js, s)"
    using parse_more(1) [OF max.cobounded1 f, of g] parse_more(2) [OF max.cobounded2 g, of f]
    by (simp add: parse_steps skip_ws_head json_ws_def)
  then show ?case by (intro exI [of _ "Suc (max f g)"]) simp
qed simp

abbreviation print_member :: "string \<times> json \<Rightarrow> string" where
  "print_member m \<equiv> json_quote (fst m) @ '':'' @ json_print (snd m)"

lemma jmembers_print:
  assumes "ms \<noteq> []" and "\<forall>m \<in> set ms. utf8_valid (fst m) \<and> reads d (json_print (snd m)) (snd m)"
  shows "\<exists>f. jmembers f d (join_with '','' (map print_member ms) @ CHR ''}'' # s) = Some (ms, s)"
  using assms
proof (induction ms rule: induct_list012)
  case (2 m)
  then obtain f where "jvalue f d (json_print (snd m) @ CHR ''}'' # s) = Some (snd m, CHR ''}'' # s)"
    by (auto simp: reads_def json_end_def dest!: spec [of _ "CHR ''}'' # s"])
  then have "jmembers (Suc f) d (print_member m @ CHR ''}'' # s) = Some ([m], s)"
    using 2 by (simp add: parse_steps skip_ws_head json_ws_def json_quote_def json_string_escape)
  then show ?case by auto
next
  case (3 m n ms)
  let ?t = "join_with '','' (map print_member (n # ms)) @ CHR ''}'' # s"
  obtain f where f: "jvalue f d (json_print (snd m) @ CHR '','' # ?t) = Some (snd m, CHR '','' # ?t)"
    using 3(4) by (auto simp: reads_def json_end_def simp del: join_with.simps dest!: spec [of _ "CHR '','' # ?t"])
  obtain g where g: "jmembers g d ?t = Some (n # ms, s)" using 3 by auto
  have "jmembers (Suc (max f g)) d (print_member m @ CHR '','' # ?t) = Some (m # n # ms, s)"
    using parse_more(1) [OF max.cobounded1 f, of g] parse_more(3) [OF max.cobounded2 g, of f] 3(4)
    by (simp add: parse_steps skip_ws_head json_ws_def json_quote_def json_string_escape)
  then show ?case by (intro exI [of _ "Suc (max f g)"]) simp
qed simp

lemma join_head: "ts \<noteq> [] \<Longrightarrow> hd ts = c # cs \<Longrightarrow> \<exists>cs'. join_with sep ts = c # cs'"
  by (induction sep ts rule: join_with.induct) auto

lemma jvalue_print:
  "json_plain j \<Longrightarrow> d + int (json_depth j) \<le> max_depth \<Longrightarrow> reads d (json_print j) j"
proof (induction j arbitrary: d)
  case JNull
  show ?case unfolding reads_def
    by (intro allI impI exI [of _ 1]) (simp add: parse_steps skip_ws_head json_ws_def json_literal_def CutPrefix_def)
next
  case (JBool b)
  show ?case unfolding reads_def
    by (intro allI impI exI [of _ 1]) (simp add: parse_steps skip_ws_head json_ws_def json_literal_def CutPrefix_def)
next
  case (JNum n)
  then obtain i where n: "n = decimal i" by auto
  obtain c cs where c: "decimal i = c # cs" "is_digit c \<or> c = CHR ''-''" using decimal_head by blast
  show ?case unfolding reads_def
  proof (intro allI impI exI [of _ 1])
    fix s assume "json_end s"
    then have "json_number (c # cs @ s) = Some (c # cs, s)" using json_number_decimal [of s i] c by simp
    moreover have "\<not> json_ws c" "c \<notin> {CHR ''{'', CHR ''['', quot, CHR ''t'', CHR ''f'', CHR ''n''}"
      using c(2) by (auto simp: json_ws_def is_digit_def)
    ultimately show "jvalue 1 d (json_print (JNum n) @ s) = Some (JNum n, s)"
      using c(1) by (simp add: parse_steps n skip_ws_head)
  qed
next
  case (JStr x)
  then show ?case unfolding reads_def
    by (intro allI impI exI [of _ 1])
       (simp add: parse_steps skip_ws_head json_ws_def json_quote_def json_string_escape)
next
  case (JArr js)
  show ?case
  proof (cases "js = []")
    case True
    have "d < max_depth" using JArr.prems by simp
    with True show ?thesis unfolding reads_def
      by (intro allI impI exI [of _ 1]) (simp add: parse_steps skip_ws_head json_ws_def)
  next
    case False
    have each: "json_plain j \<and> reads (d + 1) (json_print j) j" if "j \<in> set js" for j
    proof -
      have "json_plain j" using JArr.prems(1) that by (auto simp: list_all_iff)
      moreover have "json_depth j \<le> foldr max (map json_depth js) 0" using that by (intro foldr_max) auto
      ultimately show ?thesis using JArr.IH [OF that, of "d + 1"] JArr.prems(2) by simp
    qed
    obtain c cs where c: "json_print (hd js) = c # cs" "\<not> json_ws c" "c \<noteq> CHR '']''"
      using json_print_head each False by (meson list.set_sel(1))
    obtain cs' where j: "join_with '','' (map json_print js) = c # cs'"
      using join_head [of "map json_print js" c cs] False c(1) by (auto simp: hd_map)
    show ?thesis unfolding reads_def
    proof (intro allI impI)
      fix s
      obtain f where f: "jelems f (d + 1) (join_with '','' (map json_print js) @ CHR '']'' # s) = Some (js, s)"
        using jelems_print False each by blast
      have "d < max_depth" using JArr.prems by simp
      then have "jvalue (Suc f) d (json_print (JArr js) @ s) = Some (JArr js, s)"
        using f c j by (simp add: parse_steps skip_ws_head json_ws_def)
      then show "\<exists>f. jvalue f d (json_print (JArr js) @ s) = Some (JArr js, s)" by blast
    qed
  qed
next
  case (JObj ms)
  have eq: "json_print (JObj ms) = ''{'' @ join_with '','' (map print_member ms) @ ''}''"
    by (simp add: case_prod_unfold comp_def)
  show ?case
  proof (cases "ms = []")
    case True
    have "d < max_depth" using JObj.prems by simp
    with True show ?thesis unfolding reads_def
      by (intro allI impI exI [of _ 1]) (simp add: parse_steps skip_ws_head json_ws_def)
  next
    case False
    have each: "utf8_valid (fst m) \<and> reads (d + 1) (json_print (snd m)) (snd m)" if m: "m \<in> set ms" for m
    proof -
      have "utf8_valid (fst m)" "json_plain (snd m)"
        using JObj.prems(1) m by (auto simp: list_all_iff case_prod_unfold)
      moreover have "json_depth (snd m) \<le> foldr max (map snd (map (map_prod id json_depth) ms)) 0"
        using m by (intro foldr_max) (force simp: image_iff)
      moreover have "snd m \<in> Basic_BNFs.snds m" by (simp add: prod_set_defs)
      ultimately show ?thesis using JObj.IH [OF m, of "snd m" "d + 1"] JObj.prems(2) by simp
    qed
    obtain cs' where j: "join_with '','' (map print_member ms) = quot # cs'"
      using join_head [of "map print_member ms" quot] False by (auto simp: hd_map json_quote_def)
    show ?thesis unfolding reads_def
    proof (intro allI impI)
      fix s
      obtain f where f: "jmembers f (d + 1) (join_with '','' (map print_member ms) @ CHR ''}'' # s) = Some (ms, s)"
        using jmembers_print False each by blast
      have "d < max_depth" using JObj.prems by simp
      then have "jvalue (Suc f) d (json_print (JObj ms) @ s) = Some (JObj ms, s)"
        unfolding eq using f j by (simp add: parse_steps skip_ws_head json_ws_def)
      then show "\<exists>f. jvalue f d (json_print (JObj ms) @ s) = Some (JObj ms, s)" by blast
    qed
  qed
qed

text \<open>Decoding reads back what was encoded, up to what follows it.\<close>

lemma json_decode_print:
  assumes "json_plain j" and "int (json_depth j) \<le> max_depth" and "json_end s"
  shows "json_decode (json_print j @ s) = Some (j, s)"
proof -
  obtain f where "jvalue f 0 (json_print j @ s) = Some (j, s)"
    using jvalue_print [of j 0] assms unfolding reads_def by auto
  then have "jvalue (max f (json_fuel (json_print j @ s))) 0 (json_print j @ s) = Some (j, s)"
    by (rule parse_more(1) [OF max.cobounded1])
  then show ?thesis
    using jvalue_fuel [of "json_print j @ s" "max f (json_fuel (json_print j @ s))"] by (simp add: json_decode_def)
qed

lemma json_whole_print:
  "json_plain j \<Longrightarrow> int (json_depth j) \<le> max_depth \<Longrightarrow> json_whole (json_print j) = Some j"
  using json_decode_print [of j "[]"] by (simp add: json_whole_def json_end_def skip_ws_def)

section \<open>Streams of values\<close>

text \<open>\<open>Decoder.Decode\<close> called until it fails, on an input of values one after the other.\<close>

function json_stream :: "string \<Rightarrow> json list" where
  "json_stream s = (case json_decode s of None \<Rightarrow> [] | Some (j, rest) \<Rightarrow> j # json_stream rest)"
  by pat_completeness auto
termination
  by (relation "measure length") (auto simp: json_decode_def dest: parse_length)

declare json_stream.simps [simp del]

lemma json_decode_ws:
  assumes "json_ws c"
  shows "json_decode (c # s) = json_decode s"
proof -
  have ws: "skip_ws (c # s) = skip_ws s" using assms by (simp add: skip_ws_def)
  have "jvalue (Suc f) 0 (c # s) = jvalue (Suc f) 0 s" for f
    by (simp only: jvalue.simps(2) ws)
  then have "jvalue (json_fuel (c # s)) 0 (c # s) = jvalue (json_fuel (c # s)) 0 s"
    by (simp add: json_fuel_def)
  also have "\<dots> = jvalue (json_fuel s) 0 s"
    by (rule jvalue_fuel) (simp add: json_fuel_def)
  finally show ?thesis by (simp add: json_decode_def)
qed

text \<open>A stream of values printed one to a line is read back, up to a line that is no value.\<close>

lemma json_stream_lines:
  assumes "\<forall>j \<in> set js. json_plain j \<and> int (json_depth j) \<le> max_depth"
  shows "json_stream (concat (map (\<lambda>j. json_print j @ [CHR 0x0A]) js) @ rest) = js @ json_stream rest"
  using assms
proof (induction js)
  case (Cons j js)
  let ?rest = "concat (map (\<lambda>j. json_print j @ [CHR 0x0A]) js) @ rest"
  have nl: "json_ws (CHR 0x0A)" by (simp add: json_ws_def)
  have "json_decode (json_print j @ CHR 0x0A # ?rest) = Some (j, CHR 0x0A # ?rest)"
    using Cons.prems by (intro json_decode_print) (auto simp: json_end_def nl)
  then have "json_stream (concat (map (\<lambda>j. json_print j @ [CHR 0x0A]) (j # js)) @ rest) = j # json_stream (CHR 0x0A # ?rest)"
    by (subst json_stream.simps) simp
  also have "json_stream (CHR 0x0A # ?rest) = json_stream ?rest"
    by (subst (1 2) json_stream.simps) (simp add: json_decode_ws [OF nl])
  finally show ?case using Cons by simp
qed simp

end
