(* ===== verification/Go_Json_Struct.thy ===== *)
theory Go_Json_Struct
  imports Go_Json
begin

text \<open>
  The reflective half of \<open>encoding/json\<close>: decoding a JSON value into a typed Go value that is
  already there, and encoding a typed value.  \<open>schema\<close> describes the types the program decodes
  (a struct with its tags and \<open>omitempty\<close> marks), \<open>gv\<close> their values.  A slice keeps its backing
  elements beyond its length, because a second occurrence of its key decodes over them; a nil
  slice and an empty one are not told apart, nor are a nil map and an empty one.
\<close>

datatype schema =
    SStr
  | SInt
  | SMap
  | SSlice schema
  | SPtr schema
  | SStruct "(string \<times> bool \<times> schema) list"

datatype gv =
    GStr string
  | GInt int
  | GMap "string \<rightharpoonup> string"
  | GSlice "gv list" nat
  | GNil
  | GPtr gv
  | GStruct "gv list"

primrec zero :: "schema \<Rightarrow> gv" where
  "zero SStr = GStr []"
| "zero SInt = GInt 0"
| "zero SMap = GMap Map.empty"
| "zero (SSlice t) = GSlice [] 0"
| "zero (SPtr t) = GNil"
| "zero (SStruct fs) = GStruct (map (\<lambda>(n, om, z). z) (map (map_prod id (map_prod id zero)) fs))"

section \<open>Decoding\<close>

text \<open>Matching of keys: the exact name first, then Unicode's simple folding.  Of the runes that
  are not ASCII only the long s and the Kelvin sign fold to a letter of a tag.\<close>

definition fold_rune :: "nat \<Rightarrow> nat" where
  "fold_rune r = (if 97 \<le> r \<and> r \<le> 122 then r - 32 else if r = 0x17F then 83 else if r = 0x212A then 75 else r)"

definition fold_name :: "string \<Rightarrow> nat list" where
  "fold_name s = map fold_rune (runes s)"

fun first_index :: "('a \<Rightarrow> bool) \<Rightarrow> 'a list \<Rightarrow> nat option" where
  "first_index P [] = None"
| "first_index P (x # xs) = (if P x then Some 0 else map_option Suc (first_index P xs))"

definition field_index :: "string list \<Rightarrow> string \<Rightarrow> nat option" where
  "field_index names k =
     (case first_index (\<lambda>n. n = k) names of Some i \<Rightarrow> Some i
      | None \<Rightarrow> first_index (\<lambda>n. fold_name n = fold_name k) names)"

text \<open>\<open>strconv.ParseInt(s, 10, 64)\<close> on a JSON number.\<close>

definition int64_ok :: "int \<Rightarrow> bool" where
  "int64_ok i \<longleftrightarrow> - (2 ^ 63) \<le> i \<and> i < 2 ^ 63"

definition parse_int64 :: "string \<Rightarrow> int option" where
  "parse_int64 s =
     (let neg = HasPrefix s ''-''; ds = (if neg then drop 1 s else s);
          i = (if neg then - int (of_decimal ds) else int (of_decimal ds)) in
      if ds \<noteq> [] \<and> list_all is_digit ds \<and> int64_ok i then Some i else None)"

text \<open>The value behind the pointers, allocated where they are nil.\<close>

fun peel :: "schema \<Rightarrow> gv \<Rightarrow> schema \<times> gv \<times> (gv \<Rightarrow> gv)" where
  "peel (SPtr t) v =
     (case peel t (case v of GPtr w \<Rightarrow> w | _ \<Rightarrow> zero t) of (t', v', wrap) \<Rightarrow> (t', v', GPtr \<circ> wrap))"
| "peel s v = (s, v, id)"

type_synonym decoder = "schema \<Rightarrow> gv \<Rightarrow> gv option"

text \<open>Elements are decoded over the backing elements that are there.\<close>

fun slice_into :: "decoder list \<Rightarrow> schema \<Rightarrow> gv list \<Rightarrow> gv list option" where
  "slice_into [] t bs = Some bs"
| "slice_into (f # fs) t bs =
     (case f t (case bs of [] \<Rightarrow> zero t | b # _ \<Rightarrow> b) of None \<Rightarrow> None | Some x \<Rightarrow>
        map_option (Cons x) (slice_into fs t (tl bs)))"

fun struct_into :: "bool \<Rightarrow> (string \<times> bool \<times> schema) list \<Rightarrow> (string \<times> decoder) list \<Rightarrow> gv list \<Rightarrow> gv list option" where
  "struct_into strict fs [] vs = Some vs"
| "struct_into strict fs ((k, f) # ms) vs =
     (case field_index (map fst fs) k of
        None \<Rightarrow> if strict then None else struct_into strict fs ms vs
      | Some i \<Rightarrow> (case f (snd (snd (fs ! i))) (vs ! i) of None \<Rightarrow> None
          | Some v \<Rightarrow> struct_into strict fs ms (vs[i := v])))"

fun map_into :: "(string \<times> decoder) list \<Rightarrow> (string \<rightharpoonup> string) \<Rightarrow> (string \<rightharpoonup> string) option" where
  "map_into [] m = Some m"
| "map_into ((k, f) # ms) m =
     (case f SStr (GStr []) of Some (GStr x) \<Rightarrow> map_into ms (m(k \<mapsto> x)) | _ \<Rightarrow> None)"

text \<open>An error is saved and decoding goes on, but the call then fails: \<open>None\<close>.  \<open>strict\<close> is
  \<open>DisallowUnknownFields\<close>.\<close>

primrec json_into :: "bool \<Rightarrow> json \<Rightarrow> decoder" where
  "json_into strict JNull = (\<lambda>s v. Some (case s of SSlice _ \<Rightarrow> GSlice [] 0 | SPtr _ \<Rightarrow> GNil | SMap \<Rightarrow> GMap Map.empty | _ \<Rightarrow> v))"
| "json_into strict (JBool b) = (\<lambda>s v. None)"
| "json_into strict (JNum n) = (\<lambda>s v. case peel s v of
     (SInt, _, wrap) \<Rightarrow> map_option (\<lambda>i. wrap (GInt i)) (parse_int64 n) | _ \<Rightarrow> None)"
| "json_into strict (JStr x) = (\<lambda>s v. case peel s v of (SStr, _, wrap) \<Rightarrow> Some (wrap (GStr x)) | _ \<Rightarrow> None)"
| "json_into strict (JArr js) = (\<lambda>s v. case peel s v of
     (SSlice t, GSlice bs n, wrap) \<Rightarrow>
       (if js = [] then Some (wrap (GSlice [] 0))
        else map_option (\<lambda>bs'. wrap (GSlice bs' (length js))) (slice_into (map (json_into strict) js) t bs))
   | _ \<Rightarrow> None)"
| "json_into strict (JObj ms) = (\<lambda>s v. case peel s v of
     (SStruct fs, GStruct vs, wrap) \<Rightarrow>
       map_option (\<lambda>vs'. wrap (GStruct vs')) (struct_into strict fs (map (map_prod id (json_into strict)) ms) vs)
   | (SMap, GMap m, wrap) \<Rightarrow> map_option (\<lambda>m'. wrap (GMap m')) (map_into (map (map_prod id (json_into strict)) ms) m)
   | _ \<Rightarrow> None)"

section \<open>Encoding\<close>

text \<open>\<open>omitempty\<close> leaves out the empty values of every kind but a struct.\<close>

fun gv_empty :: "gv \<Rightarrow> bool" where
  "gv_empty (GStr x) \<longleftrightarrow> x = []"
| "gv_empty (GInt i) \<longleftrightarrow> i = 0"
| "gv_empty (GMap m) \<longleftrightarrow> m = Map.empty"
| "gv_empty (GSlice bs n) \<longleftrightarrow> n = 0"
| "gv_empty GNil \<longleftrightarrow> True"
| "gv_empty (GPtr v) \<longleftrightarrow> False"
| "gv_empty (GStruct vs) \<longleftrightarrow> False"

fun members :: "(string \<times> bool \<times> (gv \<Rightarrow> json)) list \<Rightarrow> gv list \<Rightarrow> (string \<times> json) list" where
  "members ((n, om, f) # fs) (v # vs) = (if om \<and> gv_empty v then members fs vs else (n, f v) # members fs vs)"
| "members _ _ = []"

text \<open>The JSON of a typed value; maps are not encoded here.\<close>

primrec to_json :: "schema \<Rightarrow> gv \<Rightarrow> json" where
  "to_json SStr = (\<lambda>v. case v of GStr x \<Rightarrow> JStr x | _ \<Rightarrow> JNull)"
| "to_json SInt = (\<lambda>v. case v of GInt i \<Rightarrow> JNum (decimal i) | _ \<Rightarrow> JNull)"
| "to_json SMap = (\<lambda>v. JNull)"
| "to_json (SSlice t) = (\<lambda>v. case v of GSlice bs n \<Rightarrow> JArr (map (to_json t) (take n bs)) | _ \<Rightarrow> JNull)"
| "to_json (SPtr t) = (\<lambda>v. case v of GPtr w \<Rightarrow> to_json t w | _ \<Rightarrow> JNull)"
| "to_json (SStruct fs) = (\<lambda>v. case v of
     GStruct vs \<Rightarrow> JObj (members (map (map_prod id (map_prod id to_json)) fs) vs) | _ \<Rightarrow> JNull)"

section \<open>The round trip of typed values\<close>

text \<open>A value of the schema, with no elements beyond a slice's length.  Pointers point at structs,
  and the fields of a struct have different names.\<close>

primrec typed :: "schema \<Rightarrow> gv \<Rightarrow> bool" where
  "typed SStr = (\<lambda>v. case v of GStr x \<Rightarrow> True | _ \<Rightarrow> False)"
| "typed SInt = (\<lambda>v. case v of GInt i \<Rightarrow> int64_ok i | _ \<Rightarrow> False)"
| "typed SMap = (\<lambda>v. False)"
| "typed (SSlice t) = (\<lambda>v. case v of GSlice bs n \<Rightarrow> n = length bs \<and> list_all (typed t) bs | _ \<Rightarrow> False)"
| "typed (SPtr t) = (\<lambda>v. (\<exists>fs. t = SStruct fs) \<and> (case v of GNil \<Rightarrow> True | GPtr w \<Rightarrow> typed t w | _ \<Rightarrow> False))"
| "typed (SStruct fs) = (\<lambda>v. case v of GStruct vs \<Rightarrow> distinct (map fst fs) \<and>
     list_all2 (\<lambda>(n, om, p) v. p v) (map (map_prod id (map_prod id typed)) fs) vs | _ \<Rightarrow> False)"

lemma typed_empty: "typed s v \<Longrightarrow> gv_empty v \<Longrightarrow> v = zero s"
  by (cases s; cases v) auto

lemma first_index_nth: "distinct xs \<Longrightarrow> i < length xs \<Longrightarrow> first_index (\<lambda>n. n = xs ! i) xs = Some i"
proof (induction xs arbitrary: i)
  case (Cons x xs)
  then show ?case by (cases i) auto
qed simp

lemma field_index_nth: "distinct names \<Longrightarrow> i < length names \<Longrightarrow> field_index names (names ! i) = Some i"
  by (simp add: field_index_def first_index_nth)

lemma of_decimal_digits: "list_all is_digit (decimal_nat n)"
  by (rule decimal_nat_digits)

lemma parse_int64_decimal: "int64_ok i \<Longrightarrow> parse_int64 (decimal i) = Some i"
proof -
  assume ok: "int64_ok i"
  have "\<not> HasPrefix (decimal_nat n) ''-''" for n
    using decimal_nat_digits [of n] by (cases "decimal_nat n") (auto simp: HasPrefix_def is_digit_def)
  then show ?thesis
    using ok of_decimal_digits of_decimal_nat by (auto simp: parse_int64_def decimal_def Let_def HasPrefix_def)
qed

text \<open>Fields decoded one after the other, from the zero value on.\<close>

lemma struct_into_members:
  assumes "fs = pre @ suf" and "distinct (map fst fs)" and "length done = length pre"
    and "list_all2 (\<lambda>(n, om, s) v. typed s v \<and> json_into strict (to_json s v) s (zero s) = Some v) suf vs"
  shows "struct_into strict fs (map (map_prod id (json_into strict)) (members (map (map_prod id (map_prod id to_json)) suf) vs))
      (done @ map (\<lambda>(n, om, s). zero s) suf) = Some (done @ vs)"
  using assms
proof (induction suf arbitrary: pre "done" vs)
  case Nil
  then show ?case by simp
next
  case (Cons f suf)
  obtain n om s where f: "f = (n, om, s)" by (cases f)
  from Cons.prems(4) f obtain v vs' where vs: "vs = v # vs'" "typed s v"
      "json_into strict (to_json s v) s (zero s) = Some v"
      "list_all2 (\<lambda>(n, om, s) v. typed s v \<and> json_into strict (to_json s v) s (zero s) = Some v) suf vs'"
    by (cases vs) auto
  define rest where "rest = map (map_prod id (json_into strict)) (members (map (map_prod id (map_prod id to_json)) suf) vs')"
  have step: "map (map_prod id (json_into strict)) (members (map (map_prod id (map_prod id to_json)) (f # suf)) (v # vs')) =
      (if om \<and> gv_empty v then rest else (n, json_into strict (to_json s v)) # rest)"
    using f by (simp add: rest_def)
  have IH: "struct_into strict fs rest ((done @ [v]) @ map (\<lambda>(n, om, s). zero s) suf) = Some ((done @ [v]) @ vs')"
    unfolding rest_def by (rule Cons.IH [of "pre @ [f]"]) (use Cons.prems vs(4) in auto)
  show ?case
  proof (cases "om \<and> gv_empty v")
    case True
    then have "v = zero s" using typed_empty vs(2) by blast
    with IH True show ?thesis unfolding vs(1) step by (simp add: f)
  next
    case False
    have "field_index (map fst fs) (map fst fs ! length pre) = Some (length pre)"
      using Cons.prems(1,2) by (intro field_index_nth) auto
    then have "field_index (map fst fs) n = Some (length pre)" "snd (snd (fs ! length pre)) = s"
      using Cons.prems(1) f by (simp_all add: nth_append)
    with IH False vs(3) Cons.prems(3) show ?thesis
      unfolding vs(1) step by (auto simp add: f nth_append list_update_append)
  qed
qed

lemma slice_into_elems:
  "list_all (\<lambda>v. json_into strict (to_json t v) t (zero t) = Some v) vs \<Longrightarrow>
     slice_into (map (json_into strict) (map (to_json t) vs)) t [] = Some vs"
  by (induction vs) auto

text \<open>Decoding the JSON of a typed value into the zero value gives the value back.\<close>

lemma json_into_to_json: "typed s v \<Longrightarrow> json_into strict (to_json s v) s (zero s) = Some v"
proof (induction s arbitrary: v)
  case SStr
  then show ?case by (cases v) auto
next
  case SInt
  then show ?case by (cases v) (auto simp: parse_int64_decimal)
next
  case SMap
  then show ?case by simp
next
  case (SSlice t)
  then obtain bs where v: "v = GSlice bs (length bs)" "list_all (typed t) bs" by (cases v) auto
  then have "slice_into (map (json_into strict) (map (to_json t) bs)) t [] = Some bs"
    using SSlice.IH by (intro slice_into_elems) (auto simp: list_all_iff)
  with v show ?case by auto
next
  case (SPtr t)
  then obtain fs where t: "t = SStruct fs" by auto
  show ?case
  proof (cases v)
    case (GPtr w)
    with SPtr t have w: "typed t w" by simp
    then obtain vs where "w = GStruct vs" using t by (cases w) auto
    with SPtr.IH [OF w] t GPtr show ?thesis by (auto split: option.splits)
  qed (use SPtr t in auto)
next
  case (SStruct fs)
  then obtain vs where v: "v = GStruct vs" "distinct (map fst fs)"
      "list_all2 (\<lambda>(n, om, p) v. p v) (map (map_prod id (map_prod id typed)) fs) vs"
    by (cases v) auto
  have "list_all2 (\<lambda>(n, om, s) v. typed s v \<and> json_into strict (to_json s v) s (zero s) = Some v) fs vs"
  proof (unfold list_all2_conv_all_nth, intro conjI allI impI)
    show "length fs = length vs" using v(3) by (auto dest: list_all2_lengthD)
    fix i assume i: "i < length fs"
    obtain n om s where f: "fs ! i = (n, om, s)" by (cases "fs ! i")
    have t: "typed s (vs ! i)" using list_all2_nthD [OF v(3), of i] i f by simp
    have "json_into strict (to_json s (vs ! i)) s (zero s) = Some (vs ! i)"
      using nth_mem [OF i] f by (intro SStruct.IH [of "(n, om, s)" "(om, s)" s] t) (simp_all add: prod_set_defs)
    with t f show "(case fs ! i of (n, om, s) \<Rightarrow> \<lambda>v. typed s v \<and> json_into strict (to_json s v) s (zero s) = Some v) (vs ! i)"
      by simp
  qed
  then have "struct_into strict fs (map (map_prod id (json_into strict)) (members (map (map_prod id (map_prod id to_json)) fs) vs))
      ([] @ map (\<lambda>(n, om, s). zero s) fs) = Some ([] @ vs)"
    by (intro struct_into_members [where pre = "[]"]) (use v(2) in auto)
  with v show ?case by (simp add: case_prod_unfold comp_def)
qed

section \<open>Typed values on the wire\<close>

text \<open>What survives the encoder: well-formed strings.\<close>

primrec gv_wire :: "gv \<Rightarrow> bool" where
  "gv_wire (GStr x) \<longleftrightarrow> utf8_valid x"
| "gv_wire (GInt i) \<longleftrightarrow> True"
| "gv_wire (GMap m) \<longleftrightarrow> True"
| "gv_wire (GSlice bs n) \<longleftrightarrow> list_all id (map gv_wire bs)"
| "gv_wire GNil \<longleftrightarrow> True"
| "gv_wire (GPtr v) \<longleftrightarrow> gv_wire v"
| "gv_wire (GStruct vs) \<longleftrightarrow> list_all id (map gv_wire vs)"

primrec schema_ok :: "schema \<Rightarrow> bool" where
  "schema_ok SStr \<longleftrightarrow> True"
| "schema_ok SInt \<longleftrightarrow> True"
| "schema_ok SMap \<longleftrightarrow> True"
| "schema_ok (SSlice t) \<longleftrightarrow> schema_ok t"
| "schema_ok (SPtr t) \<longleftrightarrow> schema_ok t"
| "schema_ok (SStruct fs) \<longleftrightarrow> list_all (\<lambda>(n, om, p). utf8_valid n \<and> p) (map (map_prod id (map_prod id schema_ok)) fs)"

primrec schema_depth :: "schema \<Rightarrow> nat" where
  "schema_depth SStr = 0"
| "schema_depth SInt = 0"
| "schema_depth SMap = 0"
| "schema_depth (SSlice t) = Suc (schema_depth t)"
| "schema_depth (SPtr t) = schema_depth t"
| "schema_depth (SStruct fs) = Suc (foldr max (map (\<lambda>(n, om, d). d) (map (map_prod id (map_prod id schema_depth)) fs)) 0)"

lemma members_zip:
  "(k, j) \<in> set (members (map (map_prod id (map_prod id f)) fs) vs) \<Longrightarrow>
     \<exists>om s v. ((k, om, s), v) \<in> set (zip fs vs) \<and> j = f s v"
proof (induction fs arbitrary: vs)
  case (Cons x fs)
  obtain n om s where x: "x = (n, om, s)" by (cases x)
  note IH = Cons.IH
  show ?case
  proof (cases vs)
    case (Cons v vs')
    with Cons.prems x have "(k, j) = (n, f s v) \<or> (k, j) \<in> set (members (map (map_prod id (map_prod id f)) fs) vs')"
      by (auto simp: id_def split: if_splits)
    then show ?thesis
    proof
      assume "(k, j) = (n, f s v)"
      with x Cons show ?thesis by auto
    next
      assume "(k, j) \<in> set (members (map (map_prod id (map_prod id f)) fs) vs')"
      from IH [OF this] obtain om' s' v' where "((k, om', s'), v') \<in> set (zip fs vs')" "j = f s' v'" by blast
      with Cons show ?thesis by auto
    qed
  qed (use Cons.prems in simp)
qed simp

lemma foldr_max_le: "(\<And>x. x \<in> set xs \<Longrightarrow> x \<le> n) \<Longrightarrow> foldr max xs (0 :: nat) \<le> n"
  by (induction xs) auto

lemma to_json_depth: "json_depth (to_json s v) \<le> schema_depth s"
proof (induction s arbitrary: v)
  case (SSlice t)
  show ?case
    by (cases v) (auto intro!: foldr_max_le simp: SSlice.IH)
next
  case (SPtr t)
  then show ?case by (cases v) auto
next
  case (SStruct fs)
  show ?case
  proof (cases v)
    case (GStruct vs)
    let ?ms = "members (map (map_prod id (map_prod id to_json)) fs) vs"
    have "json_depth j \<le> foldr max (map (\<lambda>(n, om, d). d) (map (map_prod id (map_prod id schema_depth)) fs)) 0"
      if m: "(k, j) \<in> set ?ms" for k j
    proof -
      obtain om s w where z: "((k, om, s), w) \<in> set (zip fs vs)" "j = to_json s w" using members_zip [OF m] by blast
      then have f: "(k, om, s) \<in> set fs" by (auto dest: set_zip_leftD)
      have "json_depth (to_json s w) \<le> schema_depth s"
        by (rule SStruct.IH [OF f, of "(om, s)"]) (simp_all add: prod_set_defs)
      moreover have "schema_depth s \<le> foldr max (map (\<lambda>(n, om, d). d) (map (map_prod id (map_prod id schema_depth)) fs)) 0"
        using f by (intro foldr_max) force
      ultimately show ?thesis using z(2) by simp
    qed
    then show ?thesis using GStruct by (auto intro!: foldr_max_le)
  qed simp_all
qed (auto split: gv.split)

lemma to_json_plain: "typed s v \<Longrightarrow> gv_wire v \<Longrightarrow> schema_ok s \<Longrightarrow> json_plain (to_json s v)"
proof (induction s arbitrary: v)
  case SStr
  then show ?case by (cases v) auto
next
  case SInt
  then show ?case by (cases v) auto
next
  case SMap
  then show ?case by simp
next
  case (SSlice t)
  then show ?case by (cases v) (auto simp: list_all_iff)
next
  case (SPtr t)
  then show ?case by (cases v) auto
next
  case (SStruct fs)
  then obtain vs where v: "v = GStruct vs" "\<forall>w \<in> set vs. gv_wire w" and
      t: "list_all2 (\<lambda>(n, om, s) v. typed s v) fs vs"
    by (cases v) (auto simp: list_all_iff list_all2_map1 case_prod_unfold)
  have "utf8_valid k \<and> json_plain j" if m: "(k, j) \<in> set (members (map (map_prod id (map_prod id to_json)) fs) vs)" for k j
  proof -
    obtain om s w where z: "((k, om, s), w) \<in> set (zip fs vs)" "j = to_json s w" using members_zip [OF m] by blast
    then have f: "(k, om, s) \<in> set fs" and w: "w \<in> set vs" by (auto dest: set_zip_leftD set_zip_rightD)
    have "typed s w" using t z(1) by (auto simp: list_all2_iff)
    moreover have k: "utf8_valid k" "schema_ok s" using SStruct.prems(3) f by (fastforce simp: list_all_iff)+
    ultimately have "json_plain (to_json s w)"
      using v(2) w by (intro SStruct.IH [OF f, of "(om, s)" s]) (simp_all add: prod_set_defs)
    with k z(2) show ?thesis by simp
  qed
  with v(1) show ?case by (auto simp: list_all_iff)
qed

text \<open>Encoding and decoding a typed value, with a delimiter or nothing behind it.\<close>

lemma json_decode_typed:
  assumes "typed s v" and "gv_wire v" and "schema_ok s" and "int (schema_depth s) \<le> max_depth" and "json_end rest"
  shows "json_decode (json_print (to_json s v) @ rest) = Some (to_json s v, rest)"
  using assms to_json_depth [of s v] by (intro json_decode_print) (auto intro: to_json_plain)

lemma json_whole_typed:
  "typed s v \<Longrightarrow> gv_wire v \<Longrightarrow> schema_ok s \<Longrightarrow> int (schema_depth s) \<le> max_depth \<Longrightarrow>
     json_whole (json_print (to_json s v)) = Some (to_json s v)"
  using json_decode_typed [of s v "[]"] by (simp add: json_whole_def json_end_def skip_ws_def)

section \<open>Strict decoding\<close>

text \<open>Every key of every object that is decoded into a struct is one of its fields.\<close>

fun strip :: "schema \<Rightarrow> schema" where
  "strip (SPtr t) = strip t"
| "strip s = s"

primrec known_keys :: "json \<Rightarrow> schema \<Rightarrow> bool" where
  "known_keys JNull = (\<lambda>s. True)"
| "known_keys (JBool b) = (\<lambda>s. True)"
| "known_keys (JNum n) = (\<lambda>s. True)"
| "known_keys (JStr x) = (\<lambda>s. True)"
| "known_keys (JArr js) = (\<lambda>s. case strip s of SSlice t \<Rightarrow> list_all (\<lambda>p. p t) (map known_keys js) | _ \<Rightarrow> True)"
| "known_keys (JObj ms) = (\<lambda>s. case strip s of
     SStruct fs \<Rightarrow> list_all (\<lambda>(k, p). case field_index (map fst fs) k of None \<Rightarrow> False | Some i \<Rightarrow> p (snd (snd (fs ! i))))
       (map (map_prod id known_keys) ms)
   | _ \<Rightarrow> True)"

lemma peel_strip: "fst (peel s v) = strip s"
  by (induction s v rule: peel.induct) (auto split: prod.splits)

lemma slice_into_each:
  "slice_into fs t bs = Some xs \<Longrightarrow> f \<in> set fs \<Longrightarrow> \<exists>v w. f t v = Some w"
  by (induction fs t bs arbitrary: xs rule: slice_into.induct) (auto split: option.splits)

lemma struct_into_each:
  "struct_into True fs ms vs = Some ws \<Longrightarrow> (k, f) \<in> set ms \<Longrightarrow>
     \<exists>i v w. field_index (map fst fs) k = Some i \<and> f (snd (snd (fs ! i))) v = Some w"
  by (induction ms arbitrary: vs) (simp, fastforce split: option.splits)

lemma json_into_known: "json_into True j s v = Some w \<Longrightarrow> known_keys j s"
proof (induction j arbitrary: s v w)
  case (JArr js)
  obtain t v' wrap where p: "peel s v = (t, v', wrap)" by (cases "peel s v")
  with peel_strip [of s v] have t: "strip s = t" by simp
  show ?case
  proof (cases t)
    case (SSlice e)
    have "known_keys j e" if j: "j \<in> set js" for j
    proof -
      from JArr.prems p SSlice j obtain bs bs' where "slice_into (map (json_into True) js) e bs = Some bs'"
        by (auto split: gv.splits if_splits)
      from slice_into_each [OF this, of "json_into True j"] j obtain v w where "json_into True j e v = Some w" by auto
      then show ?thesis by (rule JArr.IH [OF j])
    qed
    with t SSlice show ?thesis by (simp add: list_all_iff)
  qed (use t in simp_all)
next
  case (JObj ms)
  obtain t v' wrap where p: "peel s v = (t, v', wrap)" by (cases "peel s v")
  with peel_strip [of s v] have t: "strip s = t" by simp
  show ?case
  proof (cases t)
    case (SStruct fs)
    have "\<exists>i. field_index (map fst fs) k = Some i \<and> known_keys j (snd (snd (fs ! i)))" if j: "(k, j) \<in> set ms" for k j
    proof -
      from JObj.prems p SStruct obtain vs vs' where "struct_into True fs (map (map_prod id (json_into True)) ms) vs = Some vs'"
        by (auto split: gv.splits)
      from struct_into_each [OF this, of k "json_into True j"] j obtain i v w where
        "field_index (map fst fs) k = Some i" "json_into True j (snd (snd (fs ! i))) v = Some w" by force
      with JObj.IH [OF j, of j] show ?thesis by (auto simp: Basic_BNFs.snds.simps)
    qed
    with t SStruct show ?thesis by (fastforce simp: list_all_iff split: option.splits)
  qed (use t in simp_all)
qed simp_all

section \<open>Reading typed values\<close>

text \<open>The fields of a struct value by position, and the values of each kind.\<close>

fun gv_field :: "gv \<Rightarrow> nat \<Rightarrow> gv" where
  "gv_field (GStruct vs) i = vs ! i"
| "gv_field _ i = GNil"

fun gv_str :: "gv \<Rightarrow> string" where
  "gv_str (GStr x) = x"
| "gv_str _ = []"

fun gv_int :: "gv \<Rightarrow> int" where
  "gv_int (GInt i) = i"
| "gv_int _ = 0"

fun gv_list :: "(gv \<Rightarrow> 'a) \<Rightarrow> gv \<Rightarrow> 'a list" where
  "gv_list f (GSlice bs n) = map f (take n bs)"
| "gv_list f _ = []"

fun gv_ptr :: "(gv \<Rightarrow> 'a) \<Rightarrow> gv \<Rightarrow> 'a option" where
  "gv_ptr f (GPtr v) = Some (f v)"
| "gv_ptr f _ = None"

fun gv_map :: "gv \<Rightarrow> string \<rightharpoonup> string" where
  "gv_map (GMap m) = m"
| "gv_map _ = Map.empty"

end
