(* ===== verification/Wrap_Harness_Run.thy ===== *)
theory Wrap_Harness_Run
  imports Wrap_Config Go_Json_Struct "HOL-Library.Char_ord" "HOL-Library.List_Lexorder"
begin

text \<open>
  One harness run (src/wrap/harness.go): the run directory, the generated MCP configuration, the
  child's argv and environment, the extraction of the terminal event from the event stream, and
  the strict decoding of a template file (\<open>LoadTemplate\<close> of src/wrap/config.go).  Files, the clock
  and the child are \<open>harness_env\<close>; every call to them is recorded.
\<close>

section \<open>The event stream\<close>

text \<open>\<open>dotGet\<close>: the walk through nested objects.  The last of equal keys counts.\<close>

fun walk :: "json \<Rightarrow> string list \<Rightarrow> json option" where
  "walk j [] = Some j"
| "walk (JObj ms) (p # ps) = (case map_of (rev ms) p of None \<Rightarrow> None | Some j \<Rightarrow> walk j ps)"
| "walk j (p # ps) = None"

definition dotGet :: "json \<Rightarrow> string \<Rightarrow> json option" where
  "dotGet m path = walk m (split_on CHR ''.'' path)"

text \<open>A number decoded into an interface value must be in the range of a \<open>float64\<close>: the literal is
  mantissa times a power of ten, and from halfway between the largest float and the next power of
  two on it rounds to infinity.\<close>

definition float64_bound :: nat where "float64_bound = 2 ^ 1024 - 2 ^ 970"

definition number_parts :: "string \<Rightarrow> nat \<times> int" where
  "number_parts n =
     (let m = takeWhile (\<lambda>c. c \<noteq> CHR ''e'' \<and> c \<noteq> CHR ''E'') n; e = drop (Suc (length m)) n;
          ds = filter is_digit m; frac = tl (dropWhile (\<lambda>c. c \<noteq> CHR ''.'') m);
          x = int (of_decimal (filter is_digit e)) in
      (of_decimal ds, (if HasPrefix e ''-'' then - x else x) - int (length frac)))"

definition float64_ok :: "string \<Rightarrow> bool" where
  "float64_ok n = (case number_parts n of (m, e) \<Rightarrow>
     if 0 \<le> e then m * 10 ^ nat e < float64_bound else m < float64_bound * 10 ^ nat (- e))"

primrec decodes_any :: "json \<Rightarrow> bool" where
  "decodes_any JNull \<longleftrightarrow> True"
| "decodes_any (JBool b) \<longleftrightarrow> True"
| "decodes_any (JNum n) \<longleftrightarrow> float64_ok n"
| "decodes_any (JStr s) \<longleftrightarrow> True"
| "decodes_any (JArr js) \<longleftrightarrow> list_all id (map decodes_any js)"
| "decodes_any (JObj ms) \<longleftrightarrow> list_all snd (map (map_prod id decodes_any) ms)"

text \<open>What decodes into a \<open>map[string]any\<close>: an object, or null (a nil map).\<close>

definition event_ok :: "json \<Rightarrow> bool" where
  "event_ok j \<longleftrightarrow> (case j of JNull \<Rightarrow> True | JObj _ \<Rightarrow> decodes_any j | _ \<Rightarrow> False)"

text \<open>The loop of \<open>extractTerminal\<close>: the events up to the first that does not decode, and the last
  of them that the mapping calls terminal.\<close>

definition stream_events :: "string \<Rightarrow> json list" where
  "stream_events s = takeWhile event_ok (json_stream s)"

definition is_terminal :: "TerminalMap \<Rightarrow> json \<Rightarrow> bool" where
  "is_terminal m e \<longleftrightarrow> dotGet e (tm_TypeField m) = Some (JStr (tm_TerminalValue m))"

definition last_terminal :: "TerminalMap \<Rightarrow> json list \<Rightarrow> json option" where
  "last_terminal m es = foldl (\<lambda>acc e. if is_terminal m e then Some e else acc) None es"

abbreviation failed :: "string \<Rightarrow> HarnessResult" where
  "failed d \<equiv> \<lparr>hr_Text = [], hr_OK = False, hr_Detail = d\<rparr>"

definition event_text :: "TerminalMap \<Rightarrow> json \<Rightarrow> string" where
  "event_text m e = (case dotGet e (tm_TextField m) of Some (JStr s) \<Rightarrow> s | _ \<Rightarrow> [])"

text \<open>\<open>quoted\<close> is \<open>fmt\<close>'s rendering of a value with \<open>%q\<close>.\<close>

definition classify :: "(json \<Rightarrow> string) \<Rightarrow> TerminalMap \<Rightarrow> json \<Rightarrow> HarnessResult" where
  "classify quoted m e =
     (let text = event_text m e;
          final = (if blank text then failed ''terminal event carried no text''
                   else \<lparr>hr_Text = text, hr_OK = True, hr_Detail = []\<rparr>) in
      if tm_StatusField m = [] then final
      else case dotGet e (tm_StatusField m) of None \<Rightarrow> final | Some v \<Rightarrow>
        if (case v of JStr s \<Rightarrow> s | _ \<Rightarrow> []) \<noteq> tm_SuccessValue m
        then failed (''terminal status '' @ quoted v @ '': '' @ text) else final)"

text \<open>The events file: an error of opening it, or its content.\<close>

definition extractTerminal :: "(json \<Rightarrow> string) \<Rightarrow> TerminalMap \<Rightarrow> string + string \<Rightarrow> HarnessResult" where
  "extractTerminal quoted m content =
     (case content of Inl err \<Rightarrow> failed (''events: '' @ err) | Inr s \<Rightarrow>
      case last_terminal m (stream_events s) of None \<Rightarrow> failed ''no terminal event'' | Some e \<Rightarrow> classify quoted m e)"

section \<open>The MCP configuration\<close>

text \<open>\<open>json.MarshalIndent\<close> with an indent of two spaces.\<close>

definition indent :: "nat \<Rightarrow> string" where
  "indent n = replicate (2 * n) CHR '' ''"

abbreviation newline :: string where "newline \<equiv> [CHR 0x0A]"

primrec json_indent :: "json \<Rightarrow> nat \<Rightarrow> string" where
  "json_indent JNull = (\<lambda>n. ''null'')"
| "json_indent (JBool b) = (\<lambda>n. if b then ''true'' else ''false'')"
| "json_indent (JNum x) = (\<lambda>n. x)"
| "json_indent (JStr s) = (\<lambda>n. json_quote s)"
| "json_indent (JArr js) = (\<lambda>n. if js = [] then ''[]'' else
     ''['' @ newline @ join_with ('','' @ newline) (map (\<lambda>f. indent (n + 1) @ f (n + 1)) (map json_indent js))
     @ newline @ indent n @ '']'')"
| "json_indent (JObj ms) = (\<lambda>n. if ms = [] then ''{}'' else
     ''{'' @ newline @ join_with ('','' @ newline)
       (map (\<lambda>(k, f). indent (n + 1) @ json_quote k @ '': '' @ f (n + 1)) (map (map_prod id json_indent) ms))
     @ newline @ indent n @ ''}'')"

text \<open>The document.  The encoder sorts the keys of a map; \<open>entries\<close> are the entries of the
  template's environment, \<open>None\<close> when that map is nil.\<close>

definition mcp_env_json :: "(string \<times> string) list option \<Rightarrow> json" where
  "mcp_env_json entries = (case entries of None \<Rightarrow> JNull | Some kvs \<Rightarrow> JObj (map (\<lambda>(k, v). (k, JStr v)) (sort_key fst kvs)))"

definition mcp_doc :: "Template \<Rightarrow> (string \<times> string) list option \<Rightarrow> json" where
  "mcp_doc t entries =
     JObj [(''mcpServers'', JObj [(''soulstream'', JObj
       ((if tpl_MCPArgs t \<noteq> [] then [(''args'', JArr (map JStr (tpl_MCPArgs t)))] else []) @
        [(''command'', JStr (tpl_MCPCommand t)), (''env'', mcp_env_json entries)]))])]"

section \<open>RunHarness\<close>

record launch =
  la_argv :: "string list"
  la_dir :: string
  la_env :: "string list"
  la_timeout :: duration

datatype hcall = HMkdir string | HWrite string string | HCreate string | HStart launch | HWait launch | HOpen string

text \<open>
  \<open>hv_write\<close> writes a file with mode 0600.  \<open>hv_fill_order\<close> is the order in which \<open>fill\<close> ranges over
  its variables for the argument at an index, \<open>hv_env_order\<close> the entries of a map in the order of a
  range over it, \<open>hv_mcp_entries\<close> those of the template's MCP environment (\<open>None\<close>: a nil map),
  \<open>hv_expired\<close> whether the run's deadline had passed when the child was reaped, \<open>hv_elapsed\<close> the
  rounded time it took, \<open>hv_events\<close> what opening and reading the events file gives.
\<close>

record harness_env =
  hv_mkdir :: "string \<Rightarrow> string option"
  hv_write :: "string \<Rightarrow> string \<Rightarrow> string option"
  hv_create :: "string \<Rightarrow> string option"
  hv_environ :: "string list"
  hv_fill_order :: "nat \<Rightarrow> (string \<times> string) list \<Rightarrow> (string \<times> string) list"
  hv_env_order :: "(string \<rightharpoonup> string) \<Rightarrow> (string \<times> string) list"
  hv_mcp_entries :: "(string \<times> string) list option"
  hv_start :: "launch \<Rightarrow> string option"
  hv_wait :: "launch \<Rightarrow> string option"
  hv_expired :: bool
  hv_elapsed :: duration
  hv_events :: "string + string"
  hv_quoted :: "json \<Rightarrow> string"

definition mcp_path :: "RunSpec \<Rightarrow> string" where
  "mcp_path spec = path_Join [rs_RunDir spec, ''mcp.json'']"

definition events_path :: "RunSpec \<Rightarrow> string" where
  "events_path spec = path_Join [rs_RunDir spec, ''events.jsonl'']"

definition stderr_path :: "RunSpec \<Rightarrow> string" where
  "stderr_path spec = path_Join [rs_RunDir spec, ''stderr.txt'']"

definition run_vars :: "RunSpec \<Rightarrow> (string \<times> string) list" where
  "run_vars spec = [(''PROMPT'', rs_Prompt spec), (''TOPIC'', rs_Topic spec), (''RUN_DIR'', rs_RunDir spec),
     (''MCP_CONFIG'', mcp_path spec)]"

definition writeMCPConfig :: "harness_env \<Rightarrow> RunSpec \<Rightarrow> string option \<times> hcall list" where
  "writeMCPConfig E spec =
     (let raw = json_indent (mcp_doc (rs_Template spec) (hv_mcp_entries E)) 0 in
      (map_option (\<lambda>e. ''wrap: write mcp config: '' @ e) (hv_write E (mcp_path spec) raw), [HWrite (mcp_path spec) raw]))"

definition child_env :: "harness_env \<Rightarrow> Template \<Rightarrow> string list" where
  "child_env E t = sanitizedEnv (hv_environ E) @ map (\<lambda>(k, v). k @ ''='' @ v) (hv_env_order E (tpl_Env t))"

definition launch_of :: "harness_env \<Rightarrow> RunSpec \<Rightarrow> launch" where
  "launch_of E spec =
     \<lparr>la_argv = map (\<lambda>(i, a). fill a (hv_fill_order E i (run_vars spec))) (enumerate 0 (tpl_Command (rs_Template spec))),
      la_dir = rs_RunDir spec, la_env = child_env E (rs_Template spec), la_timeout = rs_Timeout spec\<rparr>"

text \<open>What the child's end and its events conclude.\<close>

definition conclude :: "harness_env \<Rightarrow> RunSpec \<Rightarrow> launch \<Rightarrow> HarnessResult" where
  "conclude E spec l =
     (let res = extractTerminal (hv_quoted E) (tpl_Terminal (rs_Template spec)) (hv_events E);
          took = Duration_String (hv_elapsed E) in
      if \<not> hr_OK res \<and> hr_Detail res = ''no terminal event'' then
        (if hv_expired E then res\<lparr>hr_Detail := ''run timeout after '' @ took\<rparr>
         else case hv_wait E l of Some err \<Rightarrow> res\<lparr>hr_Detail := ''harness died ('' @ err @ '') after '' @ took\<rparr> | None \<Rightarrow> res)
      else if hr_OK res then res\<lparr>hr_Detail := took\<rparr> else res)"

text \<open>The child is started, waited for and its events are read; \<open>None\<close> is the panic on the first
  element of an empty command.\<close>

definition run_child :: "harness_env \<Rightarrow> RunSpec \<Rightarrow> HarnessResult option \<times> hcall list" where
  "run_child E spec =
     (if tpl_Command (rs_Template spec) = [] then (None, [])
      else case hv_create E (events_path spec) of
        Some e \<Rightarrow> (Some (failed (''events file: '' @ e)), [HCreate (events_path spec)])
      | None \<Rightarrow> (case hv_create E (stderr_path spec) of
          Some e \<Rightarrow> (Some (failed (''stderr file: '' @ e)), [HCreate (events_path spec), HCreate (stderr_path spec)])
        | None \<Rightarrow> (let l = launch_of E spec; made = [HCreate (events_path spec), HCreate (stderr_path spec), HStart l] in
            case hv_start E l of
              Some e \<Rightarrow> (Some (failed (''start: '' @ e)), made)
            | None \<Rightarrow> (Some (conclude E spec l), made @ [HWait l, HOpen (events_path spec)]))))"

definition RunHarness :: "harness_env \<Rightarrow> RunSpec \<Rightarrow> HarnessResult option \<times> hcall list" where
  "RunHarness E spec =
     (case hv_mkdir E (rs_RunDir spec) of
        Some e \<Rightarrow> (Some (failed (''run dir: '' @ e)), [HMkdir (rs_RunDir spec)])
      | None \<Rightarrow> (case (if tpl_MCPCommand (rs_Template spec) = [] then (None, []) else writeMCPConfig E spec) of
          (Some e, w) \<Rightarrow> (Some (failed e), HMkdir (rs_RunDir spec) # w)
        | (None, w) \<Rightarrow> (case run_child E spec of (r, calls) \<Rightarrow> (r, HMkdir (rs_RunDir spec) # w @ calls))))"

section \<open>LoadTemplate\<close>

definition terminal_schema :: schema where
  "terminal_schema = SStruct [(''type_field'', False, SStr), (''terminal_value'', False, SStr), (''text_field'', False, SStr),
     (''status_field'', True, SStr), (''success_value'', True, SStr)]"

definition template_schema :: schema where
  "template_schema = SStruct [(''command'', False, SSlice SStr), (''prompt'', False, SStr), (''terminal'', False, terminal_schema),
     (''env'', True, SMap), (''mcp_command'', True, SStr), (''mcp_args'', True, SSlice SStr), (''mcp_env'', True, SMap)]"

definition to_terminal :: "gv \<Rightarrow> TerminalMap" where
  "to_terminal v = \<lparr>tm_TypeField = gv_str (gv_field v 0), tm_TerminalValue = gv_str (gv_field v 1),
     tm_TextField = gv_str (gv_field v 2), tm_StatusField = gv_str (gv_field v 3), tm_SuccessValue = gv_str (gv_field v 4)\<rparr>"

definition to_template :: "gv \<Rightarrow> Template" where
  "to_template v = \<lparr>tpl_Command = gv_list gv_str (gv_field v 0), tpl_Prompt = gv_str (gv_field v 1),
     tpl_Terminal = to_terminal (gv_field v 2), tpl_Env = gv_map (gv_field v 3), tpl_MCPCommand = gv_str (gv_field v 4),
     tpl_MCPArgs = gv_list gv_str (gv_field v 5), tpl_MCPEnv = gv_map (gv_field v 6)\<rparr>"

datatype load_error = LoadRead string | LoadParse | LoadTrailing | LoadInvalid wrap_error

text \<open>\<open>readFile\<close> is the file system.\<close>

definition LoadTemplate :: "(string \<Rightarrow> string + string) \<Rightarrow> string \<Rightarrow> load_error + Template" where
  "LoadTemplate readFile path =
     (case readFile path of Inl e \<Rightarrow> Inl (LoadRead e) | Inr raw \<Rightarrow>
      case json_decode raw of None \<Rightarrow> Inl LoadParse | Some (j, rest) \<Rightarrow>
      case json_into True j template_schema (zero template_schema) of None \<Rightarrow> Inl LoadParse | Some v \<Rightarrow>
      if json_more rest then Inl LoadTrailing
      else case Template_Validate (to_template v) of Some e \<Rightarrow> Inl (LoadInvalid e) | None \<Rightarrow> Inr (to_template v))"

section \<open>What a run concludes\<close>

lemma last_terminal_eq:
  "last_terminal m es = (let ts = filter (is_terminal m) es in if ts = [] then None else Some (last ts))"
proof -
  have "foldl (\<lambda>acc e. if is_terminal m e then Some e else acc) prev es =
      (if filter (is_terminal m) es = [] then prev else Some (last (filter (is_terminal m) es)))" for prev
    by (induction es arbitrary: prev) auto
  then show ?thesis by (simp add: last_terminal_def)
qed

text \<open>The status field, when the mapping has one and the event carries it, must be the success value; a
  value that is no string counts as the empty string.\<close>

definition succeeded :: "TerminalMap \<Rightarrow> json \<Rightarrow> bool" where
  "succeeded m e \<longleftrightarrow> tm_StatusField m = [] \<or>
     (case dotGet e (tm_StatusField m) of None \<Rightarrow> True | Some (JStr s) \<Rightarrow> s = tm_SuccessValue m | Some _ \<Rightarrow> tm_SuccessValue m = [])"

text \<open>A run succeeds exactly when the last terminal event of the stream succeeded and carries a text,
  and the answer is that text.\<close>

theorem extractTerminal_exact:
  "extractTerminal quoted m content = \<lparr>hr_Text = t, hr_OK = True, hr_Detail = []\<rparr> \<longleftrightarrow>
     (\<exists>s. content = Inr s \<and> (let ts = filter (is_terminal m) (stream_events s) in
        ts \<noteq> [] \<and> succeeded m (last ts) \<and> event_text m (last ts) = t \<and> \<not> blank t))"
proof (cases content)
  case (Inr s)
  have c: "classify quoted m e = \<lparr>hr_Text = t, hr_OK = True, hr_Detail = []\<rparr> \<longleftrightarrow>
      succeeded m e \<and> event_text m e = t \<and> \<not> blank t" for e
    by (auto simp: classify_def succeeded_def Let_def split: option.splits json.splits)
  show ?thesis using Inr c by (simp add: extractTerminal_def last_terminal_eq Let_def)
qed (simp add: extractTerminal_def)

lemma extract_OK: "hr_OK (extractTerminal quoted m content) \<Longrightarrow>
    extractTerminal quoted m content = \<lparr>hr_Text = hr_Text (extractTerminal quoted m content), hr_OK = True, hr_Detail = []\<rparr>"
  by (auto simp: extractTerminal_def classify_def Let_def split: sum.splits option.splits if_splits)

text \<open>The events of whole lines count even when the stream is cut in the middle of the next: what
  follows the last newline can only add events.\<close>

theorem stream_events_lines:
  assumes "list_all (\<lambda>j. event_ok j \<and> json_plain j \<and> int (json_depth j) \<le> max_depth) js"
  shows "stream_events (concat (map (\<lambda>j. json_print j @ newline) js) @ rest) = js @ stream_events rest"
  using assms json_stream_lines [of js rest] by (auto simp: stream_events_def list_all_iff takeWhile_append)

text \<open>Neither the child's exit nor the deadline decides: with another answer of \<open>Wait\<close> the same run has
  the same success, the same text and the same calls.\<close>

theorem exit_irrelevant:
  "map_option (\<lambda>r. (hr_OK r, hr_Text r)) (fst (RunHarness (E\<lparr>hv_wait := w, hv_expired := x\<rparr>) spec)) =
     map_option (\<lambda>r. (hr_OK r, hr_Text r)) (fst (RunHarness E spec)) \<and>
   snd (RunHarness (E\<lparr>hv_wait := w, hv_expired := x\<rparr>) spec) = snd (RunHarness E spec)"
proof -
  have l: "launch_of (E\<lparr>hv_wait := w, hv_expired := x\<rparr>) spec = launch_of E spec"
    by (simp add: launch_of_def child_env_def)
  have c: "hr_OK (conclude (E\<lparr>hv_wait := w, hv_expired := x\<rparr>) spec l) = hr_OK (conclude E spec l)"
    "hr_Text (conclude (E\<lparr>hv_wait := w, hv_expired := x\<rparr>) spec l) = hr_Text (conclude E spec l)" for l
    by (simp_all add: conclude_def Let_def split: option.split)
  show ?thesis
    by (simp add: RunHarness_def run_child_def writeMCPConfig_def l c Let_def split: option.split prod.split)
qed

section \<open>What the child is given\<close>

text \<open>The range over a Go map gives its entries, each once.\<close>

definition range_of :: "(string \<rightharpoonup> string) \<Rightarrow> (string \<times> string) list \<Rightarrow> bool" where
  "range_of m kvs \<longleftrightarrow> distinct (map fst kvs) \<and> map_of kvs = m"

lemma RunHarness_starts: "HStart l \<in> set (snd (RunHarness E spec)) \<Longrightarrow> l = launch_of E spec"
  by (auto simp: RunHarness_def run_child_def writeMCPConfig_def Let_def split: option.splits prod.splits if_splits)

text \<open>C20. The child runs in the run directory, and the only variables of the realm it sees are those the
  template sets.\<close>

theorem child_scrubbed:
  assumes "HStart l \<in> set (snd (RunHarness E spec))"
    and "range_of (tpl_Env (rs_Template spec)) (hv_env_order E (tpl_Env (rs_Template spec)))"
  shows "la_dir l = rs_RunDir spec \<and>
     list_all (\<lambda>kv. HasPrefix kv ''SOULSTREAM_'' \<longrightarrow> (\<exists>k v. tpl_Env (rs_Template spec) k = Some v \<and> kv = k @ ''='' @ v)) (la_env l)"
proof -
  let ?env = "tpl_Env (rs_Template spec)"
  have "map_of (hv_env_order E ?env) = ?env" "distinct (map fst (hv_env_order E ?env))"
    using assms(2) by (auto simp: range_of_def)
  then have "?env k = Some v" if "(k, v) \<in> set (hv_env_order E ?env)" for k v
    using that by (metis map_of_is_SomeI)
  then show ?thesis
    using RunHarness_starts [OF assms(1)]
    by (auto simp: launch_of_def child_env_def sanitizedEnv_def list_all_iff)
qed

section \<open>Valid templates\<close>

text \<open>A run of a valid template always has a result.\<close>

theorem valid_template_runs: "Template_Validate (rs_Template spec) = None \<Longrightarrow> fst (RunHarness E spec) \<noteq> None"
  by (auto simp: Template_Validate_def RunHarness_def run_child_def Let_def split: option.splits prod.splits if_splits)


text \<open>So is every preset.\<close>

lemma Preset_valid: "Preset name lane = Inr t \<Longrightarrow> Template_Validate t = None"
proof -
  assume p: "Preset name lane = Inr t"
  have prompt: "presetPrompt \<noteq> []" unfolding presetPrompt_def by simp
  consider "name = ''claude''" | "name = ''codex''" | "name \<noteq> ''claude''" "name \<noteq> ''codex''" by blast
  then show ?thesis
  proof cases
    case 1
    then have "t = (case Preset ''claude'' lane of Inr t \<Rightarrow> t)" using p by simp
    then show ?thesis by (simp add: Preset_def Template_Validate_def Let_def prompt)
  next
    case 2
    then have "t = (case Preset ''codex'' lane of Inr t \<Rightarrow> t)" using p by simp
    then show ?thesis by (simp add: Preset_def Template_Validate_def Let_def prompt)
  next
    case 3
    then show ?thesis using p by (simp add: Preset_def Let_def)
  qed
qed

section \<open>A concrete run\<close>

definition demo_template :: Template where
  "demo_template = \<lparr>tpl_Command = [''sh'', ''{{TOPIC}}''], tpl_Prompt = ''p'',
     tpl_Terminal = \<lparr>tm_TypeField = ''t'', tm_TerminalValue = ''end'', tm_TextField = ''x'', tm_StatusField = [], tm_SuccessValue = []\<rparr>,
     tpl_Env = [''SOULSTREAM_X'' \<mapsto> ''1''], tpl_MCPCommand = [], tpl_MCPArgs = [], tpl_MCPEnv = Map.empty\<rparr>"

definition demo_template_json :: json where
  "demo_template_json = JObj [(''command'', JArr [JStr ''sh'', JStr ''{{TOPIC}}'']), (''prompt'', JStr ''p''),
     (''terminal'', JObj [(''type_field'', JStr ''t''), (''terminal_value'', JStr ''end''), (''text_field'', JStr ''x'')]),
     (''env'', JObj [(''SOULSTREAM_X'', JStr ''1'')])]"

definition demo_run_spec :: RunSpec where
  "demo_run_spec = \<lparr>rs_Template = demo_template, rs_Prompt = ''p'', rs_Topic = ''lab'', rs_RunDir = ''/run'', rs_Timeout = Second\<rparr>"

definition demo_event :: json where
  "demo_event = JObj [(''t'', JStr ''end''), (''x'', JStr ''hi'')]"

definition demo_harness :: harness_env where
  "demo_harness = \<lparr>hv_mkdir = (\<lambda>_. None), hv_write = (\<lambda>_ _. None), hv_create = (\<lambda>_. None),
     hv_environ = [''PATH=/bin'', ''SOULSTREAM_TOKEN=t''], hv_fill_order = (\<lambda>_ vs. vs), hv_env_order = (\<lambda>_. [(''SOULSTREAM_X'', ''1'')]),
     hv_mcp_entries = None, hv_start = (\<lambda>_. None), hv_wait = (\<lambda>_. Some ''killed''), hv_expired = False, hv_elapsed = 0,
     hv_events = Inr (json_print demo_event @ newline), hv_quoted = (\<lambda>_. [])\<rparr>"

theorem stream_events_lines_witness:
  "stream_events (concat (map (\<lambda>j. json_print j @ newline) [demo_event]) @ ''{'') = [demo_event] @ stream_events ''{''"
  by (rule stream_events_lines)
    (simp add: demo_event_def event_ok_def max_depth_def utf8_valid_ascii del: utf8_valid.simps)

theorem child_scrubbed_witness: "''SOULSTREAM_TOKEN=t'' \<notin> set (la_env (launch_of demo_harness demo_run_spec))"
proof -
  have s: "HStart (launch_of demo_harness demo_run_spec) \<in> set (snd (RunHarness demo_harness demo_run_spec))"
    by (simp add: RunHarness_def run_child_def demo_harness_def demo_run_spec_def demo_template_def Let_def)
  have r: "range_of (tpl_Env (rs_Template demo_run_spec)) (hv_env_order demo_harness (tpl_Env (rs_Template demo_run_spec)))"
    by (simp add: range_of_def demo_harness_def demo_run_spec_def demo_template_def)
  from child_scrubbed [OF s r] have "HasPrefix kv ''SOULSTREAM_'' \<Longrightarrow> \<exists>k v. tpl_Env demo_template k = Some v \<and> kv = k @ ''='' @ v"
    if "kv \<in> set (la_env (launch_of demo_harness demo_run_spec))" for kv
    using that by (auto simp: list_all_iff demo_run_spec_def)
  from this [of "''SOULSTREAM_TOKEN=t''"] show ?thesis
    by (auto simp: demo_template_def HasPrefix_def split: if_splits)
qed

lemma demo_template_valid: "Template_Validate demo_template = None"
  by (simp add: Template_Validate_def demo_template_def)

theorem valid_template_runs_witness: "fst (RunHarness demo_harness demo_run_spec) \<noteq> None"
  by (rule valid_template_runs) (simp add: demo_template_valid demo_run_spec_def)

lemma demo_decode: "json_decode (json_print demo_template_json) = Some (demo_template_json, [])"
  using json_decode_print [of demo_template_json "[]"]
  by (simp add: demo_template_json_def json_end_def max_depth_def utf8_valid_ascii del: utf8_valid.simps json_print.simps)

lemma demo_into: "map_option to_template (json_into True demo_template_json template_schema (zero template_schema)) = Some demo_template"
  by (simp add: demo_template_json_def template_schema_def terminal_schema_def field_index_def to_template_def
      to_terminal_def demo_template_def numeral_nat)

lemma demo_load: "LoadTemplate (\<lambda>_. Inr (json_print demo_template_json)) ''f'' = Inr demo_template"
  using demo_into demo_template_valid by (auto simp: LoadTemplate_def demo_decode json_more_def skip_ws_def)


end
