(* ===== verification/Wrap_Sources.thy ===== *)
theory Wrap_Sources
  imports Wrap_Wake
begin

text \<open>
  The wake sources (src/wrap/sources.go, and the mention source in src/wrap/wrap.go): which
  messages and which backlog become which wakes, and what is registered for the schedules.
  Decoded messages are inputs: \<open>record.Parse\<close>, the notify payload and the topic views are
  types of the core library.  \<open>quote\<close> stands for the verb \<open>%q\<close>, \<open>sha256hex\<close> for the digest
  of a payload, \<open>payload_name\<close> for the \<open>name\<close> field decoded from an attachment's payload.
\<close>

section \<open>Inputs\<close>

record NotifyPayload =
  n_Topic :: string
  n_OpID :: string
  n_Author :: string

record Rec =
  rec_ID :: string
  rec_Author :: string
  rec_Type :: string
  rec_Payload :: string

record Attachment =
  at_OpID :: string
  at_Author :: string
  at_Name :: string

record TopicView =
  tv_Contributions :: "Turn list"
  tv_Attachments :: "Attachment list"

section \<open>Wakes of the sources\<close>

definition typeSet :: "string list \<Rightarrow> string set" where
  "typeSet types = (if types = [] then {''turn.post''} else set types)"

definition mention_wake :: "NotifyPayload \<Rightarrow> Wake" where
  "mention_wake n = \<lparr>w_Topic = n_Topic n, w_OpID = n_OpID n, w_Author = n_Author n,
     w_Kind = KindMention, w_Body = []\<rparr>"

definition attachment_text :: "(string \<Rightarrow> string) \<Rightarrow> string \<Rightarrow> string" where
  "attachment_text quote name = ''attachment '' @ quote name @ '' added''"

definition attachmentBody :: "(string \<Rightarrow> string) \<Rightarrow> (string \<Rightarrow> string option) \<Rightarrow> Rec \<Rightarrow> string" where
  "attachmentBody quote payload_name rec =
     (if rec_Type rec \<noteq> ''attachment.add'' then []
      else case payload_name (rec_Payload rec) of
             Some name \<Rightarrow> if name \<noteq> [] then attachment_text quote name else []
           | None \<Rightarrow> [])"

text \<open>The callback of \<open>subscribeTopicWake\<close>: the wake it tries to enqueue, if any; \<open>None\<close> for
  the record when it does not parse.\<close>

definition subscribeTopicWake :: "(string \<Rightarrow> string) \<Rightarrow> (string \<Rightarrow> string option) \<Rightarrow> string \<Rightarrow> TopicWake
    \<Rightarrow> Rec option \<Rightarrow> Wake option" where
  "subscribeTopicWake quote payload_name persona tw msg =
     (case msg of None \<Rightarrow> None
      | Some rec \<Rightarrow>
          if rec_Author rec = persona \<or> rec_Type rec \<notin> typeSet (tw_Types tw) then None
          else Some \<lparr>w_Topic = tw_Path tw, w_OpID = rec_ID rec, w_Author = rec_Author rec,
                 w_Kind = KindTopic, w_Body = attachmentBody quote payload_name rec\<rparr>)"

definition subscribeSubjectWake :: "(string \<Rightarrow> string) \<Rightarrow> string \<Rightarrow> string \<Rightarrow> Wake" where
  "subscribeSubjectWake sha256hex homeTopic payload =
     \<lparr>w_Topic = homeTopic, w_OpID = sha256hex payload, w_Author = [], w_Kind = KindSubject,
      w_Body = payload\<rparr>"

text \<open>One tick of \<open>consumeTicks\<close>: the sequence number is a uint64.\<close>

definition tick_wake :: "string \<Rightarrow> nat \<Rightarrow> string \<Rightarrow> Wake" where
  "tick_wake homeTopic sequence payload =
     \<lparr>w_Topic = homeTopic, w_OpID = decimal_nat sequence, w_Author = [], w_Kind = KindSchedule,
      w_Body = payload\<rparr>"

text \<open>\<open>catchUpTopicWake\<close>: the wakes it enqueues, in order, for a view that materialised.\<close>

definition catchUpTopicWake :: "(string \<Rightarrow> string \<Rightarrow> string) \<Rightarrow> (string \<Rightarrow> string) \<Rightarrow> string \<Rightarrow> TopicWake
    \<Rightarrow> TopicView \<Rightarrow> Wake list" where
  "catchUpTopicWake uuid5 quote persona tw view =
     (let want = typeSet (tw_Types tw);
          have_ids = set (map t_OpID (tv_Contributions view));
          cs = filter (\<lambda>c. \<not> (t_Author c = persona \<or> t_Type c \<notin> want) \<and>
                 WakeOpID uuid5 (t_OpID c) persona \<notin> have_ids) (tv_Contributions view);
          ats = (if ''attachment.add'' \<in> want
                 then filter (\<lambda>a. \<not> (at_Author a = persona \<or> WakeOpID uuid5 (at_OpID a) persona \<in> have_ids))
                        (tv_Attachments view) else []) in
      map (\<lambda>c. \<lparr>w_Topic = tw_Path tw, w_OpID = t_OpID c, w_Author = t_Author c, w_Kind = KindTopic,
             w_Body = []\<rparr>) cs @
      map (\<lambda>a. \<lparr>w_Topic = tw_Path tw, w_OpID = at_OpID a, w_Author = at_Author a, w_Kind = KindTopic,
             w_Body = attachment_text quote (at_Name a)\<rparr>) ats)"

section \<open>Registering the schedules\<close>

record schedule_msg =
  sm_Subject :: string
  sm_Pattern :: string
  sm_Target :: string
  sm_TTL :: "string option"
  sm_Data :: string

datatype schedule_error = ScheduleSubject string | RegisterSchedule string string

text \<open>
  \<open>sched\<close>, \<open>tick\<close>: the core library's subjects for a persona and a schedule's name;
  \<open>publish\<close>: what publishing gives after the messages already registered.  The result is the
  error, if any, and the messages registered.
\<close>

definition schedule_message :: "(string \<Rightarrow> string) \<Rightarrow> string \<Rightarrow> string \<Rightarrow> ScheduleWake \<Rightarrow> schedule_msg" where
  "schedule_message quote subj target s =
     \<lparr>sm_Subject = subj, sm_Pattern = sw_Pattern s, sm_Target = target,
      sm_TTL = (if 0 < sw_TTL s then Some (Duration_String (sw_TTL s)) else None),
      sm_Data = ''schedule '' @ quote (sw_Name s) @ '' fired ('' @ sw_Pattern s @ '')''\<rparr>"

fun reconcileSchedules :: "(string \<Rightarrow> string) \<Rightarrow> (string \<Rightarrow> string \<Rightarrow> string + string)
    \<Rightarrow> (string \<Rightarrow> string \<Rightarrow> string + string) \<Rightarrow> (schedule_msg list \<Rightarrow> schedule_msg \<Rightarrow> string option)
    \<Rightarrow> string \<Rightarrow> ScheduleWake list \<Rightarrow> schedule_msg list \<Rightarrow> schedule_error option \<times> schedule_msg list" where
  "reconcileSchedules quote sched tick publish persona [] out = (None, out)"
| "reconcileSchedules quote sched tick publish persona (s # rest) out =
     (case sched persona (sw_Name s) of Inl e \<Rightarrow> (Some (ScheduleSubject e), out) | Inr subj \<Rightarrow>
      case tick persona (sw_Name s) of Inl e \<Rightarrow> (Some (ScheduleSubject e), out) | Inr target \<Rightarrow>
      let msg = schedule_message quote subj target s in
      case publish out msg of
        Some e \<Rightarrow> (Some (RegisterSchedule (sw_Name s) e), out)
      | None \<Rightarrow> reconcileSchedules quote sched tick publish persona rest (out @ [msg]))"

section \<open>Facts of the sources\<close>

lemma topic_wake_lawful:
  "subscribeTopicWake quote pn persona tw msg = Some w \<Longrightarrow>
     w_Topic w = tw_Path tw \<and> w_Kind w = KindTopic \<and> w_Author w \<noteq> persona"
  by (auto simp: subscribeTopicWake_def split: option.splits if_splits)

lemma backlog_lawful:
  "w \<in> set (catchUpTopicWake uuid5 quote persona tw view) \<Longrightarrow>
     w_Topic w = tw_Path tw \<and> w_Kind w = KindTopic \<and> w_Author w \<noteq> persona"
  by (auto simp: catchUpTopicWake_def Let_def split: if_splits)

lemma backlog_ids:
  "map w_OpID (catchUpTopicWake uuid5 quote persona tw view) =
     map t_OpID (filter (\<lambda>c. t_Author c \<noteq> persona \<and> t_Type c \<in> typeSet (tw_Types tw) \<and>
       \<not> ContainsOp (tv_Contributions view) (WakeOpID uuid5 (t_OpID c) persona)) (tv_Contributions view)) @
     map at_OpID (filter (\<lambda>a. at_Author a \<noteq> persona \<and> ''attachment.add'' \<in> typeSet (tw_Types tw) \<and>
       \<not> ContainsOp (tv_Contributions view) (WakeOpID uuid5 (at_OpID a) persona)) (tv_Attachments view))"
  by (auto simp: catchUpTopicWake_def Let_def ContainsOp_iff o_def intro!: arg_cong [where f = "map _"] filter_cong)


text \<open>A message registers an entry: its pattern, its tick subject, its backlog bound.\<close>

definition registers :: "(string \<Rightarrow> string) \<Rightarrow> (string \<Rightarrow> string \<Rightarrow> string + string)
    \<Rightarrow> (string \<Rightarrow> string \<Rightarrow> string + string) \<Rightarrow> string \<Rightarrow> ScheduleWake \<Rightarrow> schedule_msg \<Rightarrow> bool" where
  "registers quote sched tick persona s m \<longleftrightarrow>
     (\<exists>subj target. sched persona (sw_Name s) = Inr subj \<and> tick persona (sw_Name s) = Inr target \<and>
        m = schedule_message quote subj target s)"

text \<open>Reconciliation registers the entries in order, one message each, and stops at the
  first that fails: without an error every entry is registered, with one a proper prefix is.\<close>

theorem reconcileSchedules_prefix:
  "\<exists>ms. snd (reconcileSchedules quote sched tick publish persona ss out) = out @ ms \<and>
     list_all2 (registers quote sched tick persona) (take (length ms) ss) ms \<and>
     (if fst (reconcileSchedules quote sched tick publish persona ss out) = None
      then length ms = length ss else length ms < length ss)"
proof (induction ss arbitrary: out)
  case Nil
  then show ?case by simp
next
  case (Cons s ss)
  consider (stop) e where "reconcileSchedules quote sched tick publish persona (s # ss) out = (Some e, out)"
    | (go) subj target where "sched persona (sw_Name s) = Inr subj" "tick persona (sw_Name s) = Inr target"
      "publish out (schedule_message quote subj target s) = None"
    by (cases "sched persona (sw_Name s)"; cases "tick persona (sw_Name s)";
        cases "publish out (schedule_message quote (projr (sched persona (sw_Name s)))
          (projr (tick persona (sw_Name s))) s)")
       (auto simp: Let_def)
  then show ?case
  proof cases
    case stop
    then show ?thesis by (intro exI [of _ "[]"]) simp
  next
    case go
    let ?m = "schedule_message quote subj target s"
    have rec: "reconcileSchedules quote sched tick publish persona (s # ss) out =
        reconcileSchedules quote sched tick publish persona ss (out @ [?m])"
      using go by (simp add: Let_def)
    obtain ms where ms: "snd (reconcileSchedules quote sched tick publish persona ss (out @ [?m])) = (out @ [?m]) @ ms"
      "list_all2 (registers quote sched tick persona) (take (length ms) ss) ms"
      "if fst (reconcileSchedules quote sched tick publish persona ss (out @ [?m])) = None
       then length ms = length ss else length ms < length ss"
      using Cons.IH [of "out @ [?m]"] by blast
    have "registers quote sched tick persona s ?m" using go by (auto simp: registers_def)
    with ms rec show ?thesis
      by (intro exI [of _ "?m # ms"]) (auto simp del: reconcileSchedules.simps split: if_splits)
  qed
qed

end
