(* ===== verification/Wrap_Engine.thy ===== *)
theory Wrap_Engine
  imports Wrap_Sources
begin

text \<open>
  The engine (\<open>Wrapper.Run\<close>, src/wrap/wrap.go) as a state machine: the sources that enqueue on
  a channel of 64, the catch-up, and the select loop that hands one wake at a time to
  \<open>handleWake\<close>.  A step is one send, one receive or one event of the world; the subscriptions,
  the tick consumer and the main goroutine interleave freely.  What the world delivers (live
  messages, inbox, views) is unconstrained.
\<close>

section \<open>State\<close>

text \<open>The catch-up's work left: the inbox, a declared topic, or one send of a wake.\<close>

datatype task = TInbox | TTopic TopicWake | TPush Wake

datatype phase = CatchUp "task list" | Select | Returned

record engine =
  e_wakes :: "Wake list"
  e_phase :: phase
  e_reconnects :: bool
  e_done :: bool
  e_trace :: trace
  e_handled :: "Wake list"

definition wakes_cap :: nat where "wakes_cap = 64"

text \<open>The two ways to send: \<open>tryEnqueue\<close> drops when the channel is full; \<open>blockEnqueue\<close>
  waits, so its step needs room.\<close>

definition tryEnqueue :: "Wake \<Rightarrow> engine \<Rightarrow> engine" where
  "tryEnqueue w s = (if length (e_wakes s) < wakes_cap then s\<lparr>e_wakes := e_wakes s @ [w]\<rparr> else s)"

definition mentionOn :: "Config \<Rightarrow> bool" where
  "mentionOn cfg = (case cfg_Wakes cfg of None \<Rightarrow> True | Some ws \<Rightarrow> ws_Mention ws)"

definition topics_of :: "Config \<Rightarrow> TopicWake list" where
  "topics_of cfg = (case cfg_Wakes cfg of None \<Rightarrow> [] | Some ws \<Rightarrow> ws_Topics ws)"

definition subjects_of :: "Config \<Rightarrow> SubjectWake list" where
  "subjects_of cfg = (case cfg_Wakes cfg of None \<Rightarrow> [] | Some ws \<Rightarrow> ws_Subjects ws)"

definition schedules_of :: "Config \<Rightarrow> ScheduleWake list" where
  "schedules_of cfg = (case cfg_Wakes cfg of None \<Rightarrow> [] | Some ws \<Rightarrow> ws_Schedules ws)"

definition catch_up_tasks :: "Config \<Rightarrow> task list" where
  "catch_up_tasks cfg = (if mentionOn cfg then [TInbox] else []) @ map TTopic (topics_of cfg)"

section \<open>Starting\<close>

definition Run_checks :: "Config \<Rightarrow> wrap_error option" where
  "Run_checks cfg =
     orelse (Template_Validate (cfg_Template cfg))
       (orelse (Budget_Validate (cfg_Budget cfg)) (WakeSet_Validate (cfg_Wakes cfg) (cfg_HomeTopic cfg)))"

definition Run_start :: "Config \<Rightarrow> trace \<Rightarrow> wrap_error + engine" where
  "Run_start cfg tr =
     to_result (Run_checks cfg)
       \<lparr>e_wakes = [], e_phase = CatchUp (catch_up_tasks (ApplyDefaults cfg)), e_reconnects = False,
        e_done = False, e_trace = tr, e_handled = []\<rparr>"

section \<open>Steps\<close>

text \<open>The wakes the live callbacks try to enqueue: mentions when they are on, the declared
  topics' matching ops, the declared subjects' payloads.\<close>

definition live_wake :: "(string \<Rightarrow> string) \<Rightarrow> (string \<Rightarrow> string option) \<Rightarrow> (string \<Rightarrow> string) \<Rightarrow> Config
    \<Rightarrow> Wake \<Rightarrow> bool" where
  "live_wake quote pn sha cfg w \<longleftrightarrow>
     mentionOn cfg \<and> (\<exists>n. w = mention_wake n) \<or>
     (\<exists>tw \<in> set (topics_of cfg). \<exists>msg. subscribeTopicWake quote pn (cfg_Persona cfg) tw msg = Some w) \<or>
     subjects_of cfg \<noteq> [] \<and> (\<exists>payload. w = subscribeSubjectWake sha (cfg_HomeTopic cfg) payload)"

fun is_push :: "task \<Rightarrow> bool" where
  "is_push (TPush w) \<longleftrightarrow> True"
| "is_push _ \<longleftrightarrow> False"

text \<open>A send of the catch-up that sees the context end: the inbox's loop gives up the whole
  catch-up, a topic's replay only its own.\<close>

definition give_up :: "Wake \<Rightarrow> task list \<Rightarrow> task list" where
  "give_up w ts = (if w_Kind w = KindMention then [] else dropWhile is_push ts)"

inductive engine_step :: "(string \<Rightarrow> string \<Rightarrow> string) \<Rightarrow> (string \<Rightarrow> string) \<Rightarrow> (string \<Rightarrow> string option)
    \<Rightarrow> (string \<Rightarrow> string) \<Rightarrow> env \<Rightarrow> Config \<Rightarrow> engine \<Rightarrow> engine \<Rightarrow> bool"
  for uuid5 quote pn sha E cfg where
  live: "live_wake quote pn sha cfg w \<Longrightarrow> e_phase s \<noteq> Returned \<Longrightarrow>
    engine_step uuid5 quote pn sha E cfg s (tryEnqueue w s)"
| tick: "schedules_of cfg \<noteq> [] \<Longrightarrow> length (e_wakes s) < wakes_cap \<Longrightarrow> w = tick_wake (cfg_HomeTopic cfg) n d \<Longrightarrow>
    engine_step uuid5 quote pn sha E cfg s (s\<lparr>e_wakes := e_wakes s @ [w]\<rparr>)"
| inbox_failed: "e_phase s = CatchUp (TInbox # ts) \<Longrightarrow>
    engine_step uuid5 quote pn sha E cfg s (s\<lparr>e_phase := CatchUp ts\<rparr>)"
| inbox: "e_phase s = CatchUp (TInbox # ts) \<Longrightarrow>
    engine_step uuid5 quote pn sha E cfg s
      (s\<lparr>e_phase := CatchUp (map (\<lambda>n. TPush (mention_wake n)) (rev notes) @ ts)\<rparr>)"
| topic_failed: "e_phase s = CatchUp (TTopic tw # ts) \<Longrightarrow>
    engine_step uuid5 quote pn sha E cfg s (s\<lparr>e_phase := CatchUp ts\<rparr>)"
| topic: "e_phase s = CatchUp (TTopic tw # ts) \<Longrightarrow>
    engine_step uuid5 quote pn sha E cfg s
      (s\<lparr>e_phase := CatchUp (map TPush (catchUpTopicWake uuid5 quote (cfg_Persona cfg) tw view) @ ts)\<rparr>)"
| push: "e_phase s = CatchUp (TPush w # ts) \<Longrightarrow> length (e_wakes s) < wakes_cap \<Longrightarrow>
    engine_step uuid5 quote pn sha E cfg s (s\<lparr>e_phase := CatchUp ts, e_wakes := e_wakes s @ [w]\<rparr>)"
| push_cancelled: "e_phase s = CatchUp (TPush w # ts) \<Longrightarrow> e_done s \<Longrightarrow>
    engine_step uuid5 quote pn sha E cfg s (s\<lparr>e_phase := CatchUp (give_up w ts)\<rparr>)"
| caught_up: "e_phase s = CatchUp [] \<Longrightarrow>
    engine_step uuid5 quote pn sha E cfg s (s\<lparr>e_phase := Select\<rparr>)"
| reconnect: "engine_step uuid5 quote pn sha E cfg s (s\<lparr>e_reconnects := True\<rparr>)"
| cancel: "engine_step uuid5 quote pn sha E cfg s (s\<lparr>e_done := True\<rparr>)"
| select_done: "e_phase s = Select \<Longrightarrow> e_done s \<Longrightarrow>
    engine_step uuid5 quote pn sha E cfg s (s\<lparr>e_phase := Returned\<rparr>)"
| select_reconnect: "e_phase s = Select \<Longrightarrow> e_reconnects s \<Longrightarrow>
    engine_step uuid5 quote pn sha E cfg s
      (s\<lparr>e_phase := CatchUp (catch_up_tasks cfg), e_reconnects := False\<rparr>)"
| select_wake: "e_phase s = Select \<Longrightarrow> e_wakes s = w # rest \<Longrightarrow>
    handleWake uuid5 E cfg w (e_trace s) = (r, tr') \<Longrightarrow>
    engine_step uuid5 quote pn sha E cfg s
      (s\<lparr>e_wakes := rest, e_trace := tr', e_handled := e_handled s @ [w]\<rparr>)"

section \<open>What the engine works on\<close>

text \<open>A wake of a declared source: what the sources guarantee to \<open>handleWake\<close>.\<close>

definition lawful :: "Config \<Rightarrow> Wake \<Rightarrow> bool" where
  "lawful cfg w \<longleftrightarrow>
     w_Kind w = KindMention \<and> mentionOn cfg \<or>
     w_Kind w = KindTopic \<and> w_Topic w \<in> tw_Path ` set (topics_of cfg) \<and> w_Author w \<noteq> cfg_Persona cfg \<or>
     w_Kind w = KindSchedule \<and> schedules_of cfg \<noteq> [] \<and> w_Topic w = cfg_HomeTopic cfg \<and> w_Author w = [] \<or>
     w_Kind w = KindSubject \<and> subjects_of cfg \<noteq> [] \<and> w_Topic w = cfg_HomeTopic cfg \<and> w_Author w = []"

fun task_ok :: "Config \<Rightarrow> task \<Rightarrow> bool" where
  "task_ok cfg TInbox \<longleftrightarrow> mentionOn cfg"
| "task_ok cfg (TTopic tw) \<longleftrightarrow> tw \<in> set (topics_of cfg)"
| "task_ok cfg (TPush w) \<longleftrightarrow> lawful cfg w"

fun phase_ok :: "Config \<Rightarrow> phase \<Rightarrow> bool" where
  "phase_ok cfg (CatchUp ts) \<longleftrightarrow> (\<forall>t \<in> set ts. task_ok cfg t)"
| "phase_ok cfg _ \<longleftrightarrow> True"

definition engine_inv :: "Config \<Rightarrow> engine \<Rightarrow> bool" where
  "engine_inv cfg s \<longleftrightarrow> length (e_wakes s) \<le> wakes_cap \<and>
     (\<forall>w \<in> set (e_wakes s) \<union> set (e_handled s). lawful cfg w) \<and> phase_ok cfg (e_phase s)"

lemma live_lawful: "live_wake quote pn sha cfg w \<Longrightarrow> lawful cfg w"
  by (auto simp: live_wake_def lawful_def mention_wake_def subscribeSubjectWake_def
      KindMention_def KindTopic_def KindSubject_def dest!: topic_wake_lawful)

lemma mention_lawful: "mentionOn cfg \<Longrightarrow> lawful cfg (mention_wake n)"
  by (simp add: lawful_def mention_wake_def)

lemma tick_lawful: "schedules_of cfg \<noteq> [] \<Longrightarrow> lawful cfg (tick_wake (cfg_HomeTopic cfg) n d)"
  by (simp add: lawful_def tick_wake_def)

lemma backlog_task_ok:
  "tw \<in> set (topics_of cfg) \<Longrightarrow> w \<in> set (catchUpTopicWake uuid5 quote (cfg_Persona cfg) tw view) \<Longrightarrow>
     lawful cfg w"
  by (auto simp: lawful_def dest!: backlog_lawful)

lemma tasks_ok: "\<forall>t \<in> set (catch_up_tasks cfg). task_ok cfg t"
  by (auto simp: catch_up_tasks_def)

lemma give_up_sub: "set (give_up w ts) \<subseteq> set ts"
  by (auto simp: give_up_def dest: set_dropWhileD)

lemmas lawful_intros = live_lawful mention_lawful tick_lawful backlog_task_ok

text \<open>Starting states: what \<open>Run\<close> has set up when it enters the catch-up.\<close>

definition engine_init :: "Config \<Rightarrow> engine \<Rightarrow> bool" where
  "engine_init cfg s \<longleftrightarrow> (\<exists>cfg0. cfg = ApplyDefaults cfg0 \<and> Run_start cfg0 [] = Inr s)"

lemma engine_initD:
  "engine_init cfg s \<Longrightarrow> e_wakes s = [] \<and> e_handled s = [] \<and> e_trace s = [] \<and> \<not> e_done s \<and>
     e_phase s = CatchUp (catch_up_tasks cfg)"
  by (auto simp: engine_init_def Run_start_def)

interpretation eng: invariant_system "engine_init cfg" "engine_step uuid5 quote pn sha E cfg" "engine_inv cfg"
  for cfg uuid5 quote pn sha E
proof
  show "engine_inv cfg s" if "engine_init cfg s" for s
    using engine_initD [OF that] tasks_ok [of cfg] by (simp add: engine_inv_def)
next
  fix s s' assume "engine_inv cfg s" "engine_step uuid5 quote pn sha E cfg s s'"
  from this(2,1) show "engine_inv cfg s'"
  proof cases
    case (live w)
    with \<open>engine_inv cfg s\<close> show ?thesis by (auto simp: engine_inv_def tryEnqueue_def intro: lawful_intros)
  next
    case (push_cancelled w ts)
    with \<open>engine_inv cfg s\<close> give_up_sub [of w ts] show ?thesis by (auto simp: engine_inv_def)
  qed (use tasks_ok [of cfg] in \<open>auto simp: engine_inv_def intro: lawful_intros\<close>)
qed

text \<open>The record under the engine: an outcome slot is filled at most once.\<close>

interpretation eng_once: invariant_system "engine_init cfg" "engine_step uuid5 quote pn sha E cfg"
    "\<lambda>s. durable_realm E \<longrightarrow> distinct (landed (e_trace s))"
  for cfg uuid5 quote pn sha E
proof
  show "durable_realm E \<longrightarrow> distinct (landed (e_trace s))" if "engine_init cfg s" for s
    using engine_initD [OF that] by simp
next
  fix s s' assume "durable_realm E \<longrightarrow> distinct (landed (e_trace s))"
    and "engine_step uuid5 quote pn sha E cfg s s'"
  from this(2,1) show "durable_realm E \<longrightarrow> distinct (landed (e_trace s'))"
  proof cases
    case (select_wake w rest r tr')
    with \<open>durable_realm E \<longrightarrow> distinct (landed (e_trace s))\<close> show ?thesis
      using handleWake_landed [of E "e_trace s" uuid5 cfg w] by simp
  qed (simp_all add: tryEnqueue_def)
qed

abbreviation engine_reach :: "(string \<Rightarrow> string \<Rightarrow> string) \<Rightarrow> (string \<Rightarrow> string)
    \<Rightarrow> (string \<Rightarrow> string option) \<Rightarrow> (string \<Rightarrow> string) \<Rightarrow> env \<Rightarrow> Config \<Rightarrow> engine \<Rightarrow> bool" where
  "engine_reach uuid5 quote pn sha E cfg \<equiv> reach (engine_init cfg) (engine_step uuid5 quote pn sha E cfg)"

text \<open>C25. The engine works on declared sources only: whatever arrives in whatever order, the
  channel holds at most 64 wakes and every wake handled is a mention (when mentions are on), an
  op on a declared topic by another author, or a tick or payload that lands on the home topic.\<close>

theorem engine_handles_declared:
  assumes "engine_reach uuid5 quote pn sha E cfg s"
  shows "length (e_wakes s) \<le> wakes_cap \<and> list_all (lawful cfg) (e_wakes s @ e_handled s)"
  using eng.reach_inv [OF assms] by (auto simp: engine_inv_def list_all_iff)


section \<open>The catch-up and the capacity of the channel\<close>

text \<open>The main goroutine is the only receiver, and during the catch-up it is the sender.\<close>

definition blocked :: "engine \<Rightarrow> bool" where
  "blocked s \<longleftrightarrow> (\<exists>ws ts. e_phase s = CatchUp (map TPush ws @ ts) \<and>
     wakes_cap < length (e_wakes s) + length ws)"

lemma blocked_step:
  assumes "blocked s" and "engine_step uuid5 quote pn sha E cfg s s'" and "\<not> e_done s'"
    and len: "length (e_wakes s) \<le> wakes_cap"
  shows "blocked s' \<and> e_handled s' = e_handled s \<and> length (e_wakes s') \<le> wakes_cap"
proof -
  obtain ws ts where ph: "e_phase s = CatchUp (map TPush ws @ ts)"
    and n: "wakes_cap < length (e_wakes s) + length ws"
    using assms(1) by (auto simp: blocked_def)
  have ws: "ws \<noteq> []" using n len by auto
  then obtain w ws' where w: "ws = w # ws'" by (cases ws) auto
  show ?thesis
    using assms(2)
  proof cases
    case (live v)
    then show ?thesis using ph n len unfolding blocked_def tryEnqueue_def by auto
  next
    case (tick v k d)
    then show ?thesis using ph n unfolding blocked_def by auto
  next
    case (push v ts')
    with ph w have "v = w" "ts' = map TPush ws' @ ts" by auto
    with push n w show ?thesis unfolding blocked_def by auto
  next
    case (push_cancelled v ts')
    with assms(3) show ?thesis by simp
  next
    case reconnect
    then show ?thesis using ph n len unfolding blocked_def by auto
  qed (use ph w assms(3) in auto)
qed

lemma not_done_step: "engine_step uuid5 quote pn sha E cfg s s' \<Longrightarrow> e_done s \<Longrightarrow> e_done s'"
  by (erule engine_step.cases) (auto simp: tryEnqueue_def)

interpretation stuck: invariant_system
    "\<lambda>s. blocked s \<and> length (e_wakes s) \<le> wakes_cap \<and> e_handled s = h" "engine_step uuid5 quote pn sha E cfg"
    "\<lambda>s. e_done s \<or> blocked s \<and> length (e_wakes s) \<le> wakes_cap \<and> e_handled s = h"
  for h uuid5 quote pn sha E cfg
  by unfold_locales (auto dest: blocked_step not_done_step)

text \<open>C35. A catch-up that has more wakes left to send than the channel has room for never
  returns: until the context ends the engine stays in the catch-up and handles nothing, live
  wakes included.  (The goroutine that would receive is the one that sends.)\<close>

theorem catch_up_blocks:
  assumes "engine_reach uuid5 quote pn sha E cfg s"
    and "e_phase s = CatchUp (map TPush ws @ ts)" and "wakes_cap < length (e_wakes s) + length ws"
    and "(engine_step uuid5 quote pn sha E cfg)\<^sup>*\<^sup>* s t" and "\<not> e_done t"
  shows "e_phase t \<noteq> Select \<and> e_handled t = e_handled s"
proof -
  have "blocked s" using assms(2,3) by (auto simp: blocked_def)
  moreover have "length (e_wakes s) \<le> wakes_cap"
    using eng.reach_inv [OF assms(1)] by (simp add: engine_inv_def)
  ultimately have "blocked t \<and> e_handled t = e_handled s"
    using stuck.steps_inv [OF assms(4), of "e_handled s"] assms(5) by simp
  then show ?thesis by (auto simp: blocked_def)
qed

lemma catch_up_sends:
  assumes "e_phase s = CatchUp (map TPush ws)" and "length (e_wakes s) + length ws \<le> wakes_cap"
  shows "(engine_step uuid5 quote pn sha E cfg)\<^sup>*\<^sup>* s (s\<lparr>e_phase := Select, e_wakes := e_wakes s @ ws\<rparr>)"
  using assms
proof (induction ws arbitrary: s)
  case Nil
  then show ?case using engine_step.caught_up [of s uuid5 quote pn sha E cfg] by simp
next
  case (Cons w ws)
  let ?s' = "s\<lparr>e_phase := CatchUp (map TPush ws), e_wakes := e_wakes s @ [w]\<rparr>"
  have "engine_step uuid5 quote pn sha E cfg s ?s'"
    by (rule engine_step.push) (use Cons.prems in auto)
  moreover have "(engine_step uuid5 quote pn sha E cfg)\<^sup>*\<^sup>* ?s'
      (?s'\<lparr>e_phase := Select, e_wakes := e_wakes ?s' @ ws\<rparr>)"
    by (rule Cons.IH) (use Cons.prems in auto)
  ultimately show ?case by (simp add: converse_rtranclp_into_rtranclp)
qed

text \<open>A backlog that fits is delivered: with room for what is left, the catch-up can run to
  its end by its own sends, after which the loop finds the backlog queued in order.\<close>

theorem catch_up_completes:
  assumes "e_phase s = CatchUp (map TPush ws)" and "length (e_wakes s) + length ws \<le> wakes_cap"
  shows "(engine_step uuid5 quote pn sha E cfg)\<^sup>*\<^sup>* s (s\<lparr>e_phase := Select, e_wakes := e_wakes s @ ws\<rparr>)"
  using assms by (rule catch_up_sends)

section \<open>A concrete run\<close>

definition demo_note :: NotifyPayload where
  "demo_note = \<lparr>n_Topic = ''t'', n_OpID = ''op1'', n_Author = ''ann''\<rparr>"

lemma demo_note_wake: "mention_wake demo_note = demo_wake"
  by (simp add: mention_wake_def demo_note_def demo_wake_def)

definition demo_start :: engine where
  "demo_start = \<lparr>e_wakes = [], e_phase = CatchUp [TInbox], e_reconnects = False, e_done = False,
     e_trace = [], e_handled = []\<rparr>"

abbreviation demo_step :: "engine \<Rightarrow> engine \<Rightarrow> bool" where
  "demo_step \<equiv> engine_step demo_uuid (\<lambda>s. s) (\<lambda>s. None) (\<lambda>s. s) demo_env demo_config"

abbreviation demo_reach :: "engine \<Rightarrow> bool" where
  "demo_reach \<equiv> engine_reach demo_uuid (\<lambda>s. s) (\<lambda>s. None) (\<lambda>s. s) demo_env demo_config"

lemma demo_init: "engine_init demo_config demo_start"
proof -
  have "ApplyDefaults demo_config = demo_config"
    by (simp add: ApplyDefaults_def demo_config_def zero_Budget_def)
  moreover have "Run_start demo_config [] = Inr demo_start"
    by (simp add: Run_start_def Run_checks_def demo_config_def Template_Validate_def Budget_Validate_def
        WakeSet_Validate_def demo_start_def catch_up_tasks_def mentionOn_def topics_of_def)
  ultimately show ?thesis unfolding engine_init_def by metis
qed

definition demo_inbox :: "nat \<Rightarrow> engine" where
  "demo_inbox n = demo_start\<lparr>e_phase := CatchUp (map TPush (replicate n demo_wake))\<rparr>"

lemma demo_inbox_reach: "demo_reach (demo_inbox n)"
proof -
  have "demo_step demo_start (demo_start\<lparr>e_phase :=
      CatchUp (map (\<lambda>n. TPush (mention_wake n)) (rev (replicate n demo_note)) @ [])\<rparr>)"
    by (rule engine_step.inbox) (simp add: demo_start_def)
  then have "demo_step demo_start (demo_inbox n)"
    by (simp add: demo_inbox_def demo_note_wake)
  with demo_init show ?thesis by (blast intro: reach_init reach_step)
qed

definition demo_traces :: "trace \<times> trace" where
  "demo_traces = (let t1 = snd (handleWake demo_uuid demo_env demo_config demo_wake []) in
     (t1, snd (handleWake demo_uuid demo_env demo_config demo_wake t1)))"

definition demo_final :: engine where
  "demo_final = demo_start\<lparr>e_phase := Select, e_trace := snd demo_traces, e_handled := [demo_wake, demo_wake]\<rparr>"

lemma demo_final_reach: "demo_reach demo_final"
proof -
  let ?q = "demo_start\<lparr>e_phase := Select, e_wakes := [demo_wake, demo_wake]\<rparr>"
  let ?q1 = "?q\<lparr>e_wakes := [demo_wake], e_trace := fst demo_traces, e_handled := [demo_wake]\<rparr>"
  have "demo_step\<^sup>*\<^sup>* (demo_inbox 2)
      (demo_inbox 2\<lparr>e_phase := Select, e_wakes := e_wakes (demo_inbox 2) @ replicate 2 demo_wake\<rparr>)"
    by (rule catch_up_sends) (simp_all add: demo_inbox_def demo_start_def wakes_cap_def)
  then have "demo_step\<^sup>*\<^sup>* (demo_inbox 2) ?q"
    by (simp add: demo_inbox_def demo_start_def numeral_2_eq_2)
  then have q: "demo_reach ?q" by (rule reach_steps [OF demo_inbox_reach])
  have "demo_step ?q ?q1"
    using engine_step.select_wake [of ?q demo_wake "[demo_wake]" demo_uuid demo_env demo_config
        "fst (handleWake demo_uuid demo_env demo_config demo_wake [])" "fst demo_traces"]
    by (simp add: demo_start_def demo_traces_def Let_def prod_eq_iff)
  with q have q1: "demo_reach ?q1" by (blast intro: reach_step)
  have "demo_step ?q1 demo_final"
    using engine_step.select_wake [of ?q1 demo_wake "[]" demo_uuid demo_env demo_config
        "fst (handleWake demo_uuid demo_env demo_config demo_wake (fst demo_traces))" "snd demo_traces"]
    by (simp add: demo_start_def demo_final_def demo_traces_def Let_def prod_eq_iff)
  with q1 show ?thesis by (blast intro: reach_step)
qed

lemma demo_landed: "landed (snd demo_traces) = [(''t'', ''op1/bot'')]"
  by code_simp

theorem engine_handles_declared_witness:
  "e_handled demo_final = [demo_wake, demo_wake] \<and> list_all (lawful demo_config) (e_handled demo_final)"
  using engine_handles_declared [OF demo_final_reach] by (simp add: demo_final_def)


theorem catch_up_blocks_witness:
  "e_phase (demo_inbox 65) \<noteq> Select \<and> e_handled (demo_inbox 65) = []"
  using catch_up_blocks [OF demo_inbox_reach, of 65 "replicate 65 demo_wake" "[]" "demo_inbox 65"]
  by (simp add: demo_inbox_def demo_start_def wakes_cap_def)

theorem catch_up_completes_witness:
  "demo_step\<^sup>*\<^sup>* (demo_inbox 2)
     (demo_inbox 2\<lparr>e_phase := Select, e_wakes := [demo_wake, demo_wake]\<rparr>)"
  using catch_up_completes [of "demo_inbox 2" "[demo_wake, demo_wake]"]
  by (simp add: demo_inbox_def demo_start_def wakes_cap_def numeral_2_eq_2)

section \<open>Declared engines\<close>

text \<open>What \<open>DeclaredConfig\<close> gives, \<open>Run\<close> accepts: over a base configuration with a valid
  template and a valid budget, the engine of an accepted declaration starts, and its catch-up
  covers the declared sources: the inbox exactly when a mention is declared, and each declared
  topic.\<close>

theorem declared_config_runs:
  assumes "DeclaredConfig VN base d hc = Inr cfg"
    and "Template_Validate (cfg_Template base) = None" and "Budget_Validate (cfg_Budget base) = None"
  shows "\<exists>s. Run_start cfg tr = Inr s \<and> e_phase s = CatchUp
    ((if of_kind WakeMention (d_Wake d) \<noteq> [] then [TInbox] else []) @
     map (\<lambda>e. TTopic \<lparr>tw_Path = we_Path e, tw_Types = EffectiveTypes e\<rparr>) (of_kind WakeTopic (d_Wake d)))"
proof -
  note res = DeclaredConfig_result [OF assms(1)]
  have "Budget_Validate (cfg_Budget cfg) = None"
    using res(5,6) assms(3) by (cases "d_Budget d") auto
  then have "Run_checks cfg = None"
    using res(4) DeclaredConfig_template [OF assms(1,2)] by (simp add: Run_checks_def)
  then show ?thesis
    using res(3) by (simp add: Run_start_def catch_up_tasks_def mentionOn_def topics_of_def declared_set_def topic_wake_of_def)
qed

definition demo_engine_decl :: Declaration where
  "demo_engine_decl = \<lparr>d_Role = RoleAgent, d_Lifecycle = LifecycleService, d_Persona = ''bot'', d_Topic = ''lab'',
     d_Artifact = [], d_Args = [], d_Instructions = None, d_Capabilities = None,
     d_Wake = [\<lparr>we_Kind = WakeMention, we_Path = [], we_Types = [], we_Name = [], we_Pattern = [], we_TTL = [],
       we_Subject = []\<rparr>], d_Budget = None, d_Inference = None\<rparr>"

definition demo_base :: Config where
  "demo_base = \<lparr>cfg_Persona = [],
     cfg_Template = \<lparr>tpl_Command = [''agent''], tpl_Prompt = ''{{BODY}}'',
       tpl_Terminal = \<lparr>tm_TypeField = ''type'', tm_TerminalValue = ''result'', tm_TextField = ''text'',
         tm_StatusField = [], tm_SuccessValue = []\<rparr>,
       tpl_Env = Map.empty, tpl_MCPCommand = [], tpl_MCPArgs = [], tpl_MCPEnv = Map.empty\<rparr>,
     cfg_Scratch = ''s'', cfg_RunTimeout = 0, cfg_Retries = 0, cfg_InboxLimit = 0, cfg_Budget = zero_Budget,
     cfg_Unbudgeted = False, cfg_Wakes = None, cfg_HomeTopic = [], cfg_Instructions = None\<rparr>"

lemma demo_engine_accepts: "\<exists>c. DeclaredConfig kebab demo_base demo_engine_decl True = Inr c"
proof -
  have "Declaration_Validate kebab demo_engine_decl = None" by code_simp
  then show ?thesis
    unfolding DeclaredConfig_accepts
    by (simp add: demo_engine_decl_def demo_base_def bound_persona_def replayable_topics_def)
qed

theorem declared_config_runs_witness:
  "\<exists>cfg s. DeclaredConfig kebab demo_base demo_engine_decl True = Inr cfg \<and> Run_start cfg [] = Inr s \<and>
     e_phase s = CatchUp [TInbox]"
proof -
  obtain cfg where cfg: "DeclaredConfig kebab demo_base demo_engine_decl True = Inr cfg"
    using demo_engine_accepts by blast
  have "Template_Validate (cfg_Template demo_base) = None" "Budget_Validate (cfg_Budget demo_base) = None"
    by code_simp+
  from declared_config_runs [OF cfg this, of "[]"] cfg show ?thesis
    by (auto simp: demo_engine_decl_def)
qed

end
