(* ===== verification/Minter.thy ===== *)
theory Minter
  imports Declaration
begin

text \<open>
  Package \<open>minter\<close> (src/minter): the scope of a workload, the permissions and the mint tags
  derived from it (scope.go), and the two minters (minter.go, scoped.go), which share one
  contract, the locale \<open>minter_seam\<close>.

  The core library's subjects (\<open>topic.OpsSubject\<close>, \<open>topic.InfoSubjectWildcard\<close>) and names
  (\<open>identity.ValidName\<close>) are the fields of \<open>subjects\<close>; key handling and JWT encoding, of
  \<open>crypto\<close>.  \<open>UserClaims\<close> holds the claims the code sets; the library fills in the rest.
\<close>

section \<open>Scopes\<close>

record subjects =
  sb_Ops :: "string \<Rightarrow> string"
  sb_Info :: string
  sb_ValidName :: "string \<Rightarrow> bool"

record Scope =
  sc_Role :: string
  sc_Persona :: string
  sc_Topic :: string
  sc_Capabilities :: "Capabilities option"

definition notifyPrefix :: string where "notifyPrefix = ''SOULSTREAM.PERSONA.NOTIFY.''"
definition notifyWildcard :: string where "notifyWildcard = notifyPrefix @ ''*''"
definition svcPrefix :: string where "svcPrefix = ''SOULSTREAM.SVC.''"
definition svcWildcard :: string where "svcWildcard = svcPrefix @ ''>''"
definition inboxWildcard :: string where "inboxWildcard = ''_INBOX.>''"
definition jsAPIInfo :: string where "jsAPIInfo = ''$JS.API.INFO''"

definition TagKeyPersona :: string where "TagKeyPersona = ''persona''"
definition TagKeyTopic :: string where "TagKeyTopic = ''topic''"
definition TagKeyTool :: string where "TagKeyTool = ''tool''"

definition ServiceSubject :: "string \<Rightarrow> string" where
  "ServiceSubject toolPersona = svcPrefix @ toolPersona"

record PermSet =
  perm_Pub :: "string list"
  perm_Sub :: "string list"

definition PermissionSet :: "subjects \<Rightarrow> Scope \<Rightarrow> PermSet" where
  "PermissionSet S s =
     (if sc_Role s = RoleTool then
        \<lparr>perm_Pub = [inboxWildcard], perm_Sub = [svcPrefix @ sc_Persona s, inboxWildcard]\<rparr>
      else
        let ops = sb_Ops S (sc_Topic s);
            pub = [ops, notifyWildcard];
            pub1 = (case sc_Capabilities s of
                      None \<Rightarrow> pub @ [svcWildcard]
                    | Some c \<Rightarrow> pub @ map (\<lambda>t. svcPrefix @ t) (cap_Tools c)) in
        \<lparr>perm_Pub = pub1 @ [inboxWildcard, jsAPIInfo],
         perm_Sub = [ops, sb_Info S, notifyPrefix @ sc_Persona s, inboxWildcard]\<rparr>)"

datatype mint_error =
    CapsAgentOnly string | CapsInvalid decl_error | PersonaInvalid string | TopicInvalid decl_error
  | ScopeIncomplete | TTLNotPositiveMint | CapsNeeded
  | BadSeed string | SeedUnusable string | BadAccountKey string | NoServers
  | KeyFailed string | ClaimsInvalid | EncodeFailed string

definition validateCapabilities :: "subjects \<Rightarrow> Scope \<Rightarrow> mint_error option" where
  "validateCapabilities S s =
     (case sc_Capabilities s of None \<Rightarrow> None
      | Some c \<Rightarrow>
          if sc_Role s = RoleTool then Some (CapsAgentOnly (sc_Role s))
          else map_option CapsInvalid (Capabilities_Validate (sb_ValidName S) c))"

definition MintTags :: "subjects \<Rightarrow> Scope \<Rightarrow> mint_error + string list" where
  "MintTags S s =
     (case sc_Capabilities s of None \<Rightarrow> Inr []
      | Some c \<Rightarrow>
          (case validateCapabilities S s of Some e \<Rightarrow> Inl e
           | None \<Rightarrow>
              if \<not> sb_ValidName S (sc_Persona s) then Inl (PersonaInvalid (sc_Persona s))
              else (case ValidateTopicPath (sb_ValidName S) (sc_Topic s) of
                 Some e \<Rightarrow> Inl (TopicInvalid e)
               | None \<Rightarrow> Inr ([TagKeyPersona @ '':'' @ sc_Persona s, TagKeyTopic @ '':'' @ sc_Topic s] @
                   map (\<lambda>t. TagKeyTool @ '':'' @ t) (cap_Tools c)))))"

section \<open>Minting\<close>

record UserClaims =
  uc_Subject :: string
  uc_Name :: string
  uc_IssuerAccount :: string
  uc_Expires :: int
  uc_PubAllow :: "string list"
  uc_SubAllow :: "string list"
  uc_Scoped :: bool
  uc_Tags :: "string list"

text \<open>A key pair is its handle; a fresh user key is what \<open>nkeys.CreateUser\<close> gives at this mint.\<close>

record crypto =
  cr_FromSeed :: "string \<Rightarrow> string + string"
  cr_PublicKey :: "string \<Rightarrow> string + string"
  cr_Seed :: "string \<Rightarrow> string + string"
  cr_CreateUser :: "string + string"
  cr_ValidAccountKey :: "string \<Rightarrow> bool"
  cr_Blocking :: "UserClaims \<Rightarrow> bool"
  cr_Encode :: "UserClaims \<Rightarrow> string \<Rightarrow> string + string"
  cr_Now :: time

record Credential =
  pc_UserJWT :: string
  pc_UserSeed :: string
  pc_NatsServers :: "string list"
  pc_Persona :: string
  pc_Expires :: time

text \<open>Both minters keep a signing seed, the account's public key and the servers.\<close>

record minter_state =
  mi_seed :: string
  mi_rootAccountKey :: string
  mi_natsServers :: "string list"

text \<open>The two constructors differ in their messages only.\<close>

definition NewSigningKeyMinter ::
  "crypto \<Rightarrow> string \<Rightarrow> string \<Rightarrow> string list \<Rightarrow> mint_error + minter_state" where
  "NewSigningKeyMinter C seed rootKey servers =
     (case cr_FromSeed C seed of Inl e \<Rightarrow> Inl (BadSeed e) | Inr kp \<Rightarrow>
      case cr_PublicKey C kp of Inl e \<Rightarrow> Inl (SeedUnusable e) | Inr _ \<Rightarrow>
      if \<not> cr_ValidAccountKey C rootKey then Inl (BadAccountKey rootKey)
      else if servers = [] then Inl NoServers
      else Inr \<lparr>mi_seed = seed, mi_rootAccountKey = rootKey, mi_natsServers = servers\<rparr>)"

definition NewScopedSigningKeyMinter ::
  "crypto \<Rightarrow> string \<Rightarrow> string \<Rightarrow> string list \<Rightarrow> mint_error + minter_state" where
  "NewScopedSigningKeyMinter C seed rootKey servers =
     (case cr_FromSeed C seed of Inl e \<Rightarrow> Inl (BadSeed e) | Inr kp \<Rightarrow>
      case cr_PublicKey C kp of Inl e \<Rightarrow> Inl (SeedUnusable e) | Inr _ \<Rightarrow>
      if \<not> cr_ValidAccountKey C rootKey then Inl (BadAccountKey rootKey)
      else if servers = [] then Inl NoServers
      else Inr \<lparr>mi_seed = seed, mi_rootAccountKey = rootKey, mi_natsServers = servers\<rparr>)"

text \<open>The new user's public key and seed.\<close>

definition user_key :: "crypto \<Rightarrow> mint_error + string \<times> string" where
  "user_key C =
     (case cr_CreateUser C of Inl e \<Rightarrow> Inl (KeyFailed e) | Inr ukp \<Rightarrow>
      case cr_PublicKey C ukp of Inl e \<Rightarrow> Inl (KeyFailed e) | Inr upub \<Rightarrow>
      case cr_Seed C ukp of Inl e \<Rightarrow> Inl (KeyFailed e) | Inr useed \<Rightarrow> Inr (upub, useed))"

text \<open>Validate, sign and pack: the common tail of the two \<open>Mint\<close>s.\<close>

definition sign_claims ::
  "crypto \<Rightarrow> minter_state \<Rightarrow> UserClaims \<Rightarrow> string \<Rightarrow> string \<Rightarrow> time \<Rightarrow> mint_error + Credential" where
  "sign_claims C m uc useed persona expiry =
     (if cr_Blocking C uc then Inl ClaimsInvalid
      else case cr_FromSeed C (mi_seed m) of Inl e \<Rightarrow> Inl (KeyFailed e) | Inr akp \<Rightarrow>
      case cr_Encode C uc akp of Inl e \<Rightarrow> Inl (EncodeFailed e) | Inr token \<Rightarrow>
        Inr \<lparr>pc_UserJWT = token, pc_UserSeed = useed, pc_NatsServers = mi_natsServers m,
             pc_Persona = persona, pc_Expires = expiry\<rparr>)"

definition plain_claims :: "subjects \<Rightarrow> minter_state \<Rightarrow> Scope \<Rightarrow> string \<Rightarrow> time \<Rightarrow> UserClaims" where
  "plain_claims S m s upub expiry =
     \<lparr>uc_Subject = upub, uc_Name = sc_Persona s, uc_IssuerAccount = mi_rootAccountKey m,
      uc_Expires = expiry div Second, uc_PubAllow = perm_Pub (PermissionSet S s),
      uc_SubAllow = perm_Sub (PermissionSet S s), uc_Scoped = False, uc_Tags = []\<rparr>"

definition scoped_claims :: "minter_state \<Rightarrow> Scope \<Rightarrow> string \<Rightarrow> time \<Rightarrow> string list \<Rightarrow> UserClaims" where
  "scoped_claims m s upub expiry tags =
     \<lparr>uc_Subject = upub, uc_Name = sc_Persona s, uc_IssuerAccount = mi_rootAccountKey m,
      uc_Expires = expiry div Second, uc_PubAllow = [], uc_SubAllow = [], uc_Scoped = True,
      uc_Tags = tags\<rparr>"

definition SigningKeyMinter_Mint ::
  "subjects \<Rightarrow> crypto \<Rightarrow> minter_state \<Rightarrow> Scope \<Rightarrow> duration \<Rightarrow> mint_error + Credential" where
  "SigningKeyMinter_Mint S C m s ttl =
     (if sc_Persona s = [] \<or> sc_Topic s = [] then Inl ScopeIncomplete
      else if ttl \<le> 0 then Inl TTLNotPositiveMint
      else case validateCapabilities S s of Some e \<Rightarrow> Inl e | None \<Rightarrow>
      case user_key C of Inl e \<Rightarrow> Inl e | Inr (upub, useed) \<Rightarrow>
        let expiry = cr_Now C + ttl in
        sign_claims C m (plain_claims S m s upub expiry) useed (sc_Persona s) expiry)"

definition ScopedSigningKeyMinter_Mint ::
  "subjects \<Rightarrow> crypto \<Rightarrow> minter_state \<Rightarrow> Scope \<Rightarrow> duration \<Rightarrow> mint_error + Credential" where
  "ScopedSigningKeyMinter_Mint S C m s ttl =
     (if sc_Capabilities s = None then Inl CapsNeeded
      else if sc_Persona s = [] \<or> sc_Topic s = [] then Inl ScopeIncomplete
      else if ttl \<le> 0 then Inl TTLNotPositiveMint
      else case MintTags S s of Inl e \<Rightarrow> Inl e | Inr tags \<Rightarrow>
      case user_key C of Inl e \<Rightarrow> Inl e | Inr (upub, useed) \<Rightarrow>
        let expiry = cr_Now C + ttl in
        sign_claims C m (scoped_claims m s upub expiry tags) useed (sc_Persona s) expiry)"

section \<open>The seam\<close>

text \<open>The tools a claim names: the service subjects it may publish on, or, when its
  permissions are the role key's template, its \<open>tool\<close> tags.\<close>

definition granted_tools :: "UserClaims \<Rightarrow> string list" where
  "granted_tools uc =
     (if uc_Scoped uc then List.map_filter (\<lambda>t. CutPrefix t (TagKeyTool @ '':'')) (uc_Tags uc)
      else List.map_filter (\<lambda>p. CutPrefix p svcPrefix) (uc_PubAllow uc))"

definition honours :: "subjects \<Rightarrow> Scope \<Rightarrow> UserClaims \<Rightarrow> bool" where
  "honours S s uc \<longleftrightarrow>
     (uc_Scoped uc \<longrightarrow> uc_PubAllow uc = [] \<and> uc_SubAllow uc = []) \<and>
     (case sc_Capabilities s of
        None \<Rightarrow> \<not> uc_Scoped uc
      | Some c \<Rightarrow> sc_Role s \<noteq> RoleTool \<and> Capabilities_Validate (sb_ValidName S) c = None \<and>
          granted_tools uc = cap_Tools c)"

text \<open>The claims behind a credential: whose it is, who issued it, until when, for what.\<close>

definition claims_for ::
  "subjects \<Rightarrow> crypto \<Rightarrow> minter_state \<Rightarrow> Scope \<Rightarrow> duration \<Rightarrow> UserClaims \<Rightarrow> Credential \<Rightarrow> bool" where
  "claims_for S C m s ttl uc c \<longleftrightarrow>
     (\<exists>kp. cr_Encode C uc kp = Inr (pc_UserJWT c)) \<and> \<not> cr_Blocking C uc \<and>
     sc_Persona s \<noteq> [] \<and> sc_Topic s \<noteq> [] \<and> 0 < ttl \<and>
     uc_Name uc = sc_Persona s \<and> uc_IssuerAccount uc = mi_rootAccountKey m \<and>
     pc_Persona c = sc_Persona s \<and> pc_NatsServers c = mi_natsServers m \<and>
     pc_Expires c = cr_Now C + ttl \<and> uc_Expires uc = pc_Expires c div Second \<and> honours S s uc"

text \<open>What the core library's subjects are used for: a topic's ops are not a tool's service.\<close>

definition ops_apart :: "subjects \<Rightarrow> bool" where
  "ops_apart S \<longleftrightarrow> (\<forall>t. \<not> HasPrefix (sb_Ops S t) svcPrefix)"

locale minter_seam =
  fixes S :: subjects and C :: crypto and m :: minter_state
    and mint :: "Scope \<Rightarrow> duration \<Rightarrow> mint_error + Credential"
  assumes mint_claims: "ops_apart S \<Longrightarrow> mint s ttl = Inr c \<Longrightarrow> \<exists>uc. claims_for S C m s ttl uc c"
begin

lemma mint_guard:
  "ops_apart S \<Longrightarrow> mint s ttl = Inr c \<Longrightarrow> sc_Persona s \<noteq> [] \<and> sc_Topic s \<noteq> [] \<and> 0 < ttl"
  by (auto dest!: mint_claims simp: claims_for_def)

lemma mint_lifetime:
  "ops_apart S \<Longrightarrow> mint s ttl = Inr c \<Longrightarrow> pc_Persona c = sc_Persona s \<and> pc_Expires c = cr_Now C + ttl"
  by (auto dest!: mint_claims simp: claims_for_def)

lemma mint_narrow:
  assumes "ops_apart S" and "mint s ttl = Inr c" and "sc_Capabilities s = Some k"
  shows "\<exists>uc kp. cr_Encode C uc kp = Inr (pc_UserJWT c) \<and> granted_tools uc = cap_Tools k \<and>
    uc_Name uc = sc_Persona s"
  using mint_claims [OF assms(1,2)] assms(3) by (auto simp: claims_for_def honours_def)

text \<open>A capability-scoped credential never carries the wildcard over all tools.\<close>

lemma mint_no_wildcard:
  assumes "ops_apart S" and "\<not> sb_ValidName S ''>''" and "mint s ttl = Inr c"
    and "sc_Capabilities s = Some k"
  shows "\<exists>uc kp. cr_Encode C uc kp = Inr (pc_UserJWT c) \<and> svcWildcard \<notin> set (uc_PubAllow uc)"
proof -
  obtain uc kp where uc: "cr_Encode C uc kp = Inr (pc_UserJWT c)" "honours S s uc"
    using mint_claims [OF assms(1,3)] by (auto simp: claims_for_def)
  have "svcWildcard \<notin> set (uc_PubAllow uc)"
  proof
    assume "svcWildcard \<in> set (uc_PubAllow uc)"
    then have "\<not> uc_Scoped uc \<and> ''>'' \<in> set (granted_tools uc)"
      using uc(2) by (force simp: honours_def granted_tools_def List.map_filter_def svcWildcard_def)
    with uc(2) assms(4) have "sb_ValidName S ''>''"
      by (auto simp: honours_def Capabilities_ok list_all_iff)
    with assms(2) show False by simp
  qed
  with uc(1) show ?thesis by blast
qed

end

section \<open>Permissions and tags\<close>

lemma map_filter_append: "List.map_filter f (xs @ ys) = List.map_filter f xs @ List.map_filter f ys"
  by (simp add: List.map_filter_def)

lemma map_filter_cut: "List.map_filter (\<lambda>s. CutPrefix s p) (map (\<lambda>t. p @ t) ts) = ts"
  by (induction ts) (simp_all add: List.map_filter_def)

lemma cut_none: "\<not> HasPrefix s p \<Longrightarrow> CutPrefix s p = None"
  by (simp add: CutPrefix_def HasPrefix_def)

lemma fixed_subjects [simp]:
  "CutPrefix notifyWildcard svcPrefix = None" "CutPrefix inboxWildcard svcPrefix = None"
  "CutPrefix jsAPIInfo svcPrefix = None" "CutPrefix svcWildcard svcPrefix = Some ''>''"
  by (simp_all add: CutPrefix_def notifyWildcard_def notifyPrefix_def svcPrefix_def inboxWildcard_def
      jsAPIInfo_def svcWildcard_def)

lemma map_filter_single: "List.map_filter f [x] = (case f x of None \<Rightarrow> [] | Some y \<Rightarrow> [y])"
  by (simp add: List.map_filter_def split: option.split)

lemma map_filter_Cons: "List.map_filter f (x # xs) = (case f x of None \<Rightarrow> [] | Some y \<Rightarrow> [y]) @ List.map_filter f xs"
  by (simp add: List.map_filter_def split: option.split)

lemma tool_grant:
  assumes "ops_apart S"
  shows "List.map_filter (\<lambda>p. CutPrefix p svcPrefix) (perm_Pub (PermissionSet S s)) =
    (if sc_Role s = RoleTool then []
     else case sc_Capabilities s of None \<Rightarrow> [''>''] | Some c \<Rightarrow> cap_Tools c)"
proof -
  have "CutPrefix (sb_Ops S (sc_Topic s)) svcPrefix = None"
    using assms by (simp add: ops_apart_def cut_none)
  then show ?thesis
    by (simp add: PermissionSet_def Let_def map_filter_append map_filter_cut map_filter_single
        map_filter_Cons List.map_filter_def [of _ "[]"] split: option.split)
qed

lemma tag_tools:
  assumes "MintTags S s = Inr tags" and "sc_Capabilities s = Some c"
  shows "List.map_filter (\<lambda>t. CutPrefix t (TagKeyTool @ '':'')) tags = cap_Tools c"
proof -
  have "CutPrefix (TagKeyPersona @ '':'' @ sc_Persona s) (TagKeyTool @ '':'') = None"
    "CutPrefix (TagKeyTopic @ '':'' @ sc_Topic s) (TagKeyTool @ '':'') = None"
    by (simp_all add: CutPrefix_def TagKeyPersona_def TagKeyTopic_def TagKeyTool_def)
  moreover have "tags = [TagKeyPersona @ '':'' @ sc_Persona s, TagKeyTopic @ '':'' @ sc_Topic s] @
      map (\<lambda>t. TagKeyTool @ '':'' @ t) (cap_Tools c)"
    using assms by (auto simp: MintTags_def split: option.splits if_splits)
  ultimately show ?thesis
    using map_filter_cut [of "TagKeyTool @ '':''" "cap_Tools c"] by (simp add: map_filter_Cons)
qed

lemma validateCapabilities_ok [checks]:
  "validateCapabilities S s = None \<longleftrightarrow> (\<forall>c. sc_Capabilities s = Some c \<longrightarrow>
     sc_Role s \<noteq> RoleTool \<and> Capabilities_Validate (sb_ValidName S) c = None)"
  by (auto simp: validateCapabilities_def split: option.split)

lemma MintTags_ok:
  "(\<exists>tags. MintTags S s = Inr tags) \<longleftrightarrow> (sc_Capabilities s \<noteq> None \<longrightarrow>
     validateCapabilities S s = None \<and> sb_ValidName S (sc_Persona s) \<and>
     ValidateTopicPath (sb_ValidName S) (sc_Topic s) = None)"
  by (auto simp: MintTags_def split: option.splits)

lemma plain_honours:
  assumes "ops_apart S" and "validateCapabilities S s = None"
  shows "honours S s (plain_claims S m s upub expiry)"
  using assms tool_grant [OF assms(1), of s]
  by (auto simp: honours_def plain_claims_def granted_tools_def validateCapabilities_ok split: option.splits)

lemma scoped_honours:
  assumes "MintTags S s = Inr tags" and "sc_Capabilities s = Some c"
  shows "honours S s (scoped_claims m s upub expiry tags)"
proof -
  have "validateCapabilities S s = None" using assms MintTags_ok [of S s] by auto
  with assms tag_tools [OF assms] show ?thesis
    by (simp add: honours_def scoped_claims_def granted_tools_def validateCapabilities_ok)
qed

lemma sign_claims_ok:
  "sign_claims C m uc useed p e = Inr c \<Longrightarrow> \<not> cr_Blocking C uc \<and> (\<exists>kp. cr_Encode C uc kp = Inr (pc_UserJWT c)) \<and>
     pc_Persona c = p \<and> pc_Expires c = e \<and> pc_NatsServers c = mi_natsServers m"
  by (auto simp: sign_claims_def split: if_splits sum.splits)

interpretation plain: minter_seam S C m "SigningKeyMinter_Mint S C m" for S C m
proof
  fix s ttl c assume apart: "ops_apart S" and "SigningKeyMinter_Mint S C m s ttl = Inr c"
  then obtain upub useed where ok: "sc_Persona s \<noteq> []" "sc_Topic s \<noteq> []" "0 < ttl" "validateCapabilities S s = None"
    "sign_claims C m (plain_claims S m s upub (cr_Now C + ttl)) useed (sc_Persona s) (cr_Now C + ttl) = Inr c"
    by (auto simp: SigningKeyMinter_Mint_def Let_def split: if_splits option.splits sum.splits)
  have "claims_for S C m s ttl (plain_claims S m s upub (cr_Now C + ttl)) c"
    unfolding claims_for_def using ok(1-3) sign_claims_ok [OF ok(5)] plain_honours [OF apart ok(4)]
    by (auto simp: plain_claims_def)
  then show "\<exists>uc. claims_for S C m s ttl uc c" by blast
qed

interpretation scoped: minter_seam S C m "ScopedSigningKeyMinter_Mint S C m" for S C m
proof
  fix s ttl c assume "ScopedSigningKeyMinter_Mint S C m s ttl = Inr c"
  then obtain upub useed tags k where ok: "sc_Capabilities s = Some k" "sc_Persona s \<noteq> []" "sc_Topic s \<noteq> []" "0 < ttl"
    "MintTags S s = Inr tags"
    "sign_claims C m (scoped_claims m s upub (cr_Now C + ttl) tags) useed (sc_Persona s) (cr_Now C + ttl) = Inr c"
    by (auto simp: ScopedSigningKeyMinter_Mint_def Let_def split: if_splits option.splits sum.splits)
  have "claims_for S C m s ttl (scoped_claims m s upub (cr_Now C + ttl) tags) c"
    unfolding claims_for_def using ok(2-4) sign_claims_ok [OF ok(6)] scoped_honours [OF ok(5,1)]
    by (auto simp: scoped_claims_def)
  then show "\<exists>uc. claims_for S C m s ttl uc c" by blast
qed

section \<open>The minters' theorems\<close>

text \<open>The tool namespace of a scope: among the subjects it may publish on, those under the
  service prefix are none for a tool, the wildcard for an agent that declares no capabilities,
  and otherwise exactly the service subjects of the declared tools, in their order.\<close>

theorem PermissionSet_tool_grant:
  assumes "ops_apart S"
  shows "filter (\<lambda>p. HasPrefix p svcPrefix) (perm_Pub (PermissionSet S s)) =
    (if sc_Role s = RoleTool then []
     else case sc_Capabilities s of None \<Rightarrow> [svcWildcard] | Some c \<Rightarrow> map ServiceSubject (cap_Tools c))"
proof -
  have ops: "\<not> HasPrefix (sb_Ops S (sc_Topic s)) svcPrefix" using assms by (simp add: ops_apart_def)
  have fixed: "\<not> HasPrefix notifyWildcard svcPrefix" "\<not> HasPrefix inboxWildcard svcPrefix"
    "\<not> HasPrefix jsAPIInfo svcPrefix" "HasPrefix svcWildcard svcPrefix"
    by (simp_all add: HasPrefix_def notifyWildcard_def notifyPrefix_def svcPrefix_def inboxWildcard_def
        jsAPIInfo_def svcWildcard_def)
  have tools: "filter (\<lambda>p. HasPrefix p svcPrefix) (map (\<lambda>t. svcPrefix @ t) ts) = map ServiceSubject ts" for ts
    by (induction ts) (simp_all add: ServiceSubject_def)
  show ?thesis
    using ops fixed by (simp add: PermissionSet_def Let_def tools split: option.split)
qed

text \<open>C13. A credential of the plain minter is bounded and narrowed: it belongs to the scope's
  persona, expires exactly \<open>ttl\<close> after the mint, and the claims that were signed into it grant
  exactly the declared tools when capabilities are declared.\<close>

theorem plain_mint_bounded:
  assumes "ops_apart S" and "SigningKeyMinter_Mint S C m s ttl = Inr c"
  shows "\<exists>uc. claims_for S C m s ttl uc c"
  using assms by (rule plain.mint_claims)

text \<open>C14. The scoped minter keeps the same contract with a claim that carries no permission of
  its own and names exactly the declared tools in its tags; it mints only scopes that declare
  capabilities.\<close>

theorem scoped_mint_bounded:
  assumes "ops_apart S" and "ScopedSigningKeyMinter_Mint S C m s ttl = Inr c"
  shows "sc_Capabilities s \<noteq> None \<and> (\<exists>uc. claims_for S C m s ttl uc c)"
proof -
  have "sc_Capabilities s \<noteq> None"
    using assms(2) by (cases "sc_Capabilities s") (auto simp: ScopedSigningKeyMinter_Mint_def)
  with scoped.mint_claims [OF assms] show ?thesis by blast
qed

text \<open>Keys and library that do their part.\<close>

definition working :: "crypto \<Rightarrow> minter_state \<Rightarrow> bool" where
  "working C m \<longleftrightarrow> (\<exists>k. user_key C = Inr k) \<and> (\<forall>uc. \<not> cr_Blocking C uc) \<and>
     (\<exists>kp. cr_FromSeed C (mi_seed m) = Inr kp \<and> (\<forall>uc. \<exists>tok. cr_Encode C uc kp = Inr tok))"

lemma working_signs: "working C m \<Longrightarrow> \<exists>c. sign_claims C m uc useed p e = Inr c"
  unfolding working_def sign_claims_def by (elim conjE exE) (metis sum.case(2))

lemma plain_accepts:
  assumes "working C m"
  shows "(\<exists>c. SigningKeyMinter_Mint S C m s ttl = Inr c) \<longleftrightarrow>
    sc_Persona s \<noteq> [] \<and> sc_Topic s \<noteq> [] \<and> 0 < ttl \<and> validateCapabilities S s = None"
proof -
  obtain upub useed where "user_key C = Inr (upub, useed)" using assms by (auto simp: working_def)
  with working_signs [OF assms] show ?thesis
    by (auto simp: SigningKeyMinter_Mint_def Let_def split: option.split)
qed

lemma scoped_accepts:
  assumes "working C m"
  shows "(\<exists>c. ScopedSigningKeyMinter_Mint S C m s ttl = Inr c) \<longleftrightarrow>
    sc_Capabilities s \<noteq> None \<and> sc_Persona s \<noteq> [] \<and> sc_Topic s \<noteq> [] \<and> 0 < ttl \<and>
    (\<exists>tags. MintTags S s = Inr tags)"
proof -
  obtain upub useed where "user_key C = Inr (upub, useed)" using assms by (auto simp: working_def)
  with working_signs [OF assms] show ?thesis
    by (auto simp: ScopedSigningKeyMinter_Mint_def Let_def split: sum.split)
qed

text \<open>The two lanes: with working keys, the scoped minter accepts exactly the scopes that
  declare capabilities, that the plain minter accepts too, and whose persona and topic are in
  the name grammar (they become tags).\<close>

theorem mint_lanes:
  assumes "working C m"
  shows "(\<exists>c. ScopedSigningKeyMinter_Mint S C m s ttl = Inr c) \<longleftrightarrow>
    sc_Capabilities s \<noteq> None \<and> (\<exists>c. SigningKeyMinter_Mint S C m s ttl = Inr c) \<and>
    sb_ValidName S (sc_Persona s) \<and> ValidateTopicPath (sb_ValidName S) (sc_Topic s) = None"
  unfolding scoped_accepts [OF assms] plain_accepts [OF assms] MintTags_ok by blast

section \<open>A concrete minter\<close>

definition demo_subjects :: subjects where
  "demo_subjects = \<lparr>sb_Ops = (\<lambda>t. ''SOULSTREAM.TOPIC.OPS.'' @ t), sb_Info = ''SOULSTREAM.TOPIC.INFO.>'',
     sb_ValidName = kebab\<rparr>"

definition demo_crypto :: crypto where
  "demo_crypto = \<lparr>cr_FromSeed = Inr, cr_PublicKey = Inr, cr_Seed = Inr, cr_CreateUser = Inr ''u'',
     cr_ValidAccountKey = (\<lambda>k. True), cr_Blocking = (\<lambda>uc. False),
     cr_Encode = (\<lambda>uc kp. Inr (uc_Name uc)), cr_Now = 0\<rparr>"

definition demo_minter :: minter_state where
  "demo_minter = \<lparr>mi_seed = ''SA'', mi_rootAccountKey = ''A'', mi_natsServers = [''n'']\<rparr>"

definition demo_scope :: Scope where
  "demo_scope = \<lparr>sc_Role = RoleAgent, sc_Persona = ''bot'', sc_Topic = ''lab'',
     sc_Capabilities = Some \<lparr>cap_Role = ''r'', cap_Tools = [''upper'']\<rparr>\<rparr>"

definition demo_cred :: Credential where
  "demo_cred = \<lparr>pc_UserJWT = ''bot'', pc_UserSeed = ''u'', pc_NatsServers = [''n''], pc_Persona = ''bot'',
     pc_Expires = 5\<rparr>"

lemma demo_apart: "ops_apart demo_subjects"
  by (simp add: ops_apart_def demo_subjects_def HasPrefix_def svcPrefix_def)

lemma demo_working: "working demo_crypto demo_minter"
  by (simp add: working_def demo_crypto_def user_key_def)

lemma demo_mints:
  "SigningKeyMinter_Mint demo_subjects demo_crypto demo_minter demo_scope 5 = Inr demo_cred"
  "ScopedSigningKeyMinter_Mint demo_subjects demo_crypto demo_minter demo_scope 5 = Inr demo_cred"
  by code_simp+

theorem PermissionSet_tool_grant_witness:
  "filter (\<lambda>p. HasPrefix p svcPrefix) (perm_Pub (PermissionSet demo_subjects demo_scope)) =
     [''SOULSTREAM.SVC.upper'']"
  using PermissionSet_tool_grant [OF demo_apart, of demo_scope]
  by (simp add: demo_scope_def ServiceSubject_def svcPrefix_def)

theorem plain_mint_bounded_witness:
  "\<exists>uc. claims_for demo_subjects demo_crypto demo_minter demo_scope 5 uc demo_cred"
  using plain_mint_bounded [OF demo_apart demo_mints(1)] .

theorem scoped_mint_bounded_witness:
  "\<exists>uc. claims_for demo_subjects demo_crypto demo_minter demo_scope 5 uc demo_cred"
  using scoped_mint_bounded [OF demo_apart demo_mints(2)] by blast

theorem mint_lanes_witness:
  "\<exists>c. SigningKeyMinter_Mint demo_subjects demo_crypto demo_minter demo_scope 5 = Inr c"
  using mint_lanes [OF demo_working, of demo_subjects demo_scope 5] demo_mints(2) by blast

end
