(* ===== verification/Artifact.thy ===== *)
theory Artifact
  imports Declaration
begin

text \<open>
  Package \<open>artifact\<close> (src/artifact/artifact.go): fetching a lineage's tip from the record,
  digest-checked, and resolving a declaration's artifact to a local path.  The topic view and
  the operations on it belong to the core library (\<open>fetcher\<close>); the file system's answers are
  the fields of \<open>files\<close>, and what the code writes is returned as a list of calls.
\<close>

record Artefact =
  art_OpID :: string
  art_Object :: string
  art_Digest :: string

record 'v fetcher =
  fe_Materialise :: "string \<Rightarrow> string + 'v"
  fe_FindArtefact :: "'v \<Rightarrow> string \<Rightarrow> string + Artefact"
  fe_GetAttachment :: "string \<Rightarrow> string + string"
  fe_VerifyDigest :: "string \<Rightarrow> string \<Rightarrow> bool"

datatype artifact_error =
    FetchMaterialise string string | FetchFind string | FetchGet string
  | DigestMismatch string string string
  | RefInvalid decl_error | NeedsRealmClient string | ScratchDir string | WriteFailed string string
  | NotResolvable string

definition Fetch :: "'v fetcher \<Rightarrow> string \<Rightarrow> string \<Rightarrow> artifact_error + string \<times> Artefact" where
  "Fetch F topicPath ref =
     (case fe_Materialise F topicPath of Inl e \<Rightarrow> Inl (FetchMaterialise topicPath e) | Inr view \<Rightarrow>
      case fe_FindArtefact F view ref of Inl e \<Rightarrow> Inl (FetchFind e) | Inr art \<Rightarrow>
      case fe_GetAttachment F (art_Object art) of Inl e \<Rightarrow> Inl (FetchGet e) | Inr data \<Rightarrow>
        if \<not> fe_VerifyDigest F data (art_Digest art)
        then Inl (DigestMismatch ref (art_OpID art) (art_Digest art))
        else Inr (data, art))"

datatype file_call = MkdirAll string nat | WriteFile string string nat

record files =
  fs_MkdirAll :: "string \<Rightarrow> nat \<Rightarrow> string option"
  fs_WriteFile :: "string \<Rightarrow> string \<Rightarrow> nat \<Rightarrow> string option"

text \<open>\<open>client\<close>: the resolver has a realm client.  Modes are written in octal in the source.\<close>

definition Resolve :: "(string \<Rightarrow> bool) \<Rightarrow> 'v fetcher \<Rightarrow> files \<Rightarrow> bool \<Rightarrow> Declaration \<Rightarrow> string
    \<Rightarrow> (artifact_error + string) \<times> file_call list" where
  "Resolve ValidName F fs client d scratchDir =
     (case Declaration_ArtifactRef ValidName d of Inl e \<Rightarrow> (Inl (RefInvalid e), []) | Inr ref \<Rightarrow>
      if ref_Scheme ref = SchemeFile then (Inr (ref_Path ref), [])
      else if ref_Scheme ref = SchemeSoulstream then
        (if \<not> client then (Inl (NeedsRealmClient (d_Artifact d)), [])
         else case Fetch F (ref_Topic ref) (ref_Name ref) of Inl e \<Rightarrow> (Inl e, []) | Inr (data, art) \<Rightarrow>
           let mk = MkdirAll scratchDir 0x1ED in
           (case fs_MkdirAll fs scratchDir 0x1ED of Some e \<Rightarrow> (Inl (ScratchDir e), [mk]) | None \<Rightarrow>
              let path = path_Join [scratchDir, ref_Name ref]; wr = WriteFile path data 0x1C0 in
              (case fs_WriteFile fs path data 0x1C0 of
                 Some e \<Rightarrow> (Inl (WriteFailed path e), [mk, wr])
               | None \<Rightarrow> (Inr path, [mk, wr]))))
      else (Inl (NotResolvable (ref_Scheme ref)), []))"

lemma Fetch_ok:
  "Fetch F t ref = Inr (data, art) \<longleftrightarrow> (\<exists>view. fe_Materialise F t = Inr view \<and>
     fe_FindArtefact F view ref = Inr art \<and> fe_GetAttachment F (art_Object art) = Inr data \<and>
     fe_VerifyDigest F data (art_Digest art))"
  by (auto simp: Fetch_def split: sum.splits if_splits)


text \<open>A file:// artifact is its host path: nothing is fetched and nothing written.\<close>

lemma Resolve_file:
  "Declaration_ArtifactRef VN d = Inr ref \<Longrightarrow> ref_Scheme ref = SchemeFile \<Longrightarrow>
     Resolve VN F fs client d scratch = (Inr (ref_Path ref), [])"
  by (simp add: Resolve_def)

end
