(* ===== verification/Runner.thy ===== *)
theory Runner
  imports Minter Artifact
begin

text \<open>
  Package \<open>runner\<close> (src/runner) with the seam types of package \<open>backend\<close>
  (src/backend/backend.go): the life of one workload as work ops on a topic.  The topic
  client, the minter, the artifact source and the backend are the fields of an environment;
  each call takes the calls made so far and is recorded with its answer.
\<close>

section \<open>Outcomes\<close>

record ExitStatus =
  xs_Code :: int
  xs_Signal :: string

definition Signalled :: "ExitStatus \<Rightarrow> bool" where
  "Signalled e \<longleftrightarrow> xs_Signal e \<noteq> []"

record LaunchSpec =
  ls_Artifact :: string
  ls_Args :: "string list"
  ls_Cred :: Credential
  ls_Realm :: string
  ls_Topic :: string
  ls_ScratchDir :: string

datatype Terminal = TerminalDone | TerminalAbandon

definition ReasonStartFailed :: string where "ReasonStartFailed = ''start-failed''"
definition ReasonSignal :: string where "ReasonSignal = ''signal''"
definition ReasonNonzeroExit :: string where "ReasonNonzeroExit = ''nonzero-exit''"

definition Outcome :: "string option \<Rightarrow> ExitStatus \<Rightarrow> Terminal \<times> string" where
  "Outcome startErr st =
     (if startErr \<noteq> None then (TerminalAbandon, ReasonStartFailed)
      else if Signalled st then (TerminalAbandon, ReasonSignal)
      else if xs_Code st \<noteq> 0 then (TerminalAbandon, ReasonNonzeroExit)
      else (TerminalDone, []))"

section \<open>Calls and environments\<close>

type_synonym handle = string

datatype rcall =
    KMint Scope duration "mint_error + Credential"
  | KOpen string string "string + string"
  | KResolve Declaration string "string + string"
  | KStart LaunchSpec "string + handle"
  | KClaim string "string + string"
  | KComplete string "string + string"
  | KAbandon string "string + string"
  | KWait handle ExitStatus
  | KStop handle "string option"

type_synonym rtrace = "rcall list"

text \<open>\<open>rv_exits_first\<close>: the workload exits by itself before the context is cancelled.\<close>

record run_env =
  rv_Mint :: "rtrace \<Rightarrow> Scope \<Rightarrow> duration \<Rightarrow> mint_error + Credential"
  rv_Open :: "rtrace \<Rightarrow> string \<Rightarrow> string \<Rightarrow> string + string"
  rv_Resolve :: "rtrace \<Rightarrow> Declaration \<Rightarrow> string \<Rightarrow> string + string"
  rv_Start :: "rtrace \<Rightarrow> LaunchSpec \<Rightarrow> string + handle"
  rv_Claim :: "rtrace \<Rightarrow> string \<Rightarrow> string + string"
  rv_Complete :: "rtrace \<Rightarrow> string \<Rightarrow> string + string"
  rv_Abandon :: "rtrace \<Rightarrow> string \<Rightarrow> string + string"
  rv_Wait :: "rtrace \<Rightarrow> handle \<Rightarrow> ExitStatus"
  rv_Stop :: "rtrace \<Rightarrow> handle \<Rightarrow> string option"
  rv_exits_first :: "rtrace \<Rightarrow> handle \<Rightarrow> bool"

record Runner =
  rn_Realm :: string
  rn_CredTTL :: duration
  rn_ScratchRoot :: string
  rn_Artifacts :: bool

record Running =
  rw_handle :: handle
  rw_itemID :: string

datatype run_error =
    RunInvalid decl_error | RunRef decl_error | NoArtifactSource string | MintFailed string mint_error
  | OpenFailed string | ResolveFailed string | ResolveAbandonFailed string string
  | StartFailed string string | StartAbandonFailed string string | ClaimFailed string
  | StopFailed string | CompleteFailed string | AbandonFailed string

section \<open>Launch\<close>

definition scope_of :: "Declaration \<Rightarrow> Scope" where
  "scope_of d = \<lparr>sc_Role = d_Role d, sc_Persona = d_Persona d, sc_Topic = d_Topic d,
     sc_Capabilities = d_Capabilities d\<rparr>"

definition work_title :: "Declaration \<Rightarrow> string" where
  "work_title d = ''run '' @ d_Artifact d @ '' as '' @ d_Persona d"

definition work_body :: "Declaration \<Rightarrow> string" where
  "work_body d = ''role='' @ d_Role d @ '' lifecycle='' @ d_Lifecycle d @ '' persona='' @ d_Persona d @
     '' topic='' @ d_Topic d @ '' artifact='' @ d_Artifact d"

text \<open>The checks before any op: the declaration, its reference, the artifact source.\<close>

definition preflight :: "(string \<Rightarrow> bool) \<Rightarrow> Runner \<Rightarrow> Declaration \<Rightarrow> run_error + ArtifactRef" where
  "preflight ValidName r d =
     (case Declaration_Validate ValidName d of Some e \<Rightarrow> Inl (RunInvalid e) | None \<Rightarrow>
      case Declaration_ArtifactRef ValidName d of Inl e \<Rightarrow> Inl (RunRef e) | Inr ref \<Rightarrow>
        if ref_Scheme ref \<noteq> SchemeFile \<and> \<not> rn_Artifacts r then Inl (NoArtifactSource (d_Artifact d))
        else Inr ref)"

text \<open>The start on an open item: resolve when the reference has no path, start, claim.\<close>

definition start_item :: "run_env \<Rightarrow> Runner \<Rightarrow> Declaration \<Rightarrow> Credential \<Rightarrow> string \<Rightarrow> string \<Rightarrow> string
    \<Rightarrow> rtrace \<Rightarrow> (run_error + Running) \<times> rtrace" where
  "start_item E r d cred itemID scratchDir artifactPath tr =
     (let spec = \<lparr>ls_Artifact = artifactPath, ls_Args = d_Args d, ls_Cred = cred, ls_Realm = rn_Realm r,
                  ls_Topic = d_Topic d, ls_ScratchDir = scratchDir\<rparr>;
          h = rv_Start E tr spec; tr1 = tr @ [KStart spec h] in
      case h of
        Inl startErr \<Rightarrow>
          (let reason = snd (Outcome (Some startErr) \<lparr>xs_Code = 0, xs_Signal = []\<rparr>);
               a = rv_Abandon E tr1 itemID; tr2 = tr1 @ [KAbandon itemID a] in
           case a of
             Inl aerr \<Rightarrow> (Inl (StartAbandonFailed startErr aerr), tr2)
           | Inr _ \<Rightarrow> (Inl (StartFailed reason startErr), tr2))
      | Inr hnd \<Rightarrow>
          (let c = rv_Claim E tr1 itemID; tr2 = tr1 @ [KClaim itemID c] in
           case c of
             Inl e \<Rightarrow> (Inl (ClaimFailed e), tr2)
           | Inr _ \<Rightarrow> (Inr \<lparr>rw_handle = hnd, rw_itemID = itemID\<rparr>, tr2)))"

definition resolve_item :: "run_env \<Rightarrow> Runner \<Rightarrow> Declaration \<Rightarrow> Credential \<Rightarrow> string \<Rightarrow> string \<Rightarrow> string
    \<Rightarrow> rtrace \<Rightarrow> (run_error + Running) \<times> rtrace" where
  "resolve_item E r d cred itemID scratchDir artifactPath tr =
     (if artifactPath \<noteq> [] then start_item E r d cred itemID scratchDir artifactPath tr
      else
        let rs = rv_Resolve E tr d scratchDir; tr1 = tr @ [KResolve d scratchDir rs] in
        case rs of
          Inl rerr \<Rightarrow>
            (let a = rv_Abandon E tr1 itemID; tr2 = tr1 @ [KAbandon itemID a] in
             case a of
               Inl aerr \<Rightarrow> (Inl (ResolveAbandonFailed rerr aerr), tr2)
             | Inr _ \<Rightarrow> (Inl (ResolveFailed rerr), tr2))
        | Inr resolved \<Rightarrow> start_item E r d cred itemID scratchDir resolved tr1)"

definition Launch :: "(string \<Rightarrow> bool) \<Rightarrow> run_env \<Rightarrow> Runner \<Rightarrow> Declaration \<Rightarrow> rtrace
    \<Rightarrow> (run_error + Running) \<times> rtrace" where
  "Launch ValidName E r d tr =
     (case preflight ValidName r d of Inl e \<Rightarrow> (Inl e, tr) | Inr ref \<Rightarrow>
      let mc = rv_Mint E tr (scope_of d) (rn_CredTTL r);
          tr1 = tr @ [KMint (scope_of d) (rn_CredTTL r) mc] in
      case mc of Inl e \<Rightarrow> (Inl (MintFailed (d_Persona d) e), tr1) | Inr cred \<Rightarrow>
      let opened = rv_Open E tr1 (work_title d) (work_body d);
          tr2 = tr1 @ [KOpen (work_title d) (work_body d) opened] in
      case opened of Inl e \<Rightarrow> (Inl (OpenFailed e), tr2) | Inr itemID \<Rightarrow>
        resolve_item E r d cred itemID (path_Join [rn_ScratchRoot r, itemID]) (ref_Path ref) tr2)"

section \<open>The end of a run\<close>

definition terminal :: "run_env \<Rightarrow> Running \<Rightarrow> Terminal \<Rightarrow> rtrace \<Rightarrow> run_error option \<times> rtrace" where
  "terminal E rw term tr =
     (case term of
        TerminalDone \<Rightarrow>
          (let c = rv_Complete E tr (rw_itemID rw); tr1 = tr @ [KComplete (rw_itemID rw) c] in
           case c of Inl e \<Rightarrow> (Some (CompleteFailed e), tr1) | Inr _ \<Rightarrow> (None, tr1))
      | TerminalAbandon \<Rightarrow>
          (let a = rv_Abandon E tr (rw_itemID rw); tr1 = tr @ [KAbandon (rw_itemID rw) a] in
           case a of Inl e \<Rightarrow> (Some (AbandonFailed e), tr1) | Inr _ \<Rightarrow> (None, tr1)))"

definition Wait :: "run_env \<Rightarrow> Running \<Rightarrow> rtrace \<Rightarrow> run_error option \<times> rtrace" where
  "Wait E rw tr =
     (let st = rv_Wait E tr (rw_handle rw) in
      terminal E rw (fst (Outcome None st)) (tr @ [KWait (rw_handle rw) st]))"

definition Stop :: "run_env \<Rightarrow> Running \<Rightarrow> rtrace \<Rightarrow> run_error option \<times> rtrace" where
  "Stop E rw tr =
     (let s = rv_Stop E tr (rw_handle rw); tr1 = tr @ [KStop (rw_handle rw) s] in
      case s of Some e \<Rightarrow> (Some (StopFailed e), tr1)
      | None \<Rightarrow>
          (let st = rv_Wait E tr1 (rw_handle rw) in
           terminal E rw TerminalDone (tr1 @ [KWait (rw_handle rw) st])))"

definition Serve :: "run_env \<Rightarrow> Running \<Rightarrow> rtrace \<Rightarrow> run_error option \<times> rtrace" where
  "Serve E rw tr =
     (if rv_exits_first E tr (rw_handle rw) then
        (let st = rv_Wait E tr (rw_handle rw) in
         terminal E rw (fst (Outcome None st)) (tr @ [KWait (rw_handle rw) st]))
      else
        (let s = rv_Stop E tr (rw_handle rw); tr1 = tr @ [KStop (rw_handle rw) s];
             st = rv_Wait E tr1 (rw_handle rw) in
         terminal E rw TerminalDone (tr1 @ [KWait (rw_handle rw) st])))"

definition Run :: "(string \<Rightarrow> bool) \<Rightarrow> run_env \<Rightarrow> Runner \<Rightarrow> Declaration \<Rightarrow> rtrace
    \<Rightarrow> run_error option \<times> rtrace" where
  "Run ValidName E r d tr =
     (case Launch ValidName E r d tr of
        (Inl e, tr1) \<Rightarrow> (Some e, tr1)
      | (Inr rw, tr1) \<Rightarrow> Wait E rw tr1)"

section \<open>Projections\<close>

text \<open>The work ops published (or tried), and the workloads started and stopped.\<close>

fun is_op :: "rcall \<Rightarrow> bool" where
  "is_op (KOpen t b r) \<longleftrightarrow> True"
| "is_op (KClaim i r) \<longleftrightarrow> True"
| "is_op (KComplete i r) \<longleftrightarrow> True"
| "is_op (KAbandon i r) \<longleftrightarrow> True"
| "is_op _ \<longleftrightarrow> False"

definition ops :: "rtrace \<Rightarrow> rcall list" where
  "ops tr = filter is_op tr"

fun started :: "rtrace \<Rightarrow> (LaunchSpec \<times> handle) list" where
  "started [] = []"
| "started (KStart s (Inr h) # tr) = (s, h) # started tr"
| "started (_ # tr) = started tr"

fun stopped_handles :: "rtrace \<Rightarrow> handle list" where
  "stopped_handles [] = []"
| "stopped_handles (KStop h r # tr) = h # stopped_handles tr"
| "stopped_handles (_ # tr) = stopped_handles tr"

lemma ops_simps [simp, trace_simps]: "ops [] = []" "ops (k # tr) = (if is_op k then k # ops tr else ops tr)"
  "ops (a @ b) = ops a @ ops b"
  by (simp_all add: ops_def)

lemma started_append [simp, trace_simps]: "started (a @ b) = started a @ started b"
  by (induction a rule: started.induct) auto

lemma stopped_append [simp, trace_simps]: "stopped_handles (a @ b) = stopped_handles a @ stopped_handles b"
  by (induction a rule: stopped_handles.induct) auto

section \<open>What a launch leaves behind\<close>

text \<open>The calls of the start on item \<open>item\<close>, by result.\<close>

definition item_story :: "string \<Rightarrow> run_error + Running \<Rightarrow> rtrace \<Rightarrow> bool" where
  "item_story item r ext \<longleftrightarrow> stopped_handles ext = [] \<and>
     (case r of
        Inr rw \<Rightarrow> rw_itemID rw = item \<and> (\<exists>spec c. ops ext = [KClaim item (Inr c)] \<and> started ext = [(spec, rw_handle rw)])
      | Inl (ClaimFailed e) \<Rightarrow> \<exists>s. ops ext = [KClaim item (Inl e)] \<and> started ext = [s]
      | Inl (StartFailed reason e) \<Rightarrow> (\<exists>a. ops ext = [KAbandon item (Inr a)]) \<and> started ext = [] \<and>
          reason = ReasonStartFailed
      | Inl (ResolveFailed e) \<Rightarrow> (\<exists>a. ops ext = [KAbandon item (Inr a)]) \<and> started ext = []
      | Inl (StartAbandonFailed e a) \<Rightarrow> ops ext = [KAbandon item (Inl a)] \<and> started ext = []
      | Inl (ResolveAbandonFailed e a) \<Rightarrow> ops ext = [KAbandon item (Inl a)] \<and> started ext = []
      | Inl _ \<Rightarrow> False)"

lemma start_item_story:
  "\<exists>r ext. start_item E rn d cred item scratch path tr = (r, tr @ ext) \<and> item_story item r ext"
  by (auto simp: start_item_def Let_def item_story_def Outcome_def split: sum.split)

lemma resolve_item_story:
  "\<exists>r ext. resolve_item E rn d cred item scratch path tr = (r, tr @ ext) \<and> item_story item r ext"
proof (cases "path \<noteq> []")
  case True
  with start_item_story show ?thesis by (simp add: resolve_item_def)
next
  case False
  define rs where "rs = rv_Resolve E tr d scratch"
  note unf = resolve_item_def Let_def rs_def [symmetric]
  show ?thesis
  proof (cases rs)
    case (Inl e)
    with False show ?thesis by (auto simp: unf item_story_def split: sum.split)
  next
    case (Inr p)
    obtain r ext where *: "start_item E rn d cred item scratch p (tr @ [KResolve d scratch rs]) =
        (r, (tr @ [KResolve d scratch rs]) @ ext)" "item_story item r ext"
      using start_item_story by blast
    have "item_story item r (KResolve d scratch rs # ext)"
      using *(2) by (simp add: item_story_def split: sum.splits run_error.splits)
    with *(1) False Inr show ?thesis by (auto simp: unf)
  qed
qed

definition launch_story :: "Declaration \<Rightarrow> run_error + Running \<Rightarrow> rtrace \<Rightarrow> bool" where
  "launch_story d r ext \<longleftrightarrow>
     (case r of
        Inl (RunInvalid e) \<Rightarrow> ext = []
      | Inl (RunRef e) \<Rightarrow> ext = []
      | Inl (NoArtifactSource a) \<Rightarrow> ext = []
      | Inl (MintFailed p e) \<Rightarrow> ops ext = [] \<and> started ext = []
      | Inl (OpenFailed e) \<Rightarrow> ops ext = [KOpen (work_title d) (work_body d) (Inl e)] \<and> started ext = []
      | _ \<Rightarrow> \<exists>item pre post. ext = pre @ post \<and> started pre = [] \<and>
          ops pre = [KOpen (work_title d) (work_body d) (Inr item)] \<and> item_story item r post)"

lemma item_story_not:
  "\<not> item_story item (Inl (RunInvalid e)) ext" "\<not> item_story item (Inl (RunRef e)) ext"
  "\<not> item_story item (Inl (NoArtifactSource a)) ext" "\<not> item_story item (Inl (MintFailed p me)) ext"
  "\<not> item_story item (Inl (OpenFailed oe)) ext"
  by (simp_all add: item_story_def)

lemma item_launch_story:
  assumes "item_story item r post" and "started pre = []"
    and "ops pre = [KOpen (work_title d) (work_body d) (Inr item)]"
  shows "launch_story d r (pre @ post)"
proof -
  have ex: "\<exists>item pre' post'. pre @ post = pre' @ post' \<and> started pre' = [] \<and>
      ops pre' = [KOpen (work_title d) (work_body d) (Inr item)] \<and> item_story item r post'"
    using assms by blast
  show ?thesis
  proof (cases r)
    case (Inl e)
    with ex assms(1) show ?thesis
      by (cases e) (auto simp only: launch_story_def item_story_not sum.case run_error.case)
  qed (use ex in \<open>simp only: launch_story_def sum.case\<close>)
qed

lemma preflight_error: "preflight VN rn d = Inl e \<Longrightarrow> launch_story d (Inl e) []"
  by (auto simp: preflight_def launch_story_def split: option.splits sum.splits if_splits)

lemma Launch_story_lemma:
  "\<exists>r ext. Launch VN E rn d tr = (r, tr @ ext) \<and> launch_story d r ext"
proof (cases "preflight VN rn d")
  case (Inl e)
  with preflight_error show ?thesis by (auto simp: Launch_def)
next
  case pf: (Inr ref)
  define mc where "mc = rv_Mint E tr (scope_of d) (rn_CredTTL rn)"
  define mk where "mk = KMint (scope_of d) (rn_CredTTL rn) mc"
  define opn where "opn = rv_Open E (tr @ [mk]) (work_title d) (work_body d)"
  define ok where "ok = KOpen (work_title d) (work_body d) opn"
  note unf = Launch_def Let_def mc_def [symmetric] mk_def [symmetric] opn_def [symmetric] ok_def [symmetric]
  consider (m) e where "mc = Inl e" | (noopen) cred e where "mc = Inr cred" "opn = Inl e"
    | (go) cred item where "mc = Inr cred" "opn = Inr item"
    by (cases mc; cases opn) auto
  then show ?thesis
  proof cases
    case m
    with pf show ?thesis by (simp add: unf launch_story_def mk_def)
  next
    case noopen
    then have "Launch VN E rn d tr = (Inl (OpenFailed e), tr @ [mk, ok])"
      using pf by (simp add: Launch_def Let_def mc_def mk_def opn_def ok_def)
    moreover have "launch_story d (Inl (OpenFailed e)) [mk, ok]"
      using noopen by (simp add: launch_story_def mk_def ok_def)
    ultimately show ?thesis by blast
  next
    case go
    let ?scratch = "path_Join [rn_ScratchRoot rn, item]"
    obtain r ext where *: "resolve_item E rn d cred item ?scratch (ref_Path ref) (tr @ [mk, ok]) =
        (r, (tr @ [mk, ok]) @ ext)" "item_story item r ext"
      using resolve_item_story by blast
    have "Launch VN E rn d tr = (r, tr @ [mk, ok] @ ext)" using pf go *(1)
      by (simp add: Launch_def Let_def mc_def mk_def opn_def ok_def)
    moreover have pre: "started [mk, ok] = []" "ops [mk, ok] = [KOpen (work_title d) (work_body d) (Inr item)]"
      using go by (simp_all add: mk_def ok_def)
    have "launch_story d r ([mk, ok] @ ext)" by (rule item_launch_story [OF *(2) pre])
    ultimately show ?thesis by blast
  qed
qed

text \<open>C19. Preflight publishes nothing and a failure leaves no dangling claim.  By result: an
  invalid declaration, a bad reference, a missing artifact source or a refused mint publishes no
  op and starts nothing; after the item is open, a failed resolve or start abandons it and
  claims nothing; success is one open, one start, one claim of that item.  (A failed claim
  leaves the item open and the started workload running: nothing stops it.)\<close>

theorem Launch_story:
  "\<exists>r ext. Launch VN E rn d tr = (r, tr @ ext) \<and> launch_story d r ext"
  by (rule Launch_story_lemma)

section \<open>The whole life\<close>

definition clean :: "ExitStatus \<Rightarrow> bool" where
  "clean st \<longleftrightarrow> \<not> Signalled st \<and> xs_Code st = 0"

lemma Outcome_done: "fst (Outcome None st) = TerminalDone \<longleftrightarrow> clean st"
  by (auto simp: Outcome_def clean_def)

text \<open>C23. How a run ends is what its item says: a run that returns without an error has opened
  and claimed one item, started one workload, waited for it, and then completed the item if the
  workload exited cleanly, abandoned it otherwise.\<close>

theorem Run_life:
  assumes "Run VN E rn d tr = (None, tr')"
  shows "\<exists>ext item c h st t. tr' = tr @ ext \<and> (\<exists>spec. started ext = [(spec, h)]) \<and> KWait h st \<in> set ext \<and>
    ops ext = [KOpen (work_title d) (work_body d) (Inr item), KClaim item (Inr c),
      (if clean st then KComplete item (Inr t) else KAbandon item (Inr t))]"
proof -
  obtain r ext where L: "Launch VN E rn d tr = (r, tr @ ext)" "launch_story d r ext"
    using Launch_story_lemma by blast
  obtain rw where r: "r = Inr rw" using assms L(1) by (auto simp: Run_def split: sum.splits)
  from L(2) r obtain item pre post where ext: "ext = pre @ post" "started pre = []"
      "ops pre = [KOpen (work_title d) (work_body d) (Inr item)]" "item_story item (Inr rw) post"
    by (auto simp: launch_story_def)
  from ext(4) obtain spec c where post: "rw_itemID rw = item" "ops post = [KClaim item (Inr c)]"
      "started post = [(spec, rw_handle rw)]" by (auto simp: item_story_def)
  define st where "st = rv_Wait E (tr @ ext) (rw_handle rw)"
  have "terminal E rw (fst (Outcome None st)) ((tr @ ext) @ [KWait (rw_handle rw) st]) = (None, tr')"
    using assms L(1) r by (simp add: Run_def Wait_def Let_def st_def)
  then obtain t where "tr' = (tr @ ext) @ [KWait (rw_handle rw) st] @
      [if clean st then KComplete item (Inr t) else KAbandon item (Inr t)]"
    using post(1) Outcome_done [of st]
    by (cases "fst (Outcome None st)") (auto simp: terminal_def Let_def split: sum.splits)
  then show ?thesis
    using ext post
    by (intro exI [of _ "ext @ [KWait (rw_handle rw) st] @
        [if clean st then KComplete item (Inr t) else KAbandon item (Inr t)]"] exI [of _ item] exI [of _ c]
        exI [of _ "rw_handle rw"] exI [of _ st] exI [of _ t]) auto
qed

text \<open>Serving ends once and is reaped: whichever comes first, the exit or the
  cancellation, the workload is waited for exactly once and one terminal op is published for
  its item; a cancelled service is stopped first and recorded as done.\<close>

theorem Serve_ends:
  "\<exists>st r. snd (Serve E rw tr) = tr @
     (if rv_exits_first E tr (rw_handle rw) then
        [KWait (rw_handle rw) st,
         if clean st then KComplete (rw_itemID rw) r else KAbandon (rw_itemID rw) r]
      else
        [KStop (rw_handle rw) (rv_Stop E tr (rw_handle rw)), KWait (rw_handle rw) st,
         KComplete (rw_itemID rw) r])"
proof (cases "rv_exits_first E tr (rw_handle rw)")
  case True
  define st where "st = rv_Wait E tr (rw_handle rw)"
  have "\<exists>r. snd (terminal E rw (fst (Outcome None st)) (tr @ [KWait (rw_handle rw) st])) = tr @
      [KWait (rw_handle rw) st, if clean st then KComplete (rw_itemID rw) r else KAbandon (rw_itemID rw) r]"
    using Outcome_done [of st]
    by (cases "fst (Outcome None st)") (auto simp: terminal_def Let_def split: sum.splits)
  with True show ?thesis by (auto simp: Serve_def Let_def st_def)
next
  case False
  then show ?thesis by (auto simp: Serve_def Let_def terminal_def split: sum.split)
qed

section \<open>Declarations and the runner\<close>

text \<open>An engine-served agent has nothing to launch: a declaration without an artifact, valid
  or not, never gets past preflight, whatever the runner's environment.\<close>

theorem Launch_needs_artifact:
  assumes "d_Artifact d = []"
  shows "snd (Launch VN E rn d tr) = tr \<and> isl (fst (Launch VN E rn d tr))"
proof -
  have "\<exists>e. preflight VN rn d = Inl e"
    using ArtifactRef_empty [OF assms] by (auto simp: preflight_def split: option.split)
  then show ?thesis by (auto simp: Launch_def)
qed

text \<open>Validation covers minting: the scope of a valid declaration always renders its mint
  tags, and with working keys and a positive lifetime the plain minter accepts it.\<close>

theorem valid_declaration_mints:
  assumes "Declaration_Validate (sb_ValidName S) d = None" and "name_grammar (sb_ValidName S)"
  shows "(\<exists>tags. MintTags S (scope_of d) = Inr tags) \<and>
    (working C m \<and> 0 < ttl \<longrightarrow> (\<exists>c. SigningKeyMinter_Mint S C m (scope_of d) ttl = Inr c))"
proof -
  note parts = Declaration_ok_parts [OF assms(1)]
  have v: "validateCapabilities S (scope_of d) = None"
  proof (cases "d_Role d = RoleAgent")
    case True
    with parts(7) show ?thesis by (auto simp: validateCapabilities_ok scope_of_def)
  next
    case False
    with parts(8) show ?thesis by (simp add: validateCapabilities_ok scope_of_def)
  qed
  have "d_Persona d \<noteq> []" "d_Topic d \<noteq> []"
    using parts(3,4) assms(2) by (auto simp: name_grammar_def topic_path_ok)
  with v parts(3,4) show ?thesis
    using plain_accepts [of C m S "scope_of d" ttl] MintTags_ok [of S "scope_of d"]
    by (simp add: scope_of_def)
qed

text \<open>The credential of a started workload is what the minter gave for the declaration's scope.\<close>

lemma start_item_cred:
  "start_item E rn d cred item scratch path tr = (r, tr @ ext) \<Longrightarrow> (spec, h) \<in> set (started ext) \<Longrightarrow>
     ls_Cred spec = cred \<and> ls_Args spec = d_Args d \<and> ls_Topic spec = d_Topic d \<and> ls_ScratchDir spec = scratch"
  by (auto simp: start_item_def Let_def split: sum.splits)

lemma resolve_item_cred:
  assumes "resolve_item E rn d cred item scratch path tr = (r, tr @ ext)" and "(spec, h) \<in> set (started ext)"
  shows "ls_Cred spec = cred \<and> ls_Args spec = d_Args d \<and> ls_Topic spec = d_Topic d \<and> ls_ScratchDir spec = scratch"
proof (cases "path \<noteq> []")
  case True
  with assms start_item_cred show ?thesis by (simp add: resolve_item_def)
next
  case False
  define rs where "rs = rv_Resolve E tr d scratch"
  show ?thesis
  proof (cases rs)
    case (Inl e)
    with False assms show ?thesis by (auto simp: resolve_item_def Let_def rs_def split: sum.splits)
  next
    case (Inr p)
    obtain r' ext' where *: "start_item E rn d cred item scratch p (tr @ [KResolve d scratch rs]) =
        (r', (tr @ [KResolve d scratch rs]) @ ext')"
      using start_item_story by blast
    have "ext = KResolve d scratch rs # ext'"
      using assms(1) False Inr * by (simp add: resolve_item_def Let_def rs_def [symmetric])
    with start_item_cred [OF *] assms(2) show ?thesis by simp
  qed
qed

text \<open>A launched workload runs on a credential of its own declaration: with the plain minter
  behind the runner, the one workload that was started got a credential whose signed claims are
  bounded by the runner's lifetime and narrowed to the declaration's persona, topic and tools.\<close>

theorem Launch_credential:
  assumes "rv_Mint E = (\<lambda>_. SigningKeyMinter_Mint S C m)" and "ops_apart S"
    and "Launch VN E rn d tr = (Inr rw, tr')"
  shows "\<exists>ext spec uc. tr' = tr @ ext \<and> started ext = [(spec, rw_handle rw)] \<and> ls_Topic spec = d_Topic d \<and>
    claims_for S C m (scope_of d) (rn_CredTTL rn) uc (ls_Cred spec)"
proof -
  obtain ref cred item where L: "preflight VN rn d = Inr ref"
    "SigningKeyMinter_Mint S C m (scope_of d) (rn_CredTTL rn) = Inr cred"
    and R: "\<exists>pre scratch. started pre = [] \<and>
      resolve_item E rn d cred item scratch (ref_Path ref) (tr @ pre) = (Inr rw, tr')"
    using assms(1,3) by (fastforce simp: Launch_def Let_def split: sum.splits)
  obtain pre scratch where pre: "started pre = []"
    "resolve_item E rn d cred item scratch (ref_Path ref) (tr @ pre) = (Inr rw, tr')"
    using R by blast
  then obtain ext where ext: "tr' = (tr @ pre) @ ext" "item_story item (Inr rw) ext"
    using resolve_item_story [of E rn d cred item scratch "ref_Path ref" "tr @ pre"] by auto
  then obtain spec where spec: "started ext = [(spec, rw_handle rw)]" by (auto simp: item_story_def)
  have "ls_Cred spec = cred \<and> ls_Topic spec = d_Topic d"
    using resolve_item_cred [OF pre(2) [unfolded ext(1)], of spec "rw_handle rw"] spec by simp
  moreover obtain uc where "claims_for S C m (scope_of d) (rn_CredTTL rn) uc cred"
    using plain.mint_claims [OF assms(2) L(2)] by blast
  ultimately show ?thesis using ext(1) pre(1) spec
    by (intro exI [of _ "pre @ ext"] exI [of _ spec] exI [of _ uc]) simp
qed

section \<open>A concrete run\<close>

definition demo_decl :: Declaration where
  "demo_decl = \<lparr>d_Role = RoleAgent, d_Lifecycle = LifecycleService, d_Persona = ''bot'', d_Topic = ''lab'',
     d_Artifact = ''file:///x'', d_Args = [], d_Instructions = None,
     d_Capabilities = Some \<lparr>cap_Role = ''r'', cap_Tools = [''upper'']\<rparr>, d_Wake = [], d_Budget = None,
     d_Inference = None\<rparr>"

definition demo_run_env :: run_env where
  "demo_run_env = \<lparr>rv_Mint = (\<lambda>_. SigningKeyMinter_Mint demo_subjects demo_crypto demo_minter),
     rv_Open = (\<lambda>_ _ _. Inr ''i''), rv_Resolve = (\<lambda>_ _ _. Inl []), rv_Start = (\<lambda>_ _. Inr ''h''),
     rv_Claim = (\<lambda>_ _. Inr ''c''), rv_Complete = (\<lambda>_ _. Inr ''d''), rv_Abandon = (\<lambda>_ _. Inr ''a''),
     rv_Wait = (\<lambda>_ _. \<lparr>xs_Code = 0, xs_Signal = []\<rparr>), rv_Stop = (\<lambda>_ _. None),
     rv_exits_first = (\<lambda>_ _. True)\<rparr>"

definition demo_runner :: Runner where
  "demo_runner = \<lparr>rn_Realm = ''r'', rn_CredTTL = 5, rn_ScratchRoot = ''s'', rn_Artifacts = False\<rparr>"

lemma demo_valid: "Declaration_Validate kebab demo_decl = None"
  by code_simp

lemma demo_run: "fst (Run kebab demo_run_env demo_runner demo_decl []) = None"
  by code_simp

lemma demo_launch: "fst (Launch kebab demo_run_env demo_runner demo_decl []) =
    Inr \<lparr>rw_handle = ''h'', rw_itemID = ''i''\<rparr>"
  by code_simp

theorem Run_life_witness:
  "\<exists>tr'. Run kebab demo_run_env demo_runner demo_decl [] = (None, tr') \<and> tr' \<noteq> []"
proof -
  obtain tr' where run: "Run kebab demo_run_env demo_runner demo_decl [] = (None, tr')"
    using demo_run by (metis prod.collapse)
  from Run_life [OF run] have "tr' \<noteq> []" by auto
  with run show ?thesis by blast
qed

theorem Launch_needs_artifact_witness:
  "snd (Launch kebab demo_run_env demo_runner (demo_decl\<lparr>d_Artifact := []\<rparr>) []) = []"
  using Launch_needs_artifact [of "demo_decl\<lparr>d_Artifact := []\<rparr>" kebab demo_run_env demo_runner "[]"] by simp

theorem valid_declaration_mints_witness:
  "\<exists>c. SigningKeyMinter_Mint demo_subjects demo_crypto demo_minter (scope_of demo_decl) 5 = Inr c"
  using valid_declaration_mints [of demo_subjects demo_decl demo_crypto demo_minter 5]
    demo_valid kebab_grammar demo_working by (simp add: demo_subjects_def)

theorem Launch_credential_witness:
  "\<exists>uc (spec :: LaunchSpec). claims_for demo_subjects demo_crypto demo_minter (scope_of demo_decl) 5 uc (ls_Cred spec)"
proof -
  obtain tr' where "Launch kebab demo_run_env demo_runner demo_decl [] =
      (Inr \<lparr>rw_handle = ''h'', rw_itemID = ''i''\<rparr>, tr')"
    using demo_launch by (metis prod.collapse)
  moreover have "rv_Mint demo_run_env = (\<lambda>_. SigningKeyMinter_Mint demo_subjects demo_crypto demo_minter)"
    by (simp add: demo_run_env_def)
  ultimately have "\<exists>ext spec uc. tr' = [] @ ext \<and> started ext = [(spec, ''h'')] \<and> ls_Topic spec = ''lab'' \<and>
      claims_for demo_subjects demo_crypto demo_minter (scope_of demo_decl) 5 uc (ls_Cred spec)"
    using Launch_credential [of demo_run_env demo_subjects demo_crypto demo_minter kebab demo_runner demo_decl "[]"
        "\<lparr>rw_handle = ''h'', rw_itemID = ''i''\<rparr>" tr'] demo_apart
    by (simp add: demo_runner_def demo_decl_def)
  then show ?thesis by blast
qed

end
