(* ===== verification/Fleet.thy ===== *)
theory Fleet
  imports Runner
begin

text \<open>
  Package \<open>fleet\<close> (src/fleet/fleet.go): placements as work items, the race of one node, the
  release of what it owns, the reclaim sweep and the liveness probe.  Materialised work items
  are types of the core library; the node's connection and topic handle are the fields of
  \<open>fleet_env\<close>, whose answers may depend on everything called before.  \<open>decode\<close> stands for the
  decoding of a declaration from JSON, \<open>encode\<close> for its encoding.
\<close>

section \<open>Placements\<close>

datatype WorkStatus = WorkOpen | WorkClaimed | WorkOther string

record WorkEvent =
  ev_Kind :: string
  ev_Void :: bool
  ev_Timestamp :: time

record WorkItem =
  wi_ID :: string
  wi_Status :: WorkStatus
  wi_Owner :: string
  wi_Body :: string
  wi_Timeline :: "WorkEvent list"

definition submissionMarker :: string where
  "submissionMarker = ''soulstream-workloads/placement v1'' @ [CHR 0x0A]"

definition ProbeSubject :: "string \<Rightarrow> string" where
  "ProbeSubject node = ''SOULSTREAM.SVC.FLEET.'' @ node"

definition DeclarationOf :: "(string \<Rightarrow> Declaration option) \<Rightarrow> WorkItem \<Rightarrow> Declaration option" where
  "DeclarationOf decode item =
     (case CutPrefix (wi_Body item) submissionMarker of None \<Rightarrow> None | Some rest \<Rightarrow> decode rest)"

datatype submit_error = SubmitInvalid decl_error | SubmitEncode string | SubmitOpen string

definition submission_title :: "Declaration \<Rightarrow> string" where
  "submission_title d =
     (if d_Artifact d = [] then ''place agent '' @ d_Persona d
      else ''place '' @ d_Artifact d @ '' as '' @ d_Persona d)"

text \<open>\<open>Submit\<close>: the result, and the title and body of the item it opens, if it gets there.\<close>

definition Submit :: "(string \<Rightarrow> bool) \<Rightarrow> (Declaration \<Rightarrow> string + string) \<Rightarrow> (string \<Rightarrow> string \<Rightarrow> string + string)
    \<Rightarrow> Declaration \<Rightarrow> (submit_error + string) \<times> (string \<times> string) option" where
  "Submit ValidName encode openWork d =
     (case Declaration_Validate ValidName d of Some e \<Rightarrow> (Inl (SubmitInvalid e), None) | None \<Rightarrow>
      case encode d of Inl e \<Rightarrow> (Inl (SubmitEncode e), None) | Inr body \<Rightarrow>
        let title = submission_title d; text = submissionMarker @ body in
        (map_error SubmitOpen (openWork title text), Some (title, text)))"

definition OpenPlacements :: "(string \<Rightarrow> Declaration option) \<Rightarrow> WorkItem list \<Rightarrow> WorkItem list" where
  "OpenPlacements decode items =
     filter (\<lambda>item. wi_Status item = WorkOpen \<and> DeclarationOf decode item \<noteq> None) items"

definition findItem :: "WorkItem list \<Rightarrow> string \<Rightarrow> WorkItem option" where
  "findItem items i = List.find (\<lambda>item. wi_ID item = i) items"

definition lastClaimAt :: "WorkItem \<Rightarrow> time option" where
  "lastClaimAt item = map_option ev_Timestamp
     (List.find (\<lambda>ev. ev_Kind ev = ''claim'' \<and> \<not> ev_Void ev) (rev (wi_Timeline item)))"

section \<open>Nodes\<close>

text \<open>\<open>nd_owned\<close> is nil until \<open>Start\<close>; a Runner-less node (the dispatcher's sweeper) has no
  runner.\<close>

record Node =
  nd_ID :: string
  nd_Runner :: "Runner option"
  nd_Reclaim :: duration
  nd_ProbeTimeout :: duration
  nd_owned :: "string set option"
  nd_sub :: bool

definition reclaimBound :: "duration \<Rightarrow> duration" where
  "reclaimBound reclaim = (if 0 < reclaim then reclaim else 10 * Second)"

definition probeTimeout :: "duration \<Rightarrow> duration" where
  "probeTimeout timeout = (if 0 < timeout then timeout else 250 * Millisecond)"

datatype fcall =
    FMaterialise "string + WorkItem list"
  | FClaim string "string option"
  | FAbandon string "string option"
  | FComplete string "string option"
  | FLaunch Declaration "run_error + Running"
  | FStop Running "run_error option"
  | FProbe string string duration "string + string"
  | FNow time

type_synonym ftrace = "fcall list"

text \<open>\<open>fl_run\<close>: the runner's environment at a call of \<open>Launch\<close> or \<open>Stop\<close>.\<close>

record fleet_env =
  fl_Materialise :: "ftrace \<Rightarrow> string + WorkItem list"
  fl_Claim :: "ftrace \<Rightarrow> string \<Rightarrow> string option"
  fl_Abandon :: "ftrace \<Rightarrow> string \<Rightarrow> string option"
  fl_Complete :: "ftrace \<Rightarrow> string \<Rightarrow> string option"
  fl_Request :: "ftrace \<Rightarrow> string \<Rightarrow> string \<Rightarrow> duration \<Rightarrow> string + string"
  fl_Now :: "ftrace \<Rightarrow> time"
  fl_run :: "ftrace \<Rightarrow> run_env"

record Placement =
  pl_ItemID :: string
  pl_Decl :: Declaration
  pl_Run :: Running

text \<open>\<open>NilRunner\<close> and \<open>NilMap\<close> are the panics of a node without a runner and of a node that
  was not started.\<close>

datatype fleet_error =
    ErrNotWon | NoPlacement string | NotPlacement string | ClaimError string string
  | MaterialiseError string | LaunchError string run_error | LaunchAbandonError run_error string
  | ReclaimError string string | ProbeSubscription string | ProbeFlush string | NilRunner | NilMap

section \<open>Probes\<close>

text \<open>\<open>subscribe\<close> and \<open>flush\<close> are the connection's answers to the subscription on the subject and to
  the flush.  A failed flush leaves the subscription in place but not in \<open>sub\<close>.\<close>

definition Start :: "(string \<Rightarrow> string option) \<Rightarrow> string option \<Rightarrow> Node \<Rightarrow> fleet_error option \<times> Node" where
  "Start subscribe flush n =
     (let n1 = n\<lparr>nd_owned := Some {}\<rparr> in
      case subscribe (ProbeSubject (nd_ID n)) of Some e \<Rightarrow> (Some (ProbeSubscription e), n1) | None \<Rightarrow>
      case flush of Some e \<Rightarrow> (Some (ProbeFlush e), n1) | None \<Rightarrow> (None, n1\<lparr>nd_sub := True\<rparr>))"

text \<open>\<open>Node.Stop\<close>: the node goes silent; what it owns stays in the map.\<close>

definition Node_Stop :: "Node \<Rightarrow> Node" where
  "Node_Stop n = (if nd_sub n then n\<lparr>nd_sub := False\<rparr> else n)"

definition owns :: "Node \<Rightarrow> string \<Rightarrow> bool" where
  "owns n i = (case nd_owned n of None \<Rightarrow> False | Some s \<Rightarrow> i \<in> s)"

text \<open>The subscription's callback: the answer to a probe.\<close>

definition answer :: "Node \<Rightarrow> string \<Rightarrow> string" where
  "answer n msg = (if owns n msg then ''alive'' else ''no'')"

definition alive :: "fleet_env \<Rightarrow> Node \<Rightarrow> string \<Rightarrow> string \<Rightarrow> ftrace \<Rightarrow> bool \<times> ftrace" where
  "alive E n owner itemID tr =
     (let t = probeTimeout (nd_ProbeTimeout n);
          r = fl_Request E tr (ProbeSubject owner) itemID t;
          tr1 = tr @ [FProbe (ProbeSubject owner) itemID t r] in
      case r of Inl e \<Rightarrow> (False, tr1) | Inr msg \<Rightarrow> (msg = ''alive'', tr1))"

section \<open>TryPlace\<close>

text \<open>The launch of a placement this node won, and the write to \<open>owned\<close>.\<close>

definition launch_won :: "(string \<Rightarrow> bool) \<Rightarrow> fleet_env \<Rightarrow> Node \<Rightarrow> string \<Rightarrow> Declaration \<Rightarrow> ftrace
    \<Rightarrow> (fleet_error + Placement) \<times> Node \<times> ftrace" where
  "launch_won ValidName E n itemID d tr =
     (case nd_Runner n of None \<Rightarrow> (Inl NilRunner, n, tr) | Some rn \<Rightarrow>
      let run = fst (Launch ValidName (fl_run E tr) rn d []); tr1 = tr @ [FLaunch d run] in
      case run of
        Inl err \<Rightarrow>
          (let a = fl_Abandon E tr1 itemID; tr2 = tr1 @ [FAbandon itemID a] in
           case a of Some aerr \<Rightarrow> (Inl (LaunchAbandonError err aerr), n, tr2)
           | None \<Rightarrow> (Inl (LaunchError itemID err), n, tr2))
      | Inr rw \<Rightarrow>
          (case nd_owned n of None \<Rightarrow> (Inl NilMap, n, tr1)
           | Some s \<Rightarrow> (Inr \<lparr>pl_ItemID = itemID, pl_Decl = d, pl_Run = rw\<rparr>,
               n\<lparr>nd_owned := Some (insert itemID s)\<rparr>, tr1)))"

definition TryPlace :: "(string \<Rightarrow> bool) \<Rightarrow> (string \<Rightarrow> Declaration option) \<Rightarrow> fleet_env \<Rightarrow> Node
    \<Rightarrow> string \<Rightarrow> ftrace \<Rightarrow> (fleet_error + Placement) \<times> Node \<times> ftrace" where
  "TryPlace ValidName decode E n itemID tr =
     (let mt = fl_Materialise E tr; tr1 = tr @ [FMaterialise mt] in
      case mt of Inl e \<Rightarrow> (Inl (MaterialiseError e), n, tr1) | Inr items \<Rightarrow>
      case findItem items itemID of None \<Rightarrow> (Inl (NoPlacement itemID), n, tr1) | Some item \<Rightarrow>
      case DeclarationOf decode item of None \<Rightarrow> (Inl (NotPlacement itemID), n, tr1) | Some d \<Rightarrow>
      if wi_Status item \<noteq> WorkOpen then (Inl ErrNotWon, n, tr1)
      else
        let c = fl_Claim E tr1 itemID; tr2 = tr1 @ [FClaim itemID c] in
        case c of Some e \<Rightarrow> (Inl (ClaimError itemID e), n, tr2) | None \<Rightarrow>
        let mt2 = fl_Materialise E tr2; tr3 = tr2 @ [FMaterialise mt2] in
        case mt2 of Inl e \<Rightarrow> (Inl (MaterialiseError e), n, tr3) | Inr items2 \<Rightarrow>
        case findItem items2 itemID of None \<Rightarrow> (Inl ErrNotWon, n, tr3) | Some item2 \<Rightarrow>
        if wi_Owner item2 \<noteq> nd_ID n then (Inl ErrNotWon, n, tr3)
        else launch_won ValidName E n itemID d tr3)"

section \<open>Release\<close>

definition Release :: "fleet_env \<Rightarrow> Node \<Rightarrow> Placement \<Rightarrow> ftrace \<Rightarrow> (run_error + string option) \<times> Node \<times> ftrace" where
  "Release E n p tr =
     (let n1 = n\<lparr>nd_owned := map_option (\<lambda>s. s - {pl_ItemID p}) (nd_owned n)\<rparr>;
          st = fst (Stop (fl_run E tr) (pl_Run p) []); tr1 = tr @ [FStop (pl_Run p) st] in
      case st of Some e \<Rightarrow> (Inl e, n1, tr1)
      | None \<Rightarrow> let c = fl_Complete E tr1 (pl_ItemID p) in (Inr c, n1, tr1 @ [FComplete (pl_ItemID p) c]))"

section \<open>Sweep\<close>

text \<open>One iteration: the item's fate and the trace.  \<open>Kept\<close> is any \<open>continue\<close>.\<close>

datatype fate = Kept | Reopened | SweepFailed string

definition sweep_item :: "(string \<Rightarrow> Declaration option) \<Rightarrow> fleet_env \<Rightarrow> Node \<Rightarrow> WorkItem \<Rightarrow> ftrace
    \<Rightarrow> fate \<times> ftrace" where
  "sweep_item decode E n item tr =
     (if wi_Status item \<noteq> WorkClaimed \<or> wi_Owner item = nd_ID n then (Kept, tr)
      else if DeclarationOf decode item = None then (Kept, tr)
      else case lastClaimAt item of None \<Rightarrow> (Kept, tr) | Some claimedAt \<Rightarrow>
        let now = fl_Now E tr; tr1 = tr @ [FNow now] in
        if now - claimedAt < reclaimBound (nd_Reclaim n) then (Kept, tr1)
        else
          let (ok, tr2) = alive E n (wi_Owner item) (wi_ID item) tr1 in
          if ok then (Kept, tr2)
          else
            let a = fl_Abandon E tr2 (wi_ID item); tr3 = tr2 @ [FAbandon (wi_ID item) a] in
            case a of Some e \<Rightarrow> (SweepFailed e, tr3) | None \<Rightarrow> (Reopened, tr3))"

fun sweep_loop :: "(string \<Rightarrow> Declaration option) \<Rightarrow> fleet_env \<Rightarrow> Node \<Rightarrow> WorkItem list \<Rightarrow> string list
    \<Rightarrow> ftrace \<Rightarrow> string list \<times> fleet_error option \<times> ftrace" where
  "sweep_loop decode E n [] reopened tr = (reopened, None, tr)"
| "sweep_loop decode E n (item # items) reopened tr =
     (case sweep_item decode E n item tr of
        (Kept, tr1) \<Rightarrow> sweep_loop decode E n items reopened tr1
      | (SweepFailed e, tr1) \<Rightarrow> (reopened, Some (ReclaimError (wi_ID item) e), tr1)
      | (Reopened, tr1) \<Rightarrow> sweep_loop decode E n items (reopened @ [wi_ID item]) tr1)"

definition Sweep :: "(string \<Rightarrow> Declaration option) \<Rightarrow> fleet_env \<Rightarrow> Node \<Rightarrow> ftrace
    \<Rightarrow> string list \<times> fleet_error option \<times> ftrace" where
  "Sweep decode E n tr =
     (let mt = fl_Materialise E tr; tr1 = tr @ [FMaterialise mt] in
      case mt of Inl e \<Rightarrow> ([], Some (MaterialiseError e), tr1)
      | Inr items \<Rightarrow> sweep_loop decode E n items [] tr1)"

section \<open>What placing does\<close>

text \<open>The node won item \<open>i\<close>: the view before its claim shows a placement up for grabs, the view
  read after the claim names this node as the owner.\<close>

definition won :: "(string \<Rightarrow> Declaration option) \<Rightarrow> Node \<Rightarrow> string \<Rightarrow> Declaration \<Rightarrow> ftrace \<Rightarrow> bool" where
  "won decode n i d calls \<longleftrightarrow> (\<exists>items item items2 item2.
     calls = [FMaterialise (Inr items), FClaim i None, FMaterialise (Inr items2)] \<and>
     findItem items i = Some item \<and> wi_Status item = WorkOpen \<and> DeclarationOf decode item = Some d \<and>
     findItem items2 i = Some item2 \<and> wi_Owner item2 = nd_ID n)"

fun touches :: "fcall \<Rightarrow> bool" where
  "touches (FLaunch d r) \<longleftrightarrow> True"
| "touches (FAbandon i r) \<longleftrightarrow> True"
| "touches (FComplete i r) \<longleftrightarrow> True"
| "touches (FStop p r) \<longleftrightarrow> True"
| "touches _ \<longleftrightarrow> False"

definition place_story :: "(string \<Rightarrow> Declaration option) \<Rightarrow> Node \<Rightarrow> string
    \<Rightarrow> fleet_error + Placement \<Rightarrow> Node \<Rightarrow> ftrace \<Rightarrow> bool" where
  "place_story decode n i r n' ext \<longleftrightarrow>
     (case r of
        Inr p \<Rightarrow> pl_ItemID p = i \<and> nd_owned n' = Some (insert i (the (nd_owned n))) \<and>
          (\<exists>pre. won decode n i (pl_Decl p) pre \<and> ext = pre @ [FLaunch (pl_Decl p) (Inr (pl_Run p))])
      | Inl (LaunchError j e) \<Rightarrow> n' = n \<and> j = i \<and>
          (\<exists>d pre. won decode n i d pre \<and> ext = pre @ [FLaunch d (Inl e), FAbandon i None])
      | Inl (LaunchAbandonError e a) \<Rightarrow> n' = n \<and>
          (\<exists>d pre. won decode n i d pre \<and> ext = pre @ [FLaunch d (Inl e), FAbandon i (Some a)])
      | Inl NilMap \<Rightarrow> n' = n \<and> nd_owned n = None \<and>
          (\<exists>d rw pre. won decode n i d pre \<and> ext = pre @ [FLaunch d (Inr rw)])
      | Inl NilRunner \<Rightarrow> n' = n \<and> nd_Runner n = None \<and> (\<exists>d. won decode n i d ext)
      | Inl _ \<Rightarrow> n' = n \<and> \<not> list_ex touches ext)"

lemma launch_won_story:
  assumes "won decode n i d pre"
  shows "\<exists>r n' ext. launch_won VN E n i d tr = (r, n', tr @ ext) \<and> place_story decode n i r n' (pre @ ext)"
proof (cases "nd_Runner n")
  case None
  with assms show ?thesis by (auto simp: launch_won_def place_story_def)
next
  case (Some rn)
  define run where "run = fst (Launch VN (fl_run E tr) rn d [])"
  note unf = launch_won_def Let_def Some option.case run_def [symmetric]
  show ?thesis
  proof (cases run)
    case (Inl err)
    show ?thesis
    proof (cases "fl_Abandon E (tr @ [FLaunch d run]) i")
      case None
      then have "launch_won VN E n i d tr = (Inl (LaunchError i err), n, tr @ [FLaunch d (Inl err), FAbandon i None])"
        using Inl by (simp add: unf)
      with assms show ?thesis by (auto simp: place_story_def)
    next
      case (Some a)
      then have "launch_won VN E n i d tr =
          (Inl (LaunchAbandonError err a), n, tr @ [FLaunch d (Inl err), FAbandon i (Some a)])"
        using Inl by (simp add: unf)
      with assms show ?thesis by (auto simp: place_story_def)
    qed
  next
    case (Inr rw)
    with assms show ?thesis
      by (cases "nd_owned n") (auto simp: unf place_story_def)
  qed
qed

lemma TryPlace_story_lemma:
  "\<exists>r n' ext. TryPlace VN decode E n i tr = (r, n', tr @ ext) \<and> place_story decode n i r n' ext"
proof -
  define mt where "mt = fl_Materialise E tr"
  define c where "c = fl_Claim E (tr @ [FMaterialise mt]) i"
  define mt2 where "mt2 = fl_Materialise E (tr @ [FMaterialise mt, FClaim i c])"
  note unf = TryPlace_def Let_def mt_def [symmetric]
  consider (lost) e ext where "TryPlace VN decode E n i tr = (Inl e, n, tr @ ext)" "\<not> list_ex touches ext"
      "e = ErrNotWon \<or> (\<exists>m. e = MaterialiseError m) \<or> e = NoPlacement i \<or> e = NotPlacement i \<or> (\<exists>m. e = ClaimError i m)"
    | (won) d where "won decode n i d [FMaterialise mt, FClaim i c, FMaterialise mt2]"
      "TryPlace VN decode E n i tr = launch_won VN E n i d (tr @ [FMaterialise mt, FClaim i c, FMaterialise mt2])"
  proof (cases mt)
    case (Inl e)
    then show thesis using lost [of "MaterialiseError e" "[FMaterialise mt]"] by (simp add: unf)
  next
    case mt: (Inr items)
    show thesis
    proof (cases "\<exists>item d. findItem items i = Some item \<and> DeclarationOf decode item = Some d \<and> wi_Status item = WorkOpen")
      case False
      then have "\<exists>e. TryPlace VN decode E n i tr = (Inl e, n, tr @ [FMaterialise mt]) \<and>
          (e = ErrNotWon \<or> e = NoPlacement i \<or> e = NotPlacement i)"
        using mt by (cases "findItem items i") (auto simp: unf split: option.split)
      then obtain e where "TryPlace VN decode E n i tr = (Inl e, n, tr @ [FMaterialise mt])"
          "e = ErrNotWon \<or> e = NoPlacement i \<or> e = NotPlacement i" by blast
      then show thesis using lost [of e "[FMaterialise mt]"] by auto
    next
      case True
      then obtain item d where item: "findItem items i = Some item" "DeclarationOf decode item = Some d"
          "wi_Status item = WorkOpen" by blast
      show thesis
      proof (cases c)
        case (Some e)
        then show thesis
          using lost [of "ClaimError i e" "[FMaterialise mt, FClaim i c]"] mt item c_def by (simp add: unf)
      next
        case cn: None
        show thesis
        proof (cases mt2)
          case (Inl e)
          then show thesis
            using lost [of "MaterialiseError e" "[FMaterialise mt, FClaim i c, FMaterialise mt2]"] mt item cn c_def mt2_def
            by (simp add: unf)
        next
          case mt2r: (Inr items2)
          show thesis
          proof (cases "\<exists>item2. findItem items2 i = Some item2 \<and> wi_Owner item2 = nd_ID n")
            case False
            then have "TryPlace VN decode E n i tr =
                (Inl ErrNotWon, n, tr @ [FMaterialise mt, FClaim i c, FMaterialise mt2])"
              using mt item cn mt2r c_def mt2_def by (auto simp: unf split: option.split)
            then show thesis
              using lost [of ErrNotWon "[FMaterialise mt, FClaim i c, FMaterialise mt2]"] by simp
          next
            case True
            then obtain item2 where i2: "findItem items2 i = Some item2" "wi_Owner item2 = nd_ID n" by blast
            have "won decode n i d [FMaterialise mt, FClaim i c, FMaterialise mt2]"
              unfolding won_def using mt item cn mt2r i2 by blast
            moreover have "TryPlace VN decode E n i tr =
                launch_won VN E n i d (tr @ [FMaterialise mt, FClaim i c, FMaterialise mt2])"
              using mt item cn mt2r i2 c_def mt2_def by (simp add: unf)
            ultimately show thesis by (rule won)
          qed
        qed
      qed
    qed
  qed
  then show ?thesis
  proof cases
    case lost
    then show ?thesis
      by (intro exI [of _ "Inl e"] exI [of _ n] exI [of _ ext]) (auto simp: place_story_def)
  next
    case (won d)
    from launch_won_story [OF won(1)] won(2) show ?thesis by (metis append.assoc)
  qed
qed

text \<open>C8. A node runs only what the log gave it.  By result: a placement is returned only after
  the view showed it open, the claim was acknowledged and the view read back named this node
  the owner, and it is then owned; a launch that fails hands the item back with an abandon; in
  every other case nothing is launched, abandoned or completed.\<close>

theorem TryPlace_story:
  "\<exists>r n' ext. TryPlace VN decode E n i tr = (r, n', tr @ ext) \<and> place_story decode n i r n' ext"
  by (rule TryPlace_story_lemma)

section \<open>What a sweep does\<close>

text \<open>The item may be reclaimed: a peer's placement, claimed longer ago than the bound.\<close>

definition nominated :: "(string \<Rightarrow> Declaration option) \<Rightarrow> Node \<Rightarrow> WorkItem \<Rightarrow> time \<Rightarrow> bool" where
  "nominated decode n item now \<longleftrightarrow>
     wi_Status item = WorkClaimed \<and> wi_Owner item \<noteq> nd_ID n \<and> DeclarationOf decode item \<noteq> None \<and>
     (\<exists>t. lastClaimAt item = Some t \<and> reclaimBound (nd_Reclaim n) \<le> now - t)"

text \<open>The calls of one iteration that abandons: the clock, the probe that nobody answered
  \<open>alive\<close>, the abandon.\<close>

definition reclaim_calls :: "(string \<Rightarrow> Declaration option) \<Rightarrow> fleet_env \<Rightarrow> Node \<Rightarrow> WorkItem \<Rightarrow> ftrace \<Rightarrow> bool" where
  "reclaim_calls decode E n item calls \<longleftrightarrow> (\<exists>now ans a before.
     calls = [FNow now, FProbe (ProbeSubject (wi_Owner item)) (wi_ID item) (probeTimeout (nd_ProbeTimeout n)) ans,
              FAbandon (wi_ID item) a] \<and>
     ans = fl_Request E before (ProbeSubject (wi_Owner item)) (wi_ID item) (probeTimeout (nd_ProbeTimeout n)) \<and>
     nominated decode n item now \<and> ans \<noteq> Inr ''alive'')"

fun abandons :: "ftrace \<Rightarrow> string list" where
  "abandons [] = []"
| "abandons (FAbandon i r # tr) = i # abandons tr"
| "abandons (_ # tr) = abandons tr"

lemma abandons_append [simp, trace_simps]: "abandons (a @ b) = abandons a @ abandons b"
  by (induction a rule: abandons.induct) auto

lemma sweep_item_story:
  "\<exists>f ext. sweep_item decode E n item tr = (f, tr @ ext) \<and>
     (case f of Kept \<Rightarrow> abandons ext = []
      | Reopened \<Rightarrow> reclaim_calls decode E n item ext \<and> last ext = FAbandon (wi_ID item) None
      | SweepFailed e \<Rightarrow> reclaim_calls decode E n item ext \<and> last ext = FAbandon (wi_ID item) (Some e))"
proof (cases "wi_Status item \<noteq> WorkClaimed \<or> wi_Owner item = nd_ID n \<or> DeclarationOf decode item = None
    \<or> lastClaimAt item = None")
  case True
  then show ?thesis
    by (intro exI [of _ Kept] exI [of _ "[]"]) (auto simp: sweep_item_def)
next
  case False
  then obtain t where t: "lastClaimAt item = Some t" by auto
  define now where "now = fl_Now E tr"
  define ans where "ans = fl_Request E (tr @ [FNow now]) (ProbeSubject (wi_Owner item)) (wi_ID item)
    (probeTimeout (nd_ProbeTimeout n))"
  let ?probe = "FProbe (ProbeSubject (wi_Owner item)) (wi_ID item) (probeTimeout (nd_ProbeTimeout n)) ans"
  define a where "a = fl_Abandon E (tr @ [FNow now, ?probe]) (wi_ID item)"
  have al: "alive E n (wi_Owner item) (wi_ID item) (tr @ [FNow now]) = (ans = Inr ''alive'', tr @ [FNow now, ?probe])"
    by (cases ans) (auto simp: alive_def Let_def ans_def)
  consider (young) "now - t < reclaimBound (nd_Reclaim n)"
    | (veto) "\<not> now - t < reclaimBound (nd_Reclaim n)" "ans = Inr ''alive''"
    | (gone) "\<not> now - t < reclaimBound (nd_Reclaim n)" "ans \<noteq> Inr ''alive''" by blast
  then show ?thesis
  proof cases
    case young
    then have "sweep_item decode E n item tr = (Kept, tr @ [FNow now])"
      using False t by (simp add: sweep_item_def Let_def now_def)
    then show ?thesis by (intro exI [of _ Kept] exI [of _ "[FNow now]"]) simp
  next
    case veto
    then have "sweep_item decode E n item tr = (Kept, tr @ [FNow now, ?probe])"
      using False t al by (simp add: sweep_item_def Let_def now_def)
    then show ?thesis by (intro exI [of _ Kept] exI [of _ "[FNow now, ?probe]"]) simp
  next
    case gone
    have "reclaim_calls decode E n item [FNow now, ?probe, FAbandon (wi_ID item) a]"
      unfolding reclaim_calls_def using gone False t
      by (intro exI [of _ now] exI [of _ ans] exI [of _ a] exI [of _ "tr @ [FNow now]"])
         (auto simp: nominated_def ans_def)
    moreover have "sweep_item decode E n item tr =
        ((case a of Some e \<Rightarrow> SweepFailed e | None \<Rightarrow> Reopened), tr @ [FNow now, ?probe, FAbandon (wi_ID item) a])"
      using False t al gone by (simp add: sweep_item_def Let_def now_def a_def split: option.split)
    ultimately show ?thesis
      by (intro exI [of _ "case a of Some e \<Rightarrow> SweepFailed e | None \<Rightarrow> Reopened"]
          exI [of _ "[FNow now, ?probe, FAbandon (wi_ID item) a]"]) (auto split: option.split)
  qed
qed

text \<open>Every abandon of a stretch of calls closes such an iteration on one of the items.\<close>

definition lawful_reclaims :: "(string \<Rightarrow> Declaration option) \<Rightarrow> fleet_env \<Rightarrow> Node \<Rightarrow> WorkItem list \<Rightarrow> ftrace \<Rightarrow> bool" where
  "lawful_reclaims decode E n items ext \<longleftrightarrow> (\<forall>i \<in> set (abandons ext). \<exists>item calls pre post.
     item \<in> set items \<and> wi_ID item = i \<and> ext = pre @ calls @ post \<and> reclaim_calls decode E n item calls)"

lemma lawful_append:
  assumes "lawful_reclaims decode E n items a" and "lawful_reclaims decode E n items b"
  shows "lawful_reclaims decode E n items (a @ b)"
  unfolding lawful_reclaims_def
proof
  fix i assume "i \<in> set (abandons (a @ b))"
  then consider "i \<in> set (abandons a)" | "i \<in> set (abandons b)" by auto
  then show "\<exists>item calls pre post. item \<in> set items \<and> wi_ID item = i \<and> a @ b = pre @ calls @ post \<and>
      reclaim_calls decode E n item calls"
  proof cases
    case 1
    with assms(1) show ?thesis unfolding lawful_reclaims_def by (metis append.assoc)
  next
    case 2
    with assms(2) show ?thesis unfolding lawful_reclaims_def by (metis append.assoc)
  qed
qed

lemma lawful_single: "item \<in> set items \<Longrightarrow> reclaim_calls decode E n item calls \<Longrightarrow> lawful_reclaims decode E n items calls"
  unfolding lawful_reclaims_def
proof
  fix i assume *: "item \<in> set items" "reclaim_calls decode E n item calls" "i \<in> set (abandons calls)"
  then have "wi_ID item = i" by (auto simp: reclaim_calls_def)
  moreover have "calls = [] @ calls @ []" by simp
  ultimately show "\<exists>item calls' pre post. item \<in> set items \<and> wi_ID item = i \<and> calls = pre @ calls' @ post \<and>
      reclaim_calls decode E n item calls'"
    using * by blast
qed

lemma sweep_loop_story:
  "\<exists>out e ext. sweep_loop decode E n items reopened tr = (reopened @ out, e, tr @ ext) \<and>
     lawful_reclaims decode E n items ext \<and>
     abandons ext = out @ (case e of Some (ReclaimError i m) \<Rightarrow> [i] | _ \<Rightarrow> [])"
proof (induction items arbitrary: reopened tr)
  case Nil
  then show ?case by (simp add: lawful_reclaims_def)
next
  case (Cons item items)
  obtain f ext where f: "sweep_item decode E n item tr = (f, tr @ ext)"
    "case f of Kept \<Rightarrow> abandons ext = []
      | Reopened \<Rightarrow> reclaim_calls decode E n item ext \<and> last ext = FAbandon (wi_ID item) None
      | SweepFailed e \<Rightarrow> reclaim_calls decode E n item ext \<and> last ext = FAbandon (wi_ID item) (Some e)"
    using sweep_item_story by blast
  have ab: "reclaim_calls decode E n item ext \<Longrightarrow> abandons ext = [wi_ID item]"
    by (auto simp: reclaim_calls_def)
  have mono: "lawful_reclaims decode E n items ex \<Longrightarrow> lawful_reclaims decode E n (item # items) ex" for ex
    unfolding lawful_reclaims_def by (meson list.set_intros(2))
  show ?case
  proof (cases f)
    case Kept
    obtain out e ext2 where IH: "sweep_loop decode E n items reopened (tr @ ext) = (reopened @ out, e, (tr @ ext) @ ext2)"
      "lawful_reclaims decode E n items ext2" "abandons ext2 = out @ (case e of Some (ReclaimError i m) \<Rightarrow> [i] | _ \<Rightarrow> [])"
      using Cons.IH by blast
    have "lawful_reclaims decode E n (item # items) (ext @ ext2)"
      using f(2) Kept IH(2) by (intro lawful_append mono) (simp_all add: lawful_reclaims_def)
    with f IH Kept show ?thesis
      by (intro exI [of _ out] exI [of _ e] exI [of _ "ext @ ext2"]) simp
  next
    case Reopened
    obtain out e ext2 where IH: "sweep_loop decode E n items (reopened @ [wi_ID item]) (tr @ ext) =
        ((reopened @ [wi_ID item]) @ out, e, (tr @ ext) @ ext2)"
      "lawful_reclaims decode E n items ext2" "abandons ext2 = out @ (case e of Some (ReclaimError i m) \<Rightarrow> [i] | _ \<Rightarrow> [])"
      using Cons.IH by blast
    have "lawful_reclaims decode E n (item # items) (ext @ ext2)"
    proof (rule lawful_append)
      show "lawful_reclaims decode E n (item # items) ext"
        using f(2) Reopened by (intro lawful_single [of item]) simp_all
    qed (rule mono [OF IH(2)])
    with f IH Reopened ab show ?thesis
      by (intro exI [of _ "wi_ID item # out"] exI [of _ e] exI [of _ "ext @ ext2"]) simp
  next
    case (SweepFailed m)
    have "lawful_reclaims decode E n (item # items) ext"
      using f(2) SweepFailed by (intro lawful_single [of item]) simp_all
    with f SweepFailed ab show ?thesis
      by (intro exI [of _ "[]"] exI [of _ "Some (ReclaimError (wi_ID item) m)"] exI [of _ ext]) simp
  qed
qed

text \<open>C11. A sweep reclaims only what the projection nominates and no probe vetoes: every item
  it abandons is a placement that a peer claimed longer ago than the bound and whose owner,
  asked right before, did not answer \<open>alive\<close>; and it reports exactly the items it reopened.\<close>

theorem Sweep_lawful:
  "\<exists>mt out e ext. Sweep decode E n tr = (out, e, tr @ FMaterialise mt # ext) \<and>
     lawful_reclaims decode E n (case mt of Inl _ \<Rightarrow> [] | Inr items \<Rightarrow> items) ext \<and>
     abandons ext = out @ (case e of Some (ReclaimError i m) \<Rightarrow> [i] | _ \<Rightarrow> [])"
proof (cases "fl_Materialise E tr")
  case (Inl m)
  then show ?thesis by (auto simp: Sweep_def Let_def lawful_reclaims_def)
next
  case (Inr items)
  obtain out e ext where "sweep_loop decode E n items [] (tr @ [FMaterialise (Inr items)]) =
      ([] @ out, e, (tr @ [FMaterialise (Inr items)]) @ ext)" "lawful_reclaims decode E n items ext"
      "abandons ext = out @ (case e of Some (ReclaimError i m) \<Rightarrow> [i] | _ \<Rightarrow> [])"
    using sweep_loop_story by blast
  with Inr show ?thesis
    by (intro exI [of _ "Inr items"] exI [of _ out] exI [of _ e] exI [of _ ext]) (simp add: Sweep_def Let_def)
qed

text \<open>A live owner vetoes: a peer that answers its probes and owns the placement is never
  swept, however old its claim is.\<close>

theorem live_owner_vetoes:
  assumes "\<forall>tr i t. fl_Request E tr (ProbeSubject (nd_ID m)) i t = Inr (answer m i)"
    and "fl_Materialise E tr = Inr items" and "distinct (map wi_ID items)"
    and "item \<in> set items" and "wi_Owner item = nd_ID m" and "owns m (wi_ID item)"
    and "Sweep decode E n tr = (out, e, tr')"
  shows "wi_ID item \<notin> set out"
proof
  assume mem: "wi_ID item \<in> set out"
  obtain out' e' ext where S: "sweep_loop decode E n items [] (tr @ [FMaterialise (Inr items)]) =
      ([] @ out', e', (tr @ [FMaterialise (Inr items)]) @ ext)" "lawful_reclaims decode E n items ext"
      "abandons ext = out' @ (case e' of Some (ReclaimError i m) \<Rightarrow> [i] | _ \<Rightarrow> [])"
    using sweep_loop_story by blast
  with assms(2,7) have "out' = out" by (simp add: Sweep_def Let_def)
  with mem S(3) have "wi_ID item \<in> set (abandons ext)" by simp
  with S(2) obtain it calls where it: "it \<in> set items" "wi_ID it = wi_ID item" "reclaim_calls decode E n it calls"
    unfolding lawful_reclaims_def by blast
  then have "it = item" using assms(3,4) by (metis distinct_map inj_onD)
  with it(3) assms(1,5,6) show False by (auto simp: reclaim_calls_def answer_def)
qed

text \<open>Releasing gives the placement up first: whatever happens to the workload, the node no
  longer owns it afterwards, and the item is completed only after the workload has stopped.\<close>

theorem Release_story:
  "\<exists>r n' ext. Release E n p tr = (r, n', tr @ ext) \<and> \<not> owns n' (pl_ItemID p) \<and>
     (case r of
        Inl e \<Rightarrow> ext = [FStop (pl_Run p) (Some e)]
      | Inr c \<Rightarrow> ext = [FStop (pl_Run p) None, FComplete (pl_ItemID p) c])"
proof (cases "fst (Stop (fl_run E tr) (pl_Run p) [])")
  case None
  then show ?thesis by (auto simp: Release_def Let_def owns_def split: option.split)
next
  case (Some e)
  then show ?thesis by (auto simp: Release_def Let_def owns_def split: option.split)
qed

section \<open>A concrete fleet\<close>

definition demo_node :: "string \<Rightarrow> Node" where
  "demo_node name = \<lparr>nd_ID = name, nd_Runner = None, nd_Reclaim = 0, nd_ProbeTimeout = 0, nd_owned = Some {},
     nd_sub = True\<rparr>"

definition demo_peer :: Node where
  "demo_peer = (demo_node ''p'')\<lparr>nd_owned := Some {''i''}\<rparr>"

definition demo_item :: WorkItem where
  "demo_item = \<lparr>wi_ID = ''i'', wi_Status = WorkClaimed, wi_Owner = ''p'', wi_Body = submissionMarker,
     wi_Timeline = [\<lparr>ev_Kind = ''claim'', ev_Void = False, ev_Timestamp = 0\<rparr>]\<rparr>"

definition demo_fleet_env :: fleet_env where
  "demo_fleet_env = \<lparr>fl_Materialise = (\<lambda>_. Inr [demo_item]), fl_Claim = (\<lambda>_ _. None),
     fl_Abandon = (\<lambda>_ _. None), fl_Complete = (\<lambda>_ _. None),
     fl_Request = (\<lambda>_ subj i _. if subj = ProbeSubject ''p'' then Inr (answer demo_peer i) else Inl []),
     fl_Now = (\<lambda>_. 3600 * Second), fl_run = (\<lambda>_. demo_run_env)\<rparr>"

theorem live_owner_vetoes_witness:
  "''i'' \<notin> set (fst (Sweep (\<lambda>_. Some demo_decl) demo_fleet_env (demo_node ''n'') []))"
proof -
  obtain out e tr' where S: "Sweep (\<lambda>_. Some demo_decl) demo_fleet_env (demo_node ''n'') [] = (out, e, tr')"
    by (metis prod_cases3)
  have "wi_ID demo_item \<notin> set out"
    by (rule live_owner_vetoes [OF _ _ _ _ _ _ S, of demo_peer "[demo_item]"])
       (simp_all add: demo_fleet_env_def demo_peer_def demo_node_def demo_item_def owns_def)
  with S show ?thesis by (simp add: demo_item_def)
qed

end
