(* ===== verification/Dispatcher.thy ===== *)
theory Dispatcher
  imports Fleet Wrap_Engine "HOL-Library.Multiset" "HOL-Library.Finite_Map"
begin

text \<open>
  Package \<open>dispatcher\<close> (src/dispatcher/dispatcher.go): one node's standing serve loop.  The
  state is what the mutex guards.  A pass over the placements is sequential on the loop's
  goroutine; between two locked sections the other goroutines may have run (an engine that
  stopped by itself releases its placement, a drain empties the served set), which is the
  field \<open>dv_rest\<close> of the environment.
\<close>

section \<open>Configuration and state\<close>

text \<open>\<open>dc_Client\<close>: the persona of the node's client, none for a nil client.\<close>

record DispConfig =
  dc_Node :: string
  dc_Client :: "string option"
  dc_Placements :: string
  dc_ConnectAgent :: bool
  dc_Engine :: Config
  dc_EngineFor :: bool
  dc_Reclaim :: duration
  dc_ProbeTimeout :: duration
  dc_SweepEvery :: duration
  dc_PollEvery :: duration
  dc_RaceBackoff :: duration
  dc_DrainTimeout :: duration

text \<open>\<open>ds_served\<close> maps a placement to the persona of its engine.\<close>

record disp =
  ds_node :: string
  ds_taking :: bool
  ds_served :: "(string, string) fmap"
  ds_backoff :: "string \<rightharpoonup> time"

definition defaultReclaim :: duration where "defaultReclaim = 10 * Second"
definition defaultPollEvery :: duration where "defaultPollEvery = 30 * Second"
definition defaultRaceBackoff :: duration where "defaultRaceBackoff = 30 * Second"
definition defaultDrainTimeout :: duration where "defaultDrainTimeout = 60 * Second"
definition minSweepEvery :: duration where "minSweepEvery = 100 * Millisecond"

definition disp_reclaimBound :: "DispConfig \<Rightarrow> duration" where
  "disp_reclaimBound d = (if 0 < dc_Reclaim d then dc_Reclaim d else defaultReclaim)"

text \<open>The division of a positive duration truncates as \<open>div\<close> does.\<close>

definition sweepEvery :: "DispConfig \<Rightarrow> duration" where
  "sweepEvery d =
     (if 0 < dc_SweepEvery d then dc_SweepEvery d
      else let every = disp_reclaimBound d div 4 in if minSweepEvery < every then every else minSweepEvery)"

definition pollEvery :: "DispConfig \<Rightarrow> duration" where
  "pollEvery d = (if 0 < dc_PollEvery d then dc_PollEvery d else defaultPollEvery)"

definition raceBackoff :: "DispConfig \<Rightarrow> duration" where
  "raceBackoff d = (if 0 < dc_RaceBackoff d then dc_RaceBackoff d else defaultRaceBackoff)"

definition drainTimeout :: "DispConfig \<Rightarrow> duration" where
  "drainTimeout d = (if 0 < dc_DrainTimeout d then dc_DrainTimeout d else defaultDrainTimeout)"

definition Servable :: "Declaration \<Rightarrow> bool" where
  "Servable d \<longleftrightarrow> d_Role d = RoleAgent \<and> 0 < length (d_Wake d)"

abbreviation engine_of :: "disp \<Rightarrow> string \<rightharpoonup> string" where
  "engine_of s \<equiv> fmlookup (ds_served s)"

section \<open>start\<close>

datatype disp_error =
    NoClient | NoPlacements | NoConnectAgent | EnginePersona string | NoScratch
  | EngineTemplate wrap_error | ProbeTooLong duration duration | NoNodeName | NodeMismatch string string

definition disp_start :: "DispConfig \<Rightarrow> disp_error + disp" where
  "disp_start d =
     (case dc_Client d of None \<Rightarrow> Inl NoClient | Some persona \<Rightarrow>
      if dc_Placements d = [] then Inl NoPlacements
      else if \<not> dc_ConnectAgent d then Inl NoConnectAgent
      else if cfg_Persona (dc_Engine d) \<noteq> [] then Inl (EnginePersona (cfg_Persona (dc_Engine d)))
      else if cfg_Scratch (dc_Engine d) = [] then Inl NoScratch
      else case Template_Validate (cfg_Template (dc_Engine d)) of Some e \<Rightarrow> Inl (EngineTemplate e) | None \<Rightarrow>
      if disp_reclaimBound d \<le> dc_ProbeTimeout d then Inl (ProbeTooLong (dc_ProbeTimeout d) (disp_reclaimBound d))
      else
        let node = (if dc_Node d = [] then persona else dc_Node d) in
        if node = [] then Inl NoNodeName
        else if persona \<noteq> [] \<and> persona \<noteq> node then Inl (NodeMismatch node persona)
        else Inr \<lparr>ds_node = node, ds_taking = True, ds_served = fmempty, ds_backoff = Map.empty\<rparr>)"

text \<open>A concrete node, for the witnesses.\<close>

definition demo_disp :: DispConfig where
  "demo_disp = \<lparr>dc_Node = [], dc_Client = Some ''n'', dc_Placements = ''fleet'', dc_ConnectAgent = True,
     dc_Engine = demo_base, dc_EngineFor = False, dc_Reclaim = 0, dc_ProbeTimeout = 0, dc_SweepEvery = 0,
     dc_PollEvery = 0, dc_RaceBackoff = 0, dc_DrainTimeout = 0\<rparr>"

section \<open>The locked sections\<close>

definition answerProbe :: "disp \<Rightarrow> string \<Rightarrow> string" where
  "answerProbe s msg = (if engine_of s msg \<noteq> None then ''alive'' else ''no'')"

definition backed_off :: "disp \<Rightarrow> time \<Rightarrow> string \<Rightarrow> bool" where
  "backed_off s now i = (case ds_backoff s i of None \<Rightarrow> False | Some until \<Rightarrow> now < until)"

definition busy :: "disp \<Rightarrow> string \<Rightarrow> bool" where
  "busy s persona \<longleftrightarrow> persona |\<in>| fmran (ds_served s)"

definition skipRace :: "disp \<Rightarrow> time \<Rightarrow> string \<Rightarrow> string \<Rightarrow> bool" where
  "skipRace s now i persona =
     (if engine_of s i \<noteq> None then True else if backed_off s now i then True else busy s persona)"

definition slotFree :: "disp \<Rightarrow> time \<Rightarrow> string \<Rightarrow> string \<Rightarrow> bool \<times> string" where
  "slotFree s now i persona =
     (if \<not> ds_taking s then (False, [])
      else if engine_of s i \<noteq> None then (False, [])
      else if backed_off s now i then (False, [])
      else if busy s persona
      then (False, ''persona '' @ persona @ '' is already served by this node under another placement'')
      else (True, []))"

definition take_slot :: "disp \<Rightarrow> string \<Rightarrow> string \<Rightarrow> disp option" where
  "take_slot s i persona =
     (if \<not> ds_taking s then None
      else if engine_of s i \<noteq> None then None
      else Some (s\<lparr>ds_served := fmupd i persona (ds_served s)\<rparr>))"

definition backOff :: "DispConfig \<Rightarrow> time \<Rightarrow> string \<Rightarrow> disp \<Rightarrow> disp" where
  "backOff d now i s = s\<lparr>ds_backoff := (ds_backoff s)(i \<mapsto> now + raceBackoff d)\<rparr>"

definition release :: "DispConfig \<Rightarrow> time \<Rightarrow> string \<Rightarrow> disp \<Rightarrow> disp" where
  "release d now i s = s\<lparr>ds_served := fmdrop i (ds_served s),
     ds_backoff := (ds_backoff s)(i \<mapsto> now + raceBackoff d)\<rparr>"

text \<open>The locked part of \<open>Drain\<close>, and its verdict: \<open>ends i\<close> tells whether the engine of
  placement \<open>i\<close> finishes before the drain's context does.\<close>

definition drain :: "disp \<Rightarrow> disp" where
  "drain s = s\<lparr>ds_taking := False, ds_served := fmempty\<rparr>"

definition Drain :: "(string \<Rightarrow> bool) \<Rightarrow> disp \<Rightarrow> nat option \<times> disp" where
  "Drain ends s =
     (if fBall (fmdom (ds_served s)) ends then None else Some (fcard (fmdom (ds_served s))), drain s)"

section \<open>Calls and environments\<close>

type_synonym client = string

datatype dcall =
    DMaterialise "string + WorkItem list"
  | DClaim string "string option"
  | DAbandon string "string option"
  | DConnect string "string + client"
  | DEngineFor string "string + Config option"
  | DClose client
  | DServe string client Config

type_synonym dtrace = "dcall list"

record disp_env =
  dv_Materialise :: "dtrace \<Rightarrow> string + WorkItem list"
  dv_Claim :: "dtrace \<Rightarrow> string \<Rightarrow> string option"
  dv_Abandon :: "dtrace \<Rightarrow> string \<Rightarrow> string option"
  dv_Connect :: "dtrace \<Rightarrow> string \<Rightarrow> string + client"
  dv_EngineFor :: "dtrace \<Rightarrow> string \<Rightarrow> string + Config option"
  dv_Now :: "dtrace \<Rightarrow> time"
  dv_rest :: "dtrace \<Rightarrow> disp \<Rightarrow> disp"

section \<open>startServe\<close>

definition handBack :: "DispConfig \<Rightarrow> disp_env \<Rightarrow> string \<Rightarrow> disp \<Rightarrow> dtrace \<Rightarrow> disp \<times> dtrace" where
  "handBack d E i s tr =
     (let s1 = backOff d (dv_Now E tr) i (dv_rest E tr s) in (s1, tr @ [DAbandon i (dv_Abandon E tr i)]))"

text \<open>The base configuration of the engine: the per-persona one when the hook gives one.\<close>

definition engine_base :: "DispConfig \<Rightarrow> disp_env \<Rightarrow> string \<Rightarrow> dtrace \<Rightarrow> (string + Config) \<times> dtrace" where
  "engine_base d E persona tr =
     (if \<not> dc_EngineFor d then (Inr (dc_Engine d), tr)
      else let r = dv_EngineFor E tr persona; tr1 = tr @ [DEngineFor persona r] in
        (case r of Inl e \<Rightarrow> Inl e | Inr None \<Rightarrow> Inr (dc_Engine d) | Inr (Some per) \<Rightarrow> Inr per, tr1))"

definition startServe :: "(string \<Rightarrow> bool) \<Rightarrow> DispConfig \<Rightarrow> disp_env \<Rightarrow> string \<Rightarrow> Declaration
    \<Rightarrow> disp \<Rightarrow> dtrace \<Rightarrow> disp \<times> dtrace" where
  "startServe ValidName d E i decl s tr =
     (let s0 = dv_rest E tr s in
      if \<not> fst (slotFree s0 (dv_Now E tr) i (d_Persona decl)) then (s0, tr)
      else
        let c = dv_Connect E tr (d_Persona decl); tr1 = tr @ [DConnect (d_Persona decl) c] in
        case c of Inl e \<Rightarrow> handBack d E i s0 tr1 | Inr client \<Rightarrow>
        let (b, tr2) = engine_base d E (d_Persona decl) tr1 in
        case b of Inl e \<Rightarrow> handBack d E i s0 (tr2 @ [DClose client]) | Inr base \<Rightarrow>
        case DeclaredConfig ValidName (base\<lparr>cfg_Scratch := path_Join [cfg_Scratch base, i]\<rparr>) decl True of
          Inl e \<Rightarrow> handBack d E i s0 (tr2 @ [DClose client])
        | Inr cfg \<Rightarrow>
            let s1 = dv_rest E tr2 s0 in
            case take_slot s1 i (d_Persona decl) of
              None \<Rightarrow> (s1, tr2 @ [DClose client])
            | Some s2 \<Rightarrow> (s2, tr2 @ [DServe i client cfg]))"

section \<open>race and scan\<close>

definition race :: "(string \<Rightarrow> bool) \<Rightarrow> DispConfig \<Rightarrow> disp_env \<Rightarrow> string \<Rightarrow> Declaration
    \<Rightarrow> disp \<Rightarrow> dtrace \<Rightarrow> disp \<times> dtrace" where
  "race ValidName d E i decl s tr =
     (let s0 = dv_rest E tr s in
      if skipRace s0 (dv_Now E tr) i (d_Persona decl) then (s0, tr)
      else
        let c = dv_Claim E tr i; tr1 = tr @ [DClaim i c] in
        case c of Some e \<Rightarrow> (s0, tr1) | None \<Rightarrow>
        let mt = dv_Materialise E tr1; tr2 = tr1 @ [DMaterialise mt] in
        case mt of Inl e \<Rightarrow> (s0, tr2) | Inr items \<Rightarrow>
        case findItem items i of None \<Rightarrow> (s0, tr2) | Some item \<Rightarrow>
        if wi_Status item \<noteq> WorkClaimed \<or> wi_Owner item \<noteq> ds_node s0 then (s0, tr2)
        else startServe ValidName d E i decl s0 tr2)"

definition scan_item :: "(string \<Rightarrow> bool) \<Rightarrow> (string \<Rightarrow> Declaration option) \<Rightarrow> DispConfig \<Rightarrow> disp_env
    \<Rightarrow> WorkItem \<Rightarrow> disp \<Rightarrow> dtrace \<Rightarrow> disp \<times> dtrace" where
  "scan_item ValidName decode d E item s tr =
     (case DeclarationOf decode item of None \<Rightarrow> (s, tr) | Some decl \<Rightarrow>
      if \<not> Servable decl then (s, tr)
      else if wi_Status item = WorkClaimed \<and> wi_Owner item = ds_node s
      then startServe ValidName d E (wi_ID item) decl s tr
      else if wi_Status item = WorkOpen then race ValidName d E (wi_ID item) decl s tr
      else (s, tr))"

fun scan_loop :: "(string \<Rightarrow> bool) \<Rightarrow> (string \<Rightarrow> Declaration option) \<Rightarrow> DispConfig \<Rightarrow> disp_env
    \<Rightarrow> WorkItem list \<Rightarrow> disp \<Rightarrow> dtrace \<Rightarrow> disp \<times> dtrace" where
  "scan_loop ValidName decode d E [] s tr = (s, tr)"
| "scan_loop ValidName decode d E (item # items) s tr =
     (case scan_item ValidName decode d E item s tr of (s1, tr1) \<Rightarrow>
        scan_loop ValidName decode d E items s1 tr1)"

definition scan :: "(string \<Rightarrow> bool) \<Rightarrow> (string \<Rightarrow> Declaration option) \<Rightarrow> DispConfig \<Rightarrow> disp_env
    \<Rightarrow> disp \<Rightarrow> dtrace \<Rightarrow> disp \<times> dtrace" where
  "scan ValidName decode d E s tr =
     (let s0 = dv_rest E tr s in
      if \<not> ds_taking s0 then (s0, tr)
      else
        let mt = dv_Materialise E tr; tr1 = tr @ [DMaterialise mt] in
        case mt of Inl e \<Rightarrow> (s0, tr1) | Inr items \<Rightarrow> scan_loop ValidName decode d E items s0 tr1)"

text \<open>The reclaim pass: fleet's sweep by a node without a runner.\<close>

definition sweeper :: "DispConfig \<Rightarrow> disp \<Rightarrow> Node" where
  "sweeper d s = \<lparr>nd_ID = ds_node s, nd_Runner = None, nd_Reclaim = dc_Reclaim d,
     nd_ProbeTimeout = dc_ProbeTimeout d, nd_owned = None, nd_sub = False\<rparr>"

definition sweepOnce :: "(string \<Rightarrow> Declaration option) \<Rightarrow> DispConfig \<Rightarrow> fleet_env \<Rightarrow> disp \<Rightarrow> ftrace
    \<Rightarrow> bool \<times> ftrace" where
  "sweepOnce decode d F s tr =
     (case Sweep decode F (sweeper d s) tr of (reopened, err, tr1) \<Rightarrow> (0 < length reopened, tr1))"

section \<open>What the other goroutines may do\<close>

text \<open>An engine that stopped by itself releases its placement; \<open>Drain\<close> may be called at any
  time.\<close>

inductive other_step :: "DispConfig \<Rightarrow> disp \<Rightarrow> disp \<Rightarrow> bool" for d where
  engine_end: "other_step d s (release d now i s)"
| drained: "other_step d s (drain s)"

inductive_simps other_step_iff: "other_step d s t"

definition interferes :: "DispConfig \<Rightarrow> disp_env \<Rightarrow> bool" where
  "interferes d E \<longleftrightarrow> (\<forall>tr s. (other_step d)\<^sup>*\<^sup>* s (dv_rest E tr s))"

text \<open>One engine per persona, and none when no work is taken.\<close>

definition disp_inv :: "disp \<Rightarrow> bool" where
  "disp_inv s \<longleftrightarrow> inj_on (engine_of s) (dom (engine_of s)) \<and> (\<not> ds_taking s \<longrightarrow> ds_served s = fmempty)"

lemma disp_inv_release: "disp_inv s \<Longrightarrow> disp_inv (release d now i s)"
  by (auto simp: disp_inv_def release_def inj_on_def dom_def)

lemma disp_inv_drain: "disp_inv (drain s)"
  by (simp add: disp_inv_def drain_def)

interpretation rest_inv: rely_stable "other_step d" disp_inv for d
  by unfold_locales (auto simp: other_step_iff disp_inv_release disp_inv_drain)

interpretation rest_node: rely_stable "other_step d" "\<lambda>s. ds_node s = n" for d n
  by unfold_locales (auto simp: other_step_iff release_def drain_def)

text \<open>A persona that is not served here stays so: the others only remove engines.\<close>

lemma busy_iff: "busy s p \<longleftrightarrow> (\<exists>i. engine_of s i = Some p)"
  by (simp add: busy_def fmlookup_ran_iff)

lemma busy_release: "busy (release d now i s) p \<Longrightarrow> busy s p"
  by (auto simp: busy_iff release_def split: if_splits)

lemma busy_drain: "\<not> busy (drain s) p"
  by (simp add: busy_iff drain_def)

interpretation rest_idle: rely_stable "other_step d" "\<lambda>s. \<not> busy s p" for d p
proof
  fix s t assume "\<not> busy s p" "other_step d s t"
  then show "\<not> busy t p"
    by (auto simp: other_step_iff busy_drain dest: busy_release)
qed

interpretation rest_off: rely_stable "other_step d" "\<lambda>s. ds_served s = fmempty \<and> \<not> ds_taking s" for d
  by unfold_locales (auto simp: other_step_iff release_def drain_def)

lemma rest_keeps:
  assumes "interferes d E"
  shows "disp_inv s \<Longrightarrow> disp_inv (dv_rest E tr s)" "ds_node (dv_rest E tr s) = ds_node s"
    "\<not> busy s p \<Longrightarrow> \<not> busy (dv_rest E tr s) p"
proof -
  have r: "(other_step d)\<^sup>*\<^sup>* s (dv_rest E tr s)" using assms by (simp add: interferes_def)
  show "disp_inv s \<Longrightarrow> disp_inv (dv_rest E tr s)" by (rule rest_inv.stable_steps [OF r])
  show "ds_node (dv_rest E tr s) = ds_node s" by (rule rest_node.stable_steps [OF r]) simp
  show "\<not> busy s p \<Longrightarrow> \<not> busy (dv_rest E tr s) p" by (rule rest_idle.stable_steps [OF r])
qed

lemma take_inv:
  assumes "disp_inv s" and "\<not> busy s p" and "take_slot s i p = Some s'"
  shows "disp_inv s' \<and> ds_node s' = ds_node s \<and> engine_of s' i = Some p"
proof -
  have s': "s' = s\<lparr>ds_served := fmupd i p (ds_served s)\<rparr>" and t: "ds_taking s"
    using assms(3) by (auto simp: take_slot_def split: if_splits)
  have "inj_on ((engine_of s)(i \<mapsto> p)) (insert i (dom (engine_of s)))"
    using assms(1,2) by (force simp: inj_on_def disp_inv_def busy_iff)
  moreover have eq: "engine_of s' = (engine_of s)(i \<mapsto> p)" by (rule ext) (simp add: s')
  moreover have "dom (engine_of s') = insert i (dom (engine_of s))" by (simp only: eq dom_fun_upd option.simps if_False)
  ultimately have "inj_on (engine_of s') (dom (engine_of s'))" by (simp only:)
  with s' t show ?thesis by (simp add: disp_inv_def)
qed

lemma slotFree_idle: "fst (slotFree s now i p) \<Longrightarrow> \<not> busy s p \<and> ds_taking s \<and> engine_of s i = None"
  by (auto simp: slotFree_def split: if_splits)

section \<open>What serving does\<close>

fun opened :: "dtrace \<Rightarrow> client list" where
  "opened [] = []"
| "opened (DConnect p (Inr c) # tr) = c # opened tr"
| "opened (_ # tr) = opened tr"

fun closed :: "dtrace \<Rightarrow> client list" where
  "closed [] = []"
| "closed (DClose c # tr) = c # closed tr"
| "closed (_ # tr) = closed tr"

fun engines :: "dtrace \<Rightarrow> (string \<times> client \<times> Config) list" where
  "engines [] = []"
| "engines (DServe i c cfg # tr) = (i, c, cfg) # engines tr"
| "engines (_ # tr) = engines tr"

fun handed_back :: "dtrace \<Rightarrow> string list" where
  "handed_back [] = []"
| "handed_back (DAbandon i r # tr) = i # handed_back tr"
| "handed_back (_ # tr) = handed_back tr"

fun claimed :: "dtrace \<Rightarrow> string list" where
  "claimed [] = []"
| "claimed (DClaim i r # tr) = i # claimed tr"
| "claimed (_ # tr) = claimed tr"

lemma proj_append [simp, trace_simps]:
  "opened (a @ b) = opened a @ opened b" "closed (a @ b) = closed a @ closed b"
  "engines (a @ b) = engines a @ engines b" "handed_back (a @ b) = handed_back a @ handed_back b"
  "claimed (a @ b) = claimed a @ claimed b"
proof -
  show "opened (a @ b) = opened a @ opened b" by (induction a rule: opened.induct) auto
  show "closed (a @ b) = closed a @ closed b" by (induction a rule: closed.induct) auto
  show "engines (a @ b) = engines a @ engines b" by (induction a rule: engines.induct) auto
  show "handed_back (a @ b) = handed_back a @ handed_back b" by (induction a rule: handed_back.induct) auto
  show "claimed (a @ b) = claimed a @ claimed b" by (induction a rule: claimed.induct) auto
qed

text \<open>A placement is never half-served: either its engine is up, on the client opened for it,
  with the declaration's configuration; or nothing runs, every client opened is closed, and the
  placement was handed back unless the slot was not free.\<close>

definition served_config :: "(string \<Rightarrow> bool) \<Rightarrow> Declaration \<Rightarrow> string \<Rightarrow> Config \<Rightarrow> bool" where
  "served_config ValidName decl i cfg \<longleftrightarrow> (\<exists>base.
     DeclaredConfig ValidName (base\<lparr>cfg_Scratch := path_Join [cfg_Scratch base, i]\<rparr>) decl True = Inr cfg)"

definition serve_story :: "(string \<Rightarrow> bool) \<Rightarrow> Declaration \<Rightarrow> string \<Rightarrow> disp \<Rightarrow> dtrace \<Rightarrow> bool" where
  "serve_story ValidName decl i s' ext \<longleftrightarrow> claimed ext = [] \<and>
     (case engines ext of
        [] \<Rightarrow> closed ext = opened ext \<and> length (opened ext) \<le> 1 \<and>
          (handed_back ext = [] \<or> handed_back ext = [i] \<and> ds_backoff s' i \<noteq> None)
      | [(j, c, cfg)] \<Rightarrow> j = i \<and> opened ext = [c] \<and> closed ext = [] \<and> handed_back ext = [] \<and>
          served_config ValidName decl i cfg \<and> engine_of s' i = Some (d_Persona decl)
      | _ \<Rightarrow> False)"

lemma handBack_eq: "\<exists>s' r. handBack d E i s tr = (s', tr @ [DAbandon i r]) \<and> ds_backoff s' i \<noteq> None \<and>
    (interferes d E \<longrightarrow> ds_node s' = ds_node s \<and> (disp_inv s \<longrightarrow> disp_inv s'))"
proof -
  have "disp_inv (backOff d now i t) = disp_inv t" for now t
    by (simp add: disp_inv_def backOff_def)
  with rest_keeps show ?thesis
    by (auto simp: handBack_def Let_def) (auto simp: backOff_def)
qed

lemma engine_base_eq: "\<exists>ext. snd (engine_base d E p tr) = tr @ ext \<and> opened ext = [] \<and> closed ext = [] \<and>
    engines ext = [] \<and> handed_back ext = [] \<and> claimed ext = []"
  by (auto simp: engine_base_def Let_def)

lemma startServe_story_lemma:
  "\<exists>s' ext. startServe VN d E i decl s tr = (s', tr @ ext) \<and> serve_story VN decl i s' ext \<and>
     (interferes d E \<longrightarrow> ds_node s' = ds_node s \<and> (disp_inv s \<longrightarrow> disp_inv s'))"
proof -
  define s0 where "s0 = dv_rest E tr s"
  let ?p = "d_Persona decl"
  define c where "c = dv_Connect E tr ?p"
  note unf = startServe_def Let_def s0_def [symmetric] c_def [symmetric]
  have s0: "interferes d E \<longrightarrow> ds_node s0 = ds_node s \<and> (disp_inv s \<longrightarrow> disp_inv s0)"
    using rest_keeps [of d E] by (auto simp: s0_def)
  show ?thesis
  proof (cases "fst (slotFree s0 (dv_Now E tr) i ?p)")
    case False
    with s0 show ?thesis by (auto simp: unf serve_story_def)
  next
    case free: True
    show ?thesis
    proof (cases c)
      case (Inl e)
      obtain s' r where "handBack d E i s0 (tr @ [DConnect ?p c]) = (s', (tr @ [DConnect ?p c]) @ [DAbandon i r])"
        "ds_backoff s' i \<noteq> None" "interferes d E \<longrightarrow> ds_node s' = ds_node s0 \<and> (disp_inv s0 \<longrightarrow> disp_inv s')"
        using handBack_eq by blast
      with free Inl s0 show ?thesis
        by (intro exI [of _ s'] exI [of _ "[DConnect ?p c, DAbandon i r]"]) (auto simp: unf serve_story_def)
    next
      case (Inr client)
      let ?tr1 = "tr @ [DConnect ?p c]"
      define b where "b = fst (engine_base d E ?p ?tr1)"
      obtain ext where ext: "snd (engine_base d E ?p ?tr1) = ?tr1 @ ext" "opened ext = []" "closed ext = []"
        "engines ext = []" "handed_back ext = []" "claimed ext = []"
        using engine_base_eq by blast
      have eb: "engine_base d E ?p ?tr1 = (b, ?tr1 @ ext)" using ext(1) b_def by (simp add: prod_eq_iff)
      have undo: ?thesis if "startServe VN d E i decl s tr = handBack d E i s0 ((?tr1 @ ext) @ [DClose client])"
      proof -
        obtain s' r where "handBack d E i s0 ((?tr1 @ ext) @ [DClose client]) =
            (s', ((?tr1 @ ext) @ [DClose client]) @ [DAbandon i r])"
          "ds_backoff s' i \<noteq> None" "interferes d E \<longrightarrow> ds_node s' = ds_node s0 \<and> (disp_inv s0 \<longrightarrow> disp_inv s')"
          using handBack_eq by blast
        with that s0 ext Inr show ?thesis
          by (intro exI [of _ s'] exI [of _ "DConnect ?p c # ext @ [DClose client, DAbandon i r]"])
             (auto simp: serve_story_def)
      qed
      show ?thesis
      proof (cases b)
        case (Inl e)
        then show ?thesis using free \<open>c = Inr client\<close> eb by (intro undo) (simp add: unf)
      next
        case base: (Inr base)
        define dc where "dc = DeclaredConfig VN (base\<lparr>cfg_Scratch := path_Join [cfg_Scratch base, i]\<rparr>) decl True"
        show ?thesis
        proof (cases dc)
          case (Inl e)
          then show ?thesis
            using free \<open>c = Inr client\<close> eb base by (intro undo) (simp add: unf dc_def)
        next
          case cfg: (Inr cfg)
          define s1 where "s1 = dv_rest E (?tr1 @ ext) s0"
          have idle: "\<not> busy s0 ?p" using slotFree_idle [OF free] by simp
          have s1: "interferes d E \<longrightarrow> ds_node s1 = ds_node s \<and> (disp_inv s \<longrightarrow> disp_inv s1) \<and> \<not> busy s1 ?p"
            using rest_keeps [where d = d and E = E and s = s0 and tr = "?tr1 @ ext"] s0 idle by (auto simp: s1_def)
          have eq: "startServe VN d E i decl s tr = (case take_slot s1 i ?p of
              None \<Rightarrow> (s1, (?tr1 @ ext) @ [DClose client])
            | Some s2 \<Rightarrow> (s2, (?tr1 @ ext) @ [DServe i client cfg]))"
            using free Inr eb base cfg by (simp add: unf dc_def s1_def split: option.split)
          show ?thesis
          proof (cases "take_slot s1 i ?p")
            case None
            with eq s1 ext Inr show ?thesis
              by (intro exI [of _ s1] exI [of _ "DConnect ?p c # ext @ [DClose client]"])
                 (auto simp: serve_story_def)
          next
            case (Some s2)
            have "engine_of s2 i = Some ?p" using Some by (auto simp: take_slot_def split: if_splits)
            moreover have "served_config VN decl i cfg" using cfg dc_def by (auto simp: served_config_def)
            moreover have "interferes d E \<longrightarrow> ds_node s2 = ds_node s \<and> (disp_inv s \<longrightarrow> disp_inv s2)"
              using s1 take_inv [of s1 ?p i s2] Some by (auto simp: take_slot_def split: if_splits)
            ultimately show ?thesis using eq ext Inr Some
              by (intro exI [of _ s2] exI [of _ "DConnect ?p c # ext @ [DServe i client cfg]"])
                 (auto simp: serve_story_def)
          qed
        qed
      qed
    qed
  qed
qed

section \<open>What a pass does\<close>

definition seen :: "dtrace \<Rightarrow> WorkItem set" where
  "seen tr = {item. \<exists>items. DMaterialise (Inr items) \<in> set tr \<and> item \<in> set items}"

lemma seen_append [simp]: "seen (a @ b) = seen a \<union> seen b"
  by (auto simp: seen_def)

text \<open>An engine is justified by the views read: a placement of a servable declaration, and the
  record naming this node its owner; and its configuration is the declaration's.\<close>

definition justified :: "(string \<Rightarrow> bool) \<Rightarrow> (string \<Rightarrow> Declaration option) \<Rightarrow> string \<Rightarrow> WorkItem set
    \<Rightarrow> string \<times> client \<times> Config \<Rightarrow> bool" where
  "justified ValidName decode node S e \<longleftrightarrow> (\<exists>decl item item2.
     item \<in> S \<and> wi_ID item = fst e \<and> DeclarationOf decode item = Some decl \<and> Servable decl \<and>
     item2 \<in> S \<and> wi_ID item2 = fst e \<and> wi_Status item2 = WorkClaimed \<and> wi_Owner item2 = node \<and>
     served_config ValidName decl (fst e) (snd (snd e)))"

lemma justified_mono: "justified VN decode n S e \<Longrightarrow> S \<subseteq> T \<Longrightarrow> justified VN decode n T e"
  unfolding justified_def by blast

definition balanced :: "dtrace \<Rightarrow> bool" where
  "balanced tr \<longleftrightarrow> mset (opened tr) = mset (closed tr) + mset (map (fst \<circ> snd) (engines tr))"

lemma balanced_append: "balanced a \<Longrightarrow> balanced b \<Longrightarrow> balanced (a @ b)"
  by (simp add: balanced_def)

text \<open>The two ways a call of \<open>startServe\<close> ends.\<close>

lemma serve_story_cases:
  assumes "serve_story VN decl i s ext"
  obtains (quiet) "engines ext = []" "closed ext = opened ext"
  | (up) c cfg where "engines ext = [(i, c, cfg)]" "opened ext = [c]" "closed ext = []" "served_config VN decl i cfg"
proof (cases "engines ext")
  case Nil
  with assms show thesis by (intro quiet) (simp_all add: serve_story_def)
next
  case (Cons e es)
  then obtain j c cfg where "e = (j, c, cfg)" by (cases e)
  with Cons assms show thesis by (cases es) (auto simp: serve_story_def intro: up)
qed

lemma serve_story_balanced: "serve_story VN decl i s ext \<Longrightarrow> balanced ext"
  by (erule serve_story_cases) (simp_all add: balanced_def)

text \<open>A stretch of calls after the views \<open>S\<close>, and what it keeps of the state.\<close>

definition pass_ok :: "(string \<Rightarrow> bool) \<Rightarrow> (string \<Rightarrow> Declaration option) \<Rightarrow> DispConfig \<Rightarrow> disp_env
    \<Rightarrow> WorkItem set \<Rightarrow> disp \<Rightarrow> disp \<Rightarrow> dtrace \<Rightarrow> bool" where
  "pass_ok ValidName decode d E S s s' ext \<longleftrightarrow> balanced ext \<and>
     (interferes d E \<longrightarrow> ds_node s' = ds_node s \<and> (disp_inv s \<longrightarrow> disp_inv s') \<and>
        list_all (justified ValidName decode (ds_node s) (S \<union> seen ext)) (engines ext))"

lemma pass_ok_trans:
  assumes "pass_ok VN decode d E S s s1 a" and "pass_ok VN decode d E (S \<union> seen a) s1 s2 b"
  shows "pass_ok VN decode d E S s s2 (a @ b)"
  using assms balanced_append unfolding pass_ok_def list_all_iff
  by (auto intro: justified_mono)

lemma pass_ok_quiet:
  assumes "interferes d E \<longrightarrow> ds_node s' = ds_node s \<and> (disp_inv s \<longrightarrow> disp_inv s')"
    and "opened ext = []" "closed ext = []" "engines ext = []"
  shows "pass_ok VN decode d E S s s' ext"
  using assms by (simp add: pass_ok_def balanced_def)

lemma rest_ok: "interferes d E \<longrightarrow> ds_node (dv_rest E tr s) = ds_node s \<and> (disp_inv s \<longrightarrow> disp_inv (dv_rest E tr s))"
  using rest_keeps [of d E] by blast

lemma startServe_pass:
  assumes "item \<in> S" "wi_ID item = i" "DeclarationOf decode item = Some decl" "Servable decl"
    and "item2 \<in> S" "wi_ID item2 = i" "wi_Status item2 = WorkClaimed" "interferes d E \<longrightarrow> wi_Owner item2 = ds_node s"
  shows "\<exists>s' ext. startServe VN d E i decl s tr = (s', tr @ ext) \<and> pass_ok VN decode d E S s s' ext"
proof -
  obtain s' ext where *: "startServe VN d E i decl s tr = (s', tr @ ext)" "serve_story VN decl i s' ext"
    "interferes d E \<longrightarrow> ds_node s' = ds_node s \<and> (disp_inv s \<longrightarrow> disp_inv s')"
    using startServe_story_lemma by blast
  have "list_all (justified VN decode (ds_node s) (S \<union> seen ext)) (engines ext)" if "interferes d E"
    using *(2)
  proof (cases rule: serve_story_cases)
    case (up c cfg)
    have "justified VN decode (ds_node s) (S \<union> seen ext) (i, c, cfg)"
      unfolding justified_def using assms that up(4) by (intro exI [of _ decl] exI [of _ item] exI [of _ item2]) auto
    with up show ?thesis by simp
  qed simp
  with * serve_story_balanced [OF *(2)] show ?thesis unfolding pass_ok_def by blast
qed

lemma findItem_Some: "findItem items i = Some item \<Longrightarrow> item \<in> set items \<and> wi_ID item = i"
  by (auto simp: findItem_def dest: find_SomeD)

lemma race_pass:
  assumes "item \<in> S" "wi_ID item = i" "DeclarationOf decode item = Some decl" "Servable decl"
  shows "\<exists>s' ext. race VN d E i decl s tr = (s', tr @ ext) \<and> pass_ok VN decode d E S s s' ext"
proof -
  define s0 where "s0 = dv_rest E tr s"
  define c where "c = dv_Claim E tr i"
  define mt where "mt = dv_Materialise E (tr @ [DClaim i c])"
  note unf = race_def Let_def s0_def [symmetric] c_def [symmetric]
  have s0: "interferes d E \<longrightarrow> ds_node s0 = ds_node s \<and> (disp_inv s \<longrightarrow> disp_inv s0)"
    using rest_ok by (simp add: s0_def)
  have quiet: "pass_ok VN decode d E S s s0 ext" if "opened ext = []" "closed ext = []" "engines ext = []" for ext
    using pass_ok_quiet [OF s0 that] .
  show ?thesis
  proof (cases "skipRace s0 (dv_Now E tr) i (d_Persona decl)")
    case True
    then show ?thesis using quiet [of "[]"] by (auto simp: unf)
  next
    case go: False
    show ?thesis
    proof (cases c)
      case (Some e)
      then show ?thesis using quiet [of "[DClaim i c]"] go by (auto simp: unf)
    next
      case None
      let ?pre = "[DClaim i c, DMaterialise mt]"
      show ?thesis
      proof (cases "\<exists>items item2. mt = Inr items \<and> findItem items i = Some item2 \<and>
          wi_Status item2 = WorkClaimed \<and> wi_Owner item2 = ds_node s0")
        case False
        then have "race VN d E i decl s tr = (s0, tr @ ?pre)"
          using go None by (auto simp: unf mt_def split: sum.split option.split)
        then show ?thesis using quiet [of ?pre] by auto
      next
        case True
        then obtain items item2 where won: "mt = Inr items" "findItem items i = Some item2"
          "wi_Status item2 = WorkClaimed" "wi_Owner item2 = ds_node s0" by blast
        have i2: "item2 \<in> S \<union> seen ?pre" "wi_ID item2 = i"
          using findItem_Some [OF won(2)] won(1) by (auto simp: seen_def)
        obtain s' ext where ss: "startServe VN d E i decl s0 (tr @ ?pre) = (s', (tr @ ?pre) @ ext)"
          "pass_ok VN decode d E (S \<union> seen ?pre) s0 s' ext"
          using startServe_pass [of item "S \<union> seen ?pre" i decode decl item2 d E s0 VN "tr @ ?pre",
            OF UnI1 [OF assms(1)] assms(2-4) i2 won(3)] won(4) by blast
        have "race VN d E i decl s tr = (s', tr @ ?pre @ ext)"
          using go None won ss(1) by (simp add: unf mt_def)
        moreover have "pass_ok VN decode d E S s s' (?pre @ ext)"
          by (rule pass_ok_trans [OF quiet ss(2)]) simp_all
        ultimately show ?thesis by blast
      qed
    qed
  qed
qed

lemma scan_item_pass:
  assumes "item \<in> S"
  shows "\<exists>s' ext. scan_item VN decode d E item s tr = (s', tr @ ext) \<and> pass_ok VN decode d E S s s' ext"
proof -
  have none: "pass_ok VN decode d E S s s []" by (rule pass_ok_quiet) simp_all
  show ?thesis
  proof (cases "\<exists>decl. DeclarationOf decode item = Some decl \<and> Servable decl")
    case False
    then have "scan_item VN decode d E item s tr = (s, tr @ [])"
      by (auto simp: scan_item_def split: option.split)
    with none show ?thesis by blast
  next
    case True
    then obtain decl where decl: "DeclarationOf decode item = Some decl" "Servable decl" by blast
    consider (resume) "wi_Status item = WorkClaimed" "wi_Owner item = ds_node s" | (race) "wi_Status item = WorkOpen"
      | (skip) "\<not> (wi_Status item = WorkClaimed \<and> wi_Owner item = ds_node s)" "wi_Status item \<noteq> WorkOpen" by blast
    then show ?thesis
    proof cases
      case resume
      with startServe_pass [OF assms refl decl assms refl, of d E s VN tr] decl show ?thesis
        by (simp add: scan_item_def)
    next
      case race
      with race_pass [OF assms refl decl, of VN d E s tr] decl show ?thesis by (simp add: scan_item_def)
    next
      case skip
      with decl have "scan_item VN decode d E item s tr = (s, tr @ [])" by (auto simp: scan_item_def)
      with none show ?thesis by blast
    qed
  qed
qed

lemma scan_loop_pass:
  "set items \<subseteq> S \<Longrightarrow>
    \<exists>s' ext. scan_loop VN decode d E items s tr = (s', tr @ ext) \<and> pass_ok VN decode d E S s s' ext"
proof (induction items arbitrary: s tr S)
  case Nil
  then show ?case by (auto intro!: pass_ok_quiet)
next
  case (Cons item items)
  obtain s1 a where a: "scan_item VN decode d E item s tr = (s1, tr @ a)" "pass_ok VN decode d E S s s1 a"
    using scan_item_pass Cons.prems by (metis list.set_intros(1) subsetD)
  obtain s2 b where b: "scan_loop VN decode d E items s1 (tr @ a) = (s2, (tr @ a) @ b)"
    "pass_ok VN decode d E (S \<union> seen a) s1 s2 b"
    using Cons.IH [of "S \<union> seen a" s1 "tr @ a"] Cons.prems by auto
  from a b pass_ok_trans [OF a(2) b(2)] show ?case
    by (intro exI [of _ s2] exI [of _ "a @ b"]) simp
qed

lemma scan_pass:
  "\<exists>s' ext. scan VN decode d E s tr = (s', tr @ ext) \<and> pass_ok VN decode d E {} s s' ext"
proof -
  define s0 where "s0 = dv_rest E tr s"
  define mt where "mt = dv_Materialise E tr"
  note unf = scan_def Let_def s0_def [symmetric] mt_def [symmetric]
  have quiet: "pass_ok VN decode d E {} s s0 ext" if "opened ext = []" "closed ext = []" "engines ext = []" for ext
    by (rule pass_ok_quiet [OF _ that]) (use rest_ok in \<open>simp add: s0_def\<close>)
  show ?thesis
  proof (cases "ds_taking s0")
    case False
    then show ?thesis using quiet [of "[]"] by (auto simp: unf)
  next
    case taking: True
    show ?thesis
    proof (cases mt)
      case (Inl e)
      then show ?thesis using taking quiet [of "[DMaterialise mt]"] by (auto simp: unf)
    next
      case (Inr items)
      have "set items \<subseteq> seen [DMaterialise mt]" using Inr by (auto simp: seen_def)
      from scan_loop_pass [OF this, of VN decode d E s0 "tr @ [DMaterialise mt]"]
      obtain s' ext where *: "scan_loop VN decode d E items s0 (tr @ [DMaterialise mt]) =
          (s', (tr @ [DMaterialise mt]) @ ext)" "pass_ok VN decode d E (seen [DMaterialise mt]) s0 s' ext"
        by blast
      have "pass_ok VN decode d E {} s s' ([DMaterialise mt] @ ext)"
        by (rule pass_ok_trans [OF quiet]) (use *(2) in simp_all)
      with * taking Inr show ?thesis by (intro exI [of _ s'] exI [of _ "[DMaterialise mt] @ ext"]) (simp add: unf)
    qed
  qed
qed

lemma pass_ok_mono: "pass_ok VN decode d E S s s' ext \<Longrightarrow> S \<subseteq> T \<Longrightarrow> pass_ok VN decode d E T s s' ext"
  unfolding pass_ok_def list_all_iff by (auto intro: justified_mono)

section \<open>The loop\<close>

text \<open>The select loop of \<open>Run\<close>: \<open>lp_poke\<close> is the channel of one request for a scan, \<open>lp_result\<close>
  what \<open>Run\<close> returned.  \<open>lp_sweeps\<close> is the trace of the reclaim passes.\<close>

record dloop =
  lp_state :: disp
  lp_poke :: bool
  lp_trace :: dtrace
  lp_sweeps :: ftrace
  lp_result :: "nat option option"

definition Run_up :: "DispConfig \<Rightarrow> dloop \<Rightarrow> bool" where
  "Run_up d l \<longleftrightarrow> (\<exists>s. disp_start d = Inr s \<and>
     l = \<lparr>lp_state = s, lp_poke = True, lp_trace = [], lp_sweeps = [], lp_result = None\<rparr>)"

definition scan_pass_of :: "(string \<Rightarrow> bool) \<Rightarrow> (string \<Rightarrow> Declaration option) \<Rightarrow> DispConfig \<Rightarrow> disp_env \<Rightarrow> bool \<Rightarrow> dloop \<Rightarrow> dloop" where
  "scan_pass_of ValidName decode d E poked l =
     (case scan ValidName decode d E (lp_state l) (lp_trace l) of (s, tr) \<Rightarrow>
        l\<lparr>lp_state := s, lp_trace := tr, lp_poke := poked\<rparr>)"

definition sweep_pass_of :: "(string \<Rightarrow> Declaration option) \<Rightarrow> DispConfig \<Rightarrow> fleet_env \<Rightarrow> dloop \<Rightarrow> dloop" where
  "sweep_pass_of decode d F l =
     (case sweepOnce decode d F (lp_state l) (lp_sweeps l) of (reopened, tr) \<Rightarrow>
        l\<lparr>lp_sweeps := tr, lp_poke := (reopened \<or> lp_poke l)\<rparr>)"

inductive disp_step :: "(string \<Rightarrow> bool) \<Rightarrow> (string \<Rightarrow> Declaration option) \<Rightarrow> DispConfig \<Rightarrow> disp_env \<Rightarrow> fleet_env
    \<Rightarrow> dloop \<Rightarrow> dloop \<Rightarrow> bool" for ValidName decode d E F where
  op_seen: "disp_step ValidName decode d E F l (l\<lparr>lp_poke := True\<rparr>)"
| poked: "lp_result l = None \<Longrightarrow> lp_poke l \<Longrightarrow>
    disp_step ValidName decode d E F l (scan_pass_of ValidName decode d E False l)"
| polled: "lp_result l = None \<Longrightarrow>
    disp_step ValidName decode d E F l (scan_pass_of ValidName decode d E (lp_poke l) l)"
| swept: "lp_result l = None \<Longrightarrow> disp_step ValidName decode d E F l (sweep_pass_of decode d F l)"
| stopped: "lp_result l = None \<Longrightarrow> Drain ends (lp_state l) = (r, s) \<Longrightarrow>
    disp_step ValidName decode d E F l (l\<lparr>lp_state := s, lp_result := Some r\<rparr>)"
| other: "other_step d (lp_state l) s \<Longrightarrow> disp_step ValidName decode d E F l (l\<lparr>lp_state := s\<rparr>)"

inductive_cases disp_stepE: "disp_step VN decode d E F l l'"

definition loop_inv :: "(string \<Rightarrow> bool) \<Rightarrow> (string \<Rightarrow> Declaration option) \<Rightarrow> DispConfig \<Rightarrow> disp_env \<Rightarrow> dloop \<Rightarrow> bool" where
  "loop_inv VN decode d E l \<longleftrightarrow> (\<exists>s0. disp_start d = Inr s0 \<and>
     pass_ok VN decode d E {} s0 (lp_state l) (lp_trace l))"

lemma disp_start_inv: "disp_start d = Inr s \<Longrightarrow> disp_inv s"
  by (auto simp: disp_start_def disp_inv_def Let_def split: option.splits if_splits)

lemma loop_inv_state:
  assumes "loop_inv VN decode d E l" and "disp_inv (lp_state l) \<longrightarrow> disp_inv s" and "ds_node s = ds_node (lp_state l)"
  shows "loop_inv VN decode d E (l\<lparr>lp_state := s, lp_result := r\<rparr>)" "loop_inv VN decode d E (l\<lparr>lp_state := s\<rparr>)"
  using assms by (auto simp: loop_inv_def pass_ok_def)

lemma other_step_keeps: "other_step d s t \<Longrightarrow> (disp_inv s \<longrightarrow> disp_inv t) \<and> ds_node t = ds_node s"
  using rest_inv.stable rest_node.stable by blast

lemma scan_pass_inv:
  assumes "loop_inv VN decode d E l"
  shows "loop_inv VN decode d E (scan_pass_of VN decode d E p l)"
proof -
  obtain s' ext where sc: "scan VN decode d E (lp_state l) (lp_trace l) = (s', lp_trace l @ ext)"
    "pass_ok VN decode d E {} (lp_state l) s' ext"
    using scan_pass by blast
  obtain s0 where s0: "disp_start d = Inr s0" "pass_ok VN decode d E {} s0 (lp_state l) (lp_trace l)"
    using assms by (auto simp: loop_inv_def)
  have "pass_ok VN decode d E {} s0 s' (lp_trace l @ ext)"
    by (rule pass_ok_trans [OF s0(2)], rule pass_ok_mono [OF sc(2)]) simp
  with s0(1) sc(1) show ?thesis by (auto simp: loop_inv_def scan_pass_of_def)
qed

interpretation dispatcher: invariant_system "Run_up d" "disp_step VN decode d E F" "loop_inv VN decode d E"
  for VN decode d E F
proof
  fix l assume "Run_up d l"
  then show "loop_inv VN decode d E l"
    by (auto simp: Run_up_def loop_inv_def pass_ok_def balanced_def)
next
  fix l l' assume inv: "loop_inv VN decode d E l" and "disp_step VN decode d E F l l'"
  from this(2) show "loop_inv VN decode d E l'"
  proof (cases rule: disp_step.cases)
    case op_seen
    with inv show ?thesis by (simp add: loop_inv_def)
  next
    case swept
    with inv show ?thesis by (simp add: loop_inv_def sweep_pass_of_def split: prod.split)
  next
    case (stopped ends r s)
    then have "s = drain (lp_state l)" by (simp add: Drain_def)
    with stopped show ?thesis
      using loop_inv_state(1) [OF inv] disp_inv_drain by (simp add: drain_def)
  next
    case (other s)
    with loop_inv_state(2) [OF inv] other_step_keeps show ?thesis by blast
  qed (use scan_pass_inv [OF inv] in simp_all)
qed

section \<open>Properties\<close>


text \<open>C7. One engine per persona: in every reachable state of the dispatcher's loop, whatever
  engines stop by themselves and whenever it drains, two placements it serves declare different
  personas, and nothing is served once it takes no work.\<close>

theorem one_engine_per_persona:
  assumes "reach (Run_up d) (disp_step VN decode d E F) l" and "interferes d E"
  shows "inj_on (engine_of (lp_state l)) (dom (engine_of (lp_state l))) \<and>
    (ds_taking (lp_state l) \<or> ds_served (lp_state l) = fmempty)"
proof -
  obtain s0 where "disp_start d = Inr s0" "pass_ok VN decode d E {} s0 (lp_state l) (lp_trace l)"
    using dispatcher.reach_inv [OF assms(1)] by (auto simp: loop_inv_def)
  with assms(2) disp_start_inv have "disp_inv (lp_state l)" by (auto simp: pass_ok_def)
  then show ?thesis by (auto simp: disp_inv_def)
qed

text \<open>C6. Nothing is served on a hunch: every engine the loop ever brought up serves a placement
  whose declaration it read from the log and can serve, that a view it read shows claimed by this
  node itself, under the configuration of that declaration.\<close>

theorem engines_justified:
  assumes "reach (Run_up d) (disp_step VN decode d E F) l" and "interferes d E"
    and "e \<in> set (engines (lp_trace l))"
  shows "justified VN decode (ds_node (lp_state l)) (seen (lp_trace l)) e"
proof -
  obtain s0 where "pass_ok VN decode d E {} s0 (lp_state l) (lp_trace l)"
    using dispatcher.reach_inv [OF assms(1)] by (auto simp: loop_inv_def)
  with assms(2,3) show ?thesis by (auto simp: pass_ok_def list_all_iff)
qed

text \<open>No client leaks in the loop: in every reachable state the clients opened are those closed
  together with those of the engines brought up.\<close>

theorem clients_accounted:
  assumes "reach (Run_up d) (disp_step VN decode d E F) l"
  shows "mset (opened (lp_trace l)) = mset (closed (lp_trace l)) + mset (map (fst \<circ> snd) (engines (lp_trace l)))"
  using dispatcher.reach_inv [OF assms] by (auto simp: loop_inv_def pass_ok_def balanced_def)

text \<open>C38. Draining is final: once drained, whatever the other goroutines do, the probe answers
  \<open>no\<close> for every placement, no slot is granted, a scan makes no call at all, and the drain
  reports an error exactly when an engine outlives it.\<close>

theorem drain_final:
  assumes "(other_step d)\<^sup>*\<^sup>* (drain s) t" and "interferes d E"
  shows "answerProbe t i = ''no'' \<and> take_slot t i p = None \<and>
    (\<exists>t'. scan VN decode d E t tr = (t', tr) \<and> \<not> ds_taking t') \<and>
    (fst (Drain ends s) = None \<longleftrightarrow> (\<forall>j. engine_of s j \<noteq> None \<longrightarrow> ends j))"
proof -
  have off: "ds_served u = fmempty \<and> \<not> ds_taking u" if "(other_step d)\<^sup>*\<^sup>* (drain s) u" for u
    by (rule rest_off.stable_steps [OF that]) (simp add: drain_def)
  have "(other_step d)\<^sup>*\<^sup>* (drain s) (dv_rest E tr t)"
    using assms by (meson interferes_def rtranclp_trans)
  with off have rest: "\<not> ds_taking (dv_rest E tr t)" by blast
  have "fst (Drain ends s) = None \<longleftrightarrow> (\<forall>j. engine_of s j \<noteq> None \<longrightarrow> ends j)"
    by (auto simp: Drain_def fmlookup_dom_iff Ball_def)
  with off [OF assms(1)] rest show ?thesis
    by (auto simp: answerProbe_def take_slot_def scan_def Let_def)
qed

text \<open>A dispatcher starts exactly when it can serve: with a client, a topic, a connect hook, a
  valid template, a scratch root, no fixed persona, a node name its client may claim under; and it
  starts taking work and serving nothing.\<close>

theorem disp_start_exact:
  "disp_start d = Inr s \<longleftrightarrow> (\<exists>persona.
     dc_Client d = Some persona \<and> dc_Placements d \<noteq> [] \<and> dc_ConnectAgent d \<and> cfg_Persona (dc_Engine d) = [] \<and>
     cfg_Scratch (dc_Engine d) \<noteq> [] \<and> Template_Validate (cfg_Template (dc_Engine d)) = None \<and>
     dc_ProbeTimeout d < disp_reclaimBound d \<and>
     ds_node s \<noteq> [] \<and> (ds_node s = dc_Node d \<and> (persona = [] \<or> persona = dc_Node d) \<or> dc_Node d = [] \<and> ds_node s = persona) \<and>
     ds_taking s \<and> ds_served s = fmempty \<and> ds_backoff s = Map.empty)"
  by (cases s) (auto simp: disp_start_def Let_def not_le split: option.split)

text \<open>The probe's real timeout is not what \<open>start\<close> compares with the reclaim bound: some
  configuration is accepted although the probe of its sweeps, with the timeout left to its
  default, outlasts the bound.\<close>

theorem start_accepts_long_probe:
  "\<exists>d s. disp_start d = Inr s \<and> disp_reclaimBound d < probeTimeout (nd_ProbeTimeout (sweeper d s))"
proof -
  let ?d = "demo_disp\<lparr>dc_Reclaim := 100 * Millisecond\<rparr>"
  have "Template_Validate (cfg_Template demo_base) = None" "cfg_Persona demo_base = []" "cfg_Scratch demo_base \<noteq> []"
    by code_simp+
  then obtain s where "disp_start ?d = Inr s"
    by (auto simp: disp_start_def demo_disp_def disp_reclaimBound_def Let_def)
  moreover have "disp_reclaimBound ?d < probeTimeout (nd_ProbeTimeout (sweeper ?d s))"
    by (simp add: disp_reclaimBound_def probeTimeout_def sweeper_def demo_disp_def)
  ultimately show ?thesis by blast
qed

section \<open>A concrete dispatcher\<close>

text \<open>One placement, open until the node claims it.\<close>

definition demo_placement :: "string \<Rightarrow> WorkItem" where
  "demo_placement owner = \<lparr>wi_ID = ''i'', wi_Status = (if owner = [] then WorkOpen else WorkClaimed), wi_Owner = owner,
     wi_Body = submissionMarker, wi_Timeline = []\<rparr>"

definition demo_disp_env :: disp_env where
  "demo_disp_env = \<lparr>
     dv_Materialise = (\<lambda>tr. Inr [demo_placement (if claimed tr = [] then [] else ''n'')]),
     dv_Claim = (\<lambda>_ _. None), dv_Abandon = (\<lambda>_ _. None), dv_Connect = (\<lambda>_ p. Inr p),
     dv_EngineFor = (\<lambda>_ _. Inr None), dv_Now = (\<lambda>_. 0), dv_rest = (\<lambda>_ s. s)\<rparr>"

abbreviation demo_decode :: "string \<Rightarrow> Declaration option" where
  "demo_decode \<equiv> \<lambda>_. Some demo_engine_decl"

definition demo_up :: dloop where
  "demo_up = \<lparr>lp_state = \<lparr>ds_node = ''n'', ds_taking = True, ds_served = fmempty, ds_backoff = Map.empty\<rparr>,
     lp_poke = True, lp_trace = [], lp_sweeps = [], lp_result = None\<rparr>"

definition demo_serving :: dloop where
  "demo_serving = scan_pass_of kebab demo_decode demo_disp demo_disp_env False demo_up"

lemma demo_interferes: "interferes demo_disp demo_disp_env"
  by (simp add: interferes_def demo_disp_env_def)

lemma demo_start: "Run_up demo_disp demo_up"
proof -
  have "Template_Validate (cfg_Template demo_base) = None" "cfg_Persona demo_base = []" "cfg_Scratch demo_base \<noteq> []"
    by code_simp+
  then show ?thesis
    by (simp add: Run_up_def demo_up_def disp_start_def demo_disp_def disp_reclaimBound_def defaultReclaim_def Let_def)
qed

lemma demo_reach: "reach (Run_up demo_disp) (disp_step kebab demo_decode demo_disp demo_disp_env demo_fleet_env) demo_serving"
proof -
  have "disp_step kebab demo_decode demo_disp demo_disp_env demo_fleet_env demo_up demo_serving"
    unfolding demo_serving_def by (rule poked) (simp_all add: demo_up_def)
  then show ?thesis using demo_start by (meson reach.intros)
qed

lemma demo_served: "map (\<lambda>e. (fst e, fst (snd e))) (engines (lp_trace demo_serving)) = [(''i'', ''bot'')]"
  "engine_of (lp_state demo_serving) ''i'' = Some ''bot''"
  by code_simp+

theorem one_engine_per_persona_witness:
  "engine_of (lp_state demo_serving) ''i'' = Some ''bot'' \<and>
   inj_on (engine_of (lp_state demo_serving)) (dom (engine_of (lp_state demo_serving)))"
  using one_engine_per_persona [OF demo_reach demo_interferes] demo_served(2) by simp

theorem engines_justified_witness:
  "\<exists>cfg. justified kebab demo_decode (ds_node (lp_state demo_serving)) (seen (lp_trace demo_serving)) (''i'', ''bot'', cfg)"
proof -
  obtain e where "e \<in> set (engines (lp_trace demo_serving))" "fst e = ''i''" "fst (snd e) = ''bot''"
    using demo_served(1) by (cases "engines (lp_trace demo_serving)") auto
  with engines_justified [OF demo_reach demo_interferes] show ?thesis by (metis prod.collapse)
qed

theorem clients_accounted_witness:
  "mset (opened (lp_trace demo_serving)) = mset (closed (lp_trace demo_serving)) +
     mset (map (fst \<circ> snd) (engines (lp_trace demo_serving)))"
  by (rule clients_accounted [OF demo_reach])

theorem drain_final_witness:
  "answerProbe (drain (lp_state demo_serving)) ''i'' = ''no'' \<and>
   fst (Drain (\<lambda>_. False) (lp_state demo_serving)) \<noteq> None"
  using drain_final [OF rtranclp.rtrancl_refl demo_interferes, of "lp_state demo_serving" "''i''" _ kebab demo_decode "[]" "\<lambda>_. False"]
    demo_served(2) by auto

end
