(* ===== verification/Backend_Native.thy ===== *)
theory Backend_Native
  imports Runner "HOL-Library.Word"
begin

text \<open>
  The native backend (src/backend/native/native.go) and what the microVM backend shares with it:
  the exit status of a child read from the kernel's wait status, the life of a handle, and the
  contract of the environment a workload is given, as a locale that every backend interprets.
  The host's file system and processes are \<open>host_env\<close>; \<open>he_format\<close> is \<open>jwt.FormatUserConfig\<close>.
\<close>

unbundle bit_operations_syntax

section \<open>Exit statuses\<close>

text \<open>Linux wait statuses, 32 bits: the low seven bits are 0 for an exit, 0x7F for a stop, else the
  signal; the next byte is the exit code.\<close>

type_synonym wait_status = "32 word"

definition ws_Exited :: "wait_status \<Rightarrow> bool" where
  "ws_Exited w \<longleftrightarrow> w AND 0x7F = 0"

definition ws_Signaled :: "wait_status \<Rightarrow> bool" where
  "ws_Signaled w \<longleftrightarrow> w AND 0x7F \<noteq> 0x7F \<and> w AND 0x7F \<noteq> 0"

definition ws_Signal :: "wait_status \<Rightarrow> int" where
  "ws_Signal w = (if ws_Signaled w then uint (w AND 0x7F) else - 1)"

definition ws_ExitStatus :: "wait_status \<Rightarrow> int" where
  "ws_ExitStatus w = (if ws_Exited w then uint (drop_bit 8 w AND 0xFF) else - 1)"

text \<open>\<open>syscall.Signal.String\<close>\<close>

definition signal_names :: "string list" where
  "signal_names = ['''', ''hangup'', ''interrupt'', ''quit'', ''illegal instruction'', ''trace/breakpoint trap'', ''aborted'',
     ''bus error'', ''floating point exception'', ''killed'', ''user defined signal 1'', ''segmentation fault'',
     ''user defined signal 2'', ''broken pipe'', ''alarm clock'', ''terminated'']"

definition signal_string :: "int \<Rightarrow> string" where
  "signal_string s =
     (if 0 < s \<and> s < int (length signal_names) then signal_names ! nat s else ''signal '' @ decimal s)"

text \<open>What \<open>exec.Cmd.Wait\<close> returns: nothing, the child's exit error, another error.\<close>

datatype wait_error = WaitExit wait_status | WaitOther string

definition statusOf :: "wait_error option \<Rightarrow> ExitStatus" where
  "statusOf err =
     (case err of
        None \<Rightarrow> \<lparr>xs_Code = 0, xs_Signal = []\<rparr>
      | Some (WaitExit ws) \<Rightarrow>
          if ws_Signaled ws then \<lparr>xs_Code = 0, xs_Signal = signal_string (ws_Signal ws)\<rparr>
          else \<lparr>xs_Code = ws_ExitStatus ws, xs_Signal = []\<rparr>
      | Some (WaitOther _) \<Rightarrow> \<lparr>xs_Code = - 1, xs_Signal = []\<rparr>)"

lemma signal_string_not_Nil [simp]: "signal_string s \<noteq> []"
proof (cases "0 < s \<and> s < 16")
  case True
  then have "nat s - 1 < length (tl signal_names)" by (simp add: signal_names_def, arith)
  then have "signal_names ! nat s \<in> set (tl signal_names)"
    using nth_mem [of "nat s - 1" "tl signal_names"] True by (simp add: nth_tl)
  then have "signal_names ! nat s \<noteq> []" by (auto simp: signal_names_def)
  with True show ?thesis by (simp add: signal_string_def signal_names_def)
qed (auto simp: signal_string_def signal_names_def)

section \<open>The host\<close>

record spawn =
  sp_argv :: "string list"
  sp_dir :: string
  sp_env :: "string list"

datatype bcall =
    BMkdir string
  | BWrite string string
  | BRemove string
  | BSpawn spawn
  | BReap
  | BSignal int
  | BPause
  | BRun "string list"

record host_env =
  he_mkdir :: "string \<Rightarrow> string option"
  he_format :: "string \<Rightarrow> string \<Rightarrow> string + string"
  he_write :: "string \<Rightarrow> string \<Rightarrow> string option"
  he_spawn :: "spawn \<Rightarrow> string option"
  he_getenv :: "string \<Rightarrow> string"
  he_symlinks :: "string \<Rightarrow> string + string"

datatype start_error = ScratchDir string | ResolveScratch string | ResolveArtifact string
  | FormatCreds string | WriteCreds string | StartProc string string

text \<open>The names of a workload's environment (constants of native.go).\<close>

definition EnvNatsServers :: string where "EnvNatsServers = ''SOULSTREAM_NATS_SERVERS''"
definition EnvCredsFile :: string where "EnvCredsFile = ''SOULSTREAM_NATS_CREDS''"
definition EnvRealm :: string where "EnvRealm = ''SOULSTREAM_REALM''"
definition EnvPersona :: string where "EnvPersona = ''SOULSTREAM_PERSONA''"
definition EnvTopic :: string where "EnvTopic = ''SOULSTREAM_TOPIC''"

lemmas env_names = EnvNatsServers_def EnvCredsFile_def EnvRealm_def EnvPersona_def EnvTopic_def

definition binding :: "string \<times> string \<Rightarrow> string" where
  "binding kv = fst kv @ ''='' @ snd kv"

text \<open>The child's environment as bindings; \<open>cleanEnv\<close> renders them.\<close>

definition clean_bindings :: "(string \<Rightarrow> string) \<Rightarrow> LaunchSpec \<Rightarrow> string \<Rightarrow> (string \<times> string) list" where
  "clean_bindings getenv spec credsPath =
     [(''PATH'', getenv ''PATH''), (''HOME'', getenv ''HOME''),
      (EnvNatsServers, join_with '','' (pc_NatsServers (ls_Cred spec))), (EnvCredsFile, credsPath),
      (EnvRealm, ls_Realm spec), (EnvPersona, pc_Persona (ls_Cred spec)), (EnvTopic, ls_Topic spec)]"

definition cleanEnv :: "(string \<Rightarrow> string) \<Rightarrow> LaunchSpec \<Rightarrow> string \<Rightarrow> string list" where
  "cleanEnv getenv spec credsPath = map binding (clean_bindings getenv spec credsPath)"

section \<open>Start\<close>

definition creds_path :: "LaunchSpec \<Rightarrow> string" where
  "creds_path spec = path_Join [ls_ScratchDir spec, ''nats.creds'']"

record native_handle =
  nh_scratchDir :: string
  nh_status :: "ExitStatus option"

definition native_spawn :: "host_env \<Rightarrow> LaunchSpec \<Rightarrow> spawn" where
  "native_spawn E spec = \<lparr>sp_argv = ls_Artifact spec # ls_Args spec, sp_dir = ls_ScratchDir spec,
     sp_env = cleanEnv (he_getenv E) spec (creds_path spec)\<rparr>"

definition native_Start :: "host_env \<Rightarrow> LaunchSpec \<Rightarrow> (start_error + native_handle) \<times> bcall list" where
  "native_Start E spec =
     (let dir = ls_ScratchDir spec in
      case he_mkdir E dir of Some e \<Rightarrow> (Inl (ScratchDir e), [BMkdir dir]) | None \<Rightarrow>
      case he_format E (pc_UserJWT (ls_Cred spec)) (pc_UserSeed (ls_Cred spec)) of
        Inl e \<Rightarrow> (Inl (FormatCreds e), [BMkdir dir, BRemove dir])
      | Inr body \<Rightarrow> (let wr = BWrite (creds_path spec) body in
          case he_write E (creds_path spec) body of Some e \<Rightarrow> (Inl (WriteCreds e), [BMkdir dir, wr, BRemove dir]) | None \<Rightarrow>
          let p = native_spawn E spec in
          case he_spawn E p of
            Some e \<Rightarrow> (Inl (StartProc (ls_Artifact spec) e), [BMkdir dir, wr, BSpawn p, BRemove dir])
          | None \<Rightarrow> (Inr \<lparr>nh_scratchDir = dir, nh_status = None\<rparr>, [BMkdir dir, wr, BSpawn p])))"

section \<open>Handles\<close>

text \<open>\<open>Wait\<close> runs its body once: \<open>err\<close> is what the child's \<open>Wait\<close> returns.\<close>

definition native_Wait :: "wait_error option \<Rightarrow> native_handle \<Rightarrow> ExitStatus \<times> native_handle \<times> bcall list" where
  "native_Wait err h =
     (case nh_status h of
        Some st \<Rightarrow> (st, h, [])
      | None \<Rightarrow> (let st = statusOf err in (st, h\<lparr>nh_status := Some st\<rparr>, [BReap, BRemove (nh_scratchDir h)])))"

abbreviation SIGTERM :: int where "SIGTERM \<equiv> 15"
abbreviation SIGKILL :: int where "SIGKILL \<equiv> 9"

text \<open>\<open>Stop\<close> of a started child: the answer of the first signal, then the pause (the grace, or the
  end of the context), then the kill whose answer is dropped.\<close>

definition native_Stop :: "(int \<Rightarrow> string option) \<Rightarrow> string option \<times> bcall list" where
  "native_Stop signal =
     (case signal SIGTERM of
        Some e \<Rightarrow> (Some (''native: signal: '' @ e), [BSignal SIGTERM])
      | None \<Rightarrow> (None, [BSignal SIGTERM, BPause, BSignal SIGKILL]))"

section \<open>The environment of a workload\<close>

text \<open>
  The contract every backend keeps: its bindings name each variable once, give the five names of
  the contract their values from the launch, and add only \<open>extra\<close> names of the backend's own.
  \<open>servers\<close> is the backend's view of the server list, \<open>creds\<close> where the workload finds its
  credential.
\<close>

locale workload_env =
  fixes bindings :: "LaunchSpec \<Rightarrow> (string \<times> string) list"
    and servers :: "string list \<Rightarrow> string list"
    and creds :: "LaunchSpec \<Rightarrow> string"
    and extra :: "string set"
  assumes names_once: "distinct (map fst (bindings spec))"
    and contract: "{(EnvNatsServers, join_with '','' (servers (pc_NatsServers (ls_Cred spec)))), (EnvCredsFile, creds spec),
        (EnvRealm, ls_Realm spec), (EnvPersona, pc_Persona (ls_Cred spec)), (EnvTopic, ls_Topic spec)} \<subseteq> set (bindings spec)"
    and nothing_else: "fst ` set (bindings spec) \<subseteq>
        {EnvNatsServers, EnvCredsFile, EnvRealm, EnvPersona, EnvTopic} \<union> extra"
    and no_equals: "k \<in> extra \<Longrightarrow> CHR ''='' \<notin> set k"
begin

text \<open>A lookup of a name sees the value of the launch.\<close>

lemma lookup:
  "map_of (bindings spec) EnvPersona = Some (pc_Persona (ls_Cred spec))"
  "map_of (bindings spec) EnvRealm = Some (ls_Realm spec)"
  "map_of (bindings spec) EnvTopic = Some (ls_Topic spec)"
  "map_of (bindings spec) EnvCredsFile = Some (creds spec)"
  "map_of (bindings spec) EnvNatsServers = Some (join_with '','' (servers (pc_NatsServers (ls_Cred spec))))"
  using names_once [of spec] contract [of spec] by auto

text \<open>The lane depends only on the launch: a variable of the workload is one of the contract or one
  of the extra names.\<close>

lemma closed: "kv \<in> set (map binding (bindings spec)) \<Longrightarrow>
    \<exists>k v. kv = k @ ''='' @ v \<and> k \<in> {EnvNatsServers, EnvCredsFile, EnvRealm, EnvPersona, EnvTopic} \<union> extra"
  using nothing_else [of spec] by (auto simp: binding_def)

lemma hides: "n \<notin> {EnvNatsServers, EnvCredsFile, EnvRealm, EnvPersona, EnvTopic} \<union> extra \<Longrightarrow> CHR ''='' \<notin> set n \<Longrightarrow>
    \<not> (\<exists>v. n @ ''='' @ v \<in> set (map binding (bindings spec)))"
proof
  assume n: "n \<notin> {EnvNatsServers, EnvCredsFile, EnvRealm, EnvPersona, EnvTopic} \<union> extra" "CHR ''='' \<notin> set n"
  assume "\<exists>v. n @ ''='' @ v \<in> set (map binding (bindings spec))"
  then obtain v k w where "n @ ''='' @ v = k @ ''='' @ w"
      and k: "k \<in> {EnvNatsServers, EnvCredsFile, EnvRealm, EnvPersona, EnvTopic} \<union> extra"
    using closed by blast
  then have eq: "CutChar CHR ''='' (n @ CHR ''='' # v) = CutChar CHR ''='' (k @ CHR ''='' # w)" by simp
  have "CHR ''='' \<notin> set k" using k no_equals by (auto simp: env_names)
  with eq n(2) have "n = k" by simp
  with n(1) k show False by simp
qed

end

interpretation native: workload_env "\<lambda>spec. clean_bindings getenv spec (creds_path spec)" "\<lambda>s. s" creds_path "{''PATH'', ''HOME''}"
  for getenv
  by unfold_locales (auto simp: clean_bindings_def env_names)

section \<open>What the native backend guarantees\<close>

definition spawned :: "bcall list \<Rightarrow> spawn list" where
  "spawned calls = List.map_filter (\<lambda>c. case c of BSpawn p \<Rightarrow> Some p | _ \<Rightarrow> None) calls"


text \<open>Waiting again returns the same status and reaps nothing twice.\<close>

lemma native_Wait_once:
  "native_Wait err h = (st, h', calls) \<Longrightarrow> native_Wait err' h' = (st, h', [])"
  by (auto simp: native_Wait_def Let_def split: option.splits)

text \<open>The status of a child: an exit code between 0 and 255 or the uncoded failure, or the name of a
  signal.\<close>

lemma word_and_bound: "0 \<le> uint (w AND m) \<and> uint (w AND m) \<le> uint (m :: 32 word)"
  by (simp add: uint_and AND_upper2)

theorem statusOf_ranges:
  "if Signalled (statusOf err)
   then xs_Code (statusOf err) = 0 \<and> (\<exists>n. 1 \<le> n \<and> n < 127 \<and> xs_Signal (statusOf err) = signal_string n)
   else - 1 \<le> xs_Code (statusOf err) \<and> xs_Code (statusOf err) \<le> 255"
proof -
  have sig: "\<exists>n. 1 \<le> n \<and> n < 127 \<and> signal_string (ws_Signal w) = signal_string n" if "ws_Signaled w" for w
  proof (intro exI conjI)
    have "uint (w AND 0x7F) \<le> 127" using word_and_bound [of w "0x7F"] by simp
    moreover have "uint (w AND 0x7F) \<noteq> 127" "uint (w AND 0x7F) \<noteq> 0"
      using that word_uint_eq_iff [of "w AND 0x7F" "0x7F"] word_uint_eq_iff [of "w AND 0x7F" 0] by (auto simp: ws_Signaled_def)
    moreover have "0 \<le> uint (w AND 0x7F)" by simp
    ultimately have "1 \<le> uint (w AND 0x7F) \<and> uint (w AND 0x7F) < 127" by linarith
    then show "1 \<le> ws_Signal w" "ws_Signal w < 127" using that by (simp_all add: ws_Signal_def)
  qed simp
  have code: "- 1 \<le> ws_ExitStatus w \<and> ws_ExitStatus w \<le> 255" for w
  proof -
    have "0 \<le> uint (drop_bit 8 w AND 0xFF)" by simp
    moreover have "uint (drop_bit 8 w AND 0xFF) \<le> 255" using word_and_bound [of "drop_bit 8 w" "0xFF"] by simp
    moreover have "ws_ExitStatus w = uint (drop_bit 8 w AND 0xFF) \<or> ws_ExitStatus w = - 1" by (simp add: ws_ExitStatus_def)
    ultimately show ?thesis by linarith
  qed
  show ?thesis
    using sig code by (auto simp: statusOf_def Signalled_def split: option.split wait_error.split)
qed

text \<open>A run is recorded as done exactly when the child's wait reported no error or an exit with code
  zero.\<close>

lemma Outcome_statusOf:
  "Outcome None (statusOf err) = (TerminalDone, []) \<longleftrightarrow>
     err = None \<or> (\<exists>w. err = Some (WaitExit w) \<and> \<not> ws_Signaled w \<and> ws_ExitStatus w = 0)"
  by (auto simp: Outcome_def statusOf_def Signalled_def ReasonSignal_def ReasonNonzeroExit_def split: option.split wait_error.split)

section \<open>A concrete start\<close>

definition demo_spec :: LaunchSpec where
  "demo_spec = \<lparr>ls_Artifact = ''/a'', ls_Args = [], ls_Cred = \<lparr>pc_UserJWT = ''j'', pc_UserSeed = ''s'', pc_NatsServers = [],
     pc_Persona = ''p'', pc_Expires = 0\<rparr>, ls_Realm = ''r'', ls_Topic = ''t'', ls_ScratchDir = ''/s/w1''\<rparr>"

definition demo_host :: host_env where
  "demo_host = \<lparr>he_mkdir = (\<lambda>_. None), he_format = (\<lambda>_ _. Inr ''creds''), he_write = (\<lambda>_ _. None), he_spawn = (\<lambda>_. None),
     he_getenv = (\<lambda>_. ''x''), he_symlinks = Inr\<rparr>"

lemma demo_native_start:
  "native_Start demo_host demo_spec = (Inr \<lparr>nh_scratchDir = ''/s/w1'', nh_status = None\<rparr>,
     [BMkdir ''/s/w1'', BWrite (creds_path demo_spec) ''creds'', BSpawn (native_spawn demo_host demo_spec)])"
  by (simp add: native_Start_def demo_host_def demo_spec_def Let_def)


end
