(* ===== verification/Natsurl.thy ===== *)
theory Natsurl
  imports Go_Json_Struct
begin

text \<open>
  Package \<open>natsurl\<close> (src/backend/natsurl/natsurl.go): loopback servers are rewritten to the
  backend's alias for the node.  First what it uses of \<open>net/url\<close> beyond \<open>url.Parse\<close>: the host and
  the port of a URL and its printing.
\<close>

section \<open>The host, the port and the text of a URL\<close>

text \<open>\<open>splitHostPort\<close> of \<open>net/url\<close>: a valid port is cut off, then the brackets.\<close>

definition url_host_port :: "string \<Rightarrow> string \<times> string" where
  "url_host_port hp =
     (let (host, port) = (case last_index CHR '':'' hp of
            None \<Rightarrow> (hp, [])
          | Some i \<Rightarrow> if validOptionalPort (drop i hp) then (take i hp, drop (i + 1) hp) else (hp, [])) in
      (if HasPrefix host ''['' \<and> HasSuffix host '']'' then drop 1 (butlast host) else host, port))"

definition url_Hostname :: "url \<Rightarrow> string" where
  "url_Hostname u = fst (url_host_port (url_Host u))"

definition url_Port :: "url \<Rightarrow> string" where
  "url_Port u = snd (url_host_port (url_Host u))"

definition validEncoded :: "enc_mode \<Rightarrow> string \<Rightarrow> bool" where
  "validEncoded m s \<longleftrightarrow> list_all (\<lambda>c. c \<in> set ''!$&()*+,;=:@[]%'' \<or> c = CHR 0x27 \<or> \<not> shouldEscape m c) s"

definition escaped_part :: "enc_mode \<Rightarrow> string \<Rightarrow> string \<Rightarrow> string" where
  "escaped_part m raw plain =
     (if raw \<noteq> [] \<and> validEncoded m raw \<and> unescape m raw = Some plain then raw
      else if m = EncPath \<and> plain = ''*'' then ''*'' else escape m plain)"

definition user_string :: "string \<times> string option \<Rightarrow> string" where
  "user_string ui =
     (if fst ui = [] \<and> snd ui = None then []
      else escape EncUser (fst ui) @ (case snd ui of None \<Rightarrow> [] | Some p \<Rightarrow> '':'' @ escape EncUser p))"

definition url_authority :: "url \<Rightarrow> string" where
  "url_authority u =
     (if url_Scheme u = [] \<and> url_Host u = [] \<and> url_User u = None then []
      else if url_OmitHost u \<and> url_Host u = [] \<and> url_User u = None then []
      else (if url_Host u \<noteq> [] \<or> url_Path u \<noteq> [] \<or> url_User u \<noteq> None then ''//'' else []) @
        (case url_User u of None \<Rightarrow> [] | Some ui \<Rightarrow> user_string ui @ ''@'') @ escape EncHost (url_Host u))"

definition url_String :: "url \<Rightarrow> string" where
  "url_String u =
     (let front = (if url_Scheme u = [] then [] else url_Scheme u @ '':'');
          hier = (let before = front @ url_authority u; path = escaped_part EncPath (url_RawPath u) (url_Path u) in
            before @ (if path \<noteq> [] \<and> hd path \<noteq> CHR ''/'' \<and> url_Host u \<noteq> [] then ''/'' else []) @
            (if before = [] \<and> \<not> (path \<noteq> [] \<and> hd path \<noteq> CHR ''/'' \<and> url_Host u \<noteq> []) \<and>
                CHR '':'' \<in> set (takeWhile (\<lambda>c. c \<noteq> CHR ''/'') path) then ''./'' else []) @ path) in
      (if url_Opaque u \<noteq> [] then front @ url_Opaque u else hier) @
      (if url_ForceQuery u \<or> url_RawQuery u \<noteq> [] then ''?'' @ url_RawQuery u else []) @
      (if url_Fragment u \<noteq> [] then ''#'' @ escaped_part EncFragment (url_RawFragment u) (url_Fragment u) else []))"

section \<open>The rewrite\<close>

text \<open>\<open>strings.EqualFold\<close> compares the runes up to simple folding.\<close>

definition EqualFold :: "string \<Rightarrow> string \<Rightarrow> bool" where
  "EqualFold s t \<longleftrightarrow> fold_name s = fold_name t"

definition isLoopback :: "string \<Rightarrow> bool" where
  "isLoopback host =
     (if EqualFold host ''localhost'' then True
      else case ParseIP host of None \<Rightarrow> False | Some ip \<Rightarrow> IsLoopback ip)"

definition RewriteOne :: "string \<Rightarrow> string \<Rightarrow> string" where
  "RewriteOne server alias =
     (case url_Parse server of
        Some u \<Rightarrow>
          if url_Host u \<noteq> [] then
            (if \<not> isLoopback (url_Hostname u) then server
             else url_String (u\<lparr>url_Host := if url_Port u \<noteq> [] then alias @ '':'' @ url_Port u else alias\<rparr>))
          else (case SplitHostPort server of
              Some (host, port) \<Rightarrow> if isLoopback host then JoinHostPort alias port else server
            | None \<Rightarrow> if isLoopback server then alias else server)
      | None \<Rightarrow> (case SplitHostPort server of
            Some (host, port) \<Rightarrow> if isLoopback host then JoinHostPort alias port else server
          | None \<Rightarrow> if isLoopback server then alias else server))"

definition Rewrite :: "string list \<Rightarrow> string \<Rightarrow> string list" where
  "Rewrite servers alias = map (\<lambda>s. RewriteOne s alias) servers"

definition probe_alias :: string where
  "probe_alias = CHR 0x00 # ''probe''"

definition HasLoopback :: "string list \<Rightarrow> bool" where
  "HasLoopback servers \<longleftrightarrow> list_ex (\<lambda>s. RewriteOne s probe_alias \<noteq> s) servers"

section \<open>What is rewritten\<close>

text \<open>The host a server address names, by the first of the three forms that fits.\<close>

definition server_host :: "string \<Rightarrow> string" where
  "server_host s =
     (case url_Parse s of
        Some u \<Rightarrow> if url_Host u \<noteq> [] then url_Hostname u
          else (case SplitHostPort s of Some (host, port) \<Rightarrow> host | None \<Rightarrow> s)
      | None \<Rightarrow> (case SplitHostPort s of Some (host, port) \<Rightarrow> host | None \<Rightarrow> s))"

lemma RewriteOne_elsewhere: "\<not> isLoopback (server_host s) \<Longrightarrow> RewriteOne s alias = s"
  by (auto simp: RewriteOne_def server_host_def split: option.splits if_splits)

lemma HasLoopback_sound: "HasLoopback servers \<Longrightarrow> \<exists>s \<in> set servers. isLoopback (server_host s)"
  using RewriteOne_elsewhere by (auto simp: HasLoopback_def list_ex_iff)

text \<open>A bare IPv6 literal in brackets and without a port fits none of the forms: it names the loopback
  and is left as it is, so a backend does not notice it.\<close>

theorem bracketed_loopback_kept:
  "isLoopback ''::1'' \<and> RewriteOne ''[::1]'' name = ''[::1]'' \<and> \<not> HasLoopback [''[::1]''] \<and> HasLoopback [''[::1]:4222'']"
proof (intro conjI)
  have "\<not> isLoopback (server_host ''[::1]'')" by code_simp
  then show keep: "RewriteOne ''[::1]'' name = ''[::1]''" for name by (rule RewriteOne_elsewhere)
  then show "\<not> HasLoopback [''[::1]'']" by (simp add: HasLoopback_def)
  show "isLoopback ''::1''" by code_simp
  show "HasLoopback [''[::1]:4222'']" by code_simp
qed

end
