(* ===== verification/Backend_Msb.thy ===== *)
theory Backend_Msb
  imports Backend_Native Natsurl
begin

text \<open>
  The microVM backend (src/backend/msb/msb.go): the command line of one sandbox, the environment
  inside it, its name, and the handle that removes the sandbox and the scratch directory.  The
  handle's \<open>Stop\<close> and exit mapping are the native ones, written a second time in the source.
\<close>

record Msb =
  mb_Image :: string
  mb_MsbPath :: string
  mb_HostAlias :: string

definition DefaultImage :: string where "DefaultImage = ''alpine''"
definition DefaultMsbPath :: string where "DefaultMsbPath = ''msb''"
definition DefaultHostAlias :: string where "DefaultHostAlias = ''host.microsandbox.internal''"

definition msb_guestScratch :: string where "msb_guestScratch = ''/scratch''"
definition msb_guestCredsPath :: string where "msb_guestCredsPath = msb_guestScratch @ ''/nats.creds''"
definition guestArtifactDir :: string where "guestArtifactDir = ''/artifact''"
definition sandboxPrefix :: string where "sandboxPrefix = ''soulstream-workloads-''"

definition msb_image :: "Msb \<Rightarrow> string" where
  "msb_image b = (if mb_Image b \<noteq> [] then mb_Image b else DefaultImage)"

definition msb_path :: "Msb \<Rightarrow> string" where
  "msb_path b = (if mb_MsbPath b \<noteq> [] then mb_MsbPath b else DefaultMsbPath)"

definition msb_hostAlias :: "Msb \<Rightarrow> string" where
  "msb_hostAlias b = (if mb_HostAlias b \<noteq> [] then mb_HostAlias b else DefaultHostAlias)"

section \<open>Names\<close>

definition sandbox_rune :: "nat \<Rightarrow> bool" where
  "sandbox_rune r \<longleftrightarrow> 97 \<le> r \<and> r \<le> 122 \<or> 65 \<le> r \<and> r \<le> 90 \<or> 48 \<le> r \<and> r \<le> 57 \<or> r = 45 \<or> r = 95"

text \<open>\<open>strings.Map\<close> with a function whose results are ASCII.\<close>

definition map_runes :: "(nat \<Rightarrow> bool) \<Rightarrow> nat list \<Rightarrow> string" where
  "map_runes keep rs = map (\<lambda>r. if keep r then char_of r else CHR ''-'') rs"

definition maxBase :: nat where "maxBase = 100"

definition sandboxName :: "string \<Rightarrow> string" where
  "sandboxName scratchDir = sandboxPrefix @ take maxBase (map_runes sandbox_rune (runes (path_Base scratchDir)))"

section \<open>The command line\<close>

definition guest_bindings :: "LaunchSpec \<Rightarrow> string \<Rightarrow> (string \<times> string) list" where
  "guest_bindings spec alias =
     [(EnvNatsServers, join_with '','' (Rewrite (pc_NatsServers (ls_Cred spec)) alias)), (EnvCredsFile, msb_guestCredsPath),
      (EnvRealm, ls_Realm spec), (EnvPersona, pc_Persona (ls_Cred spec)), (EnvTopic, ls_Topic spec)]"

definition guestEnv :: "LaunchSpec \<Rightarrow> string \<Rightarrow> string list" where
  "guestEnv spec alias = map binding (guest_bindings spec alias)"

definition hostEnv :: "(string \<Rightarrow> string) \<Rightarrow> string list" where
  "hostEnv getenv = [''PATH='' @ getenv ''PATH'', ''HOME='' @ getenv ''HOME'']"

definition runArgs :: "Msb \<Rightarrow> string \<Rightarrow> LaunchSpec \<Rightarrow> string list" where
  "runArgs b name spec =
     (let guestArtifact = guestArtifactDir @ ''/'' @ path_Base (ls_Artifact spec) in
      [''run'', ''--no-tty'', ''--quiet'', ''--name'', name, ''-v'', ls_ScratchDir spec @ '':'' @ msb_guestScratch,
       ''--copy-file'', ls_Artifact spec @ '':'' @ guestArtifact, ''-w'', msb_guestScratch, ''--net'', ''host''] @
      concat (map (\<lambda>kv. [''-e'', kv]) (guestEnv spec (msb_hostAlias b))) @
      [msb_image b, ''--'', guestArtifact] @ ls_Args spec)"

section \<open>Start\<close>

record msb_handle =
  mh_scratchDir :: string
  mh_name :: string
  mh_msbPath :: string
  mh_status :: "ExitStatus option"

text \<open>Both paths are resolved before they are handed over; the launch then uses the resolved ones.\<close>

definition msb_start_resolved :: "Msb \<Rightarrow> host_env \<Rightarrow> string \<Rightarrow> LaunchSpec \<Rightarrow> (start_error + msb_handle) \<times> bcall list" where
  "msb_start_resolved b E name spec =
     (let dir = ls_ScratchDir spec in
      case he_format E (pc_UserJWT (ls_Cred spec)) (pc_UserSeed (ls_Cred spec)) of
        Inl e \<Rightarrow> (Inl (FormatCreds e), [BRemove dir])
      | Inr body \<Rightarrow> (let wr = BWrite (creds_path spec) body in
          case he_write E (creds_path spec) body of Some e \<Rightarrow> (Inl (WriteCreds e), [wr, BRemove dir]) | None \<Rightarrow>
          let p = \<lparr>sp_argv = msb_path b # runArgs b name spec, sp_dir = [], sp_env = hostEnv (he_getenv E)\<rparr> in
          case he_spawn E p of
            Some e \<Rightarrow> (Inl (StartProc (ls_Artifact spec) e), [wr, BSpawn p, BRemove dir])
          | None \<Rightarrow> (Inr \<lparr>mh_scratchDir = dir, mh_name = name, mh_msbPath = msb_path b, mh_status = None\<rparr>, [wr, BSpawn p])))"

definition msb_Start :: "Msb \<Rightarrow> host_env \<Rightarrow> LaunchSpec \<Rightarrow> (start_error + msb_handle) \<times> bcall list" where
  "msb_Start b E spec =
     (let dir = ls_ScratchDir spec; name = sandboxName dir in
      case he_mkdir E dir of Some e \<Rightarrow> (Inl (ScratchDir e), [BMkdir dir]) | None \<Rightarrow>
      case he_symlinks E dir of Inl e \<Rightarrow> (Inl (ResolveScratch e), [BMkdir dir, BRemove dir]) | Inr scratch \<Rightarrow>
      case he_symlinks E (ls_Artifact spec) of Inl e \<Rightarrow> (Inl (ResolveArtifact e), [BMkdir dir, BRemove scratch]) | Inr artifact \<Rightarrow>
      case msb_start_resolved b E name (spec\<lparr>ls_ScratchDir := scratch, ls_Artifact := artifact\<rparr>) of
        (r, calls) \<Rightarrow> (r, BMkdir dir # calls))"

section \<open>Handles\<close>

text \<open>The package's own copy of the exit mapping.\<close>

definition msb_statusOf :: "wait_error option \<Rightarrow> ExitStatus" where
  "msb_statusOf err =
     (case err of
        None \<Rightarrow> \<lparr>xs_Code = 0, xs_Signal = []\<rparr>
      | Some (WaitExit ws) \<Rightarrow>
          if ws_Signaled ws then \<lparr>xs_Code = 0, xs_Signal = signal_string (ws_Signal ws)\<rparr>
          else \<lparr>xs_Code = ws_ExitStatus ws, xs_Signal = []\<rparr>
      | Some (WaitOther _) \<Rightarrow> \<lparr>xs_Code = - 1, xs_Signal = []\<rparr>)"

lemma msb_statusOf_eq: "msb_statusOf = statusOf"
  by (simp add: fun_eq_iff msb_statusOf_def statusOf_def)

definition msb_Wait :: "(string \<Rightarrow> string) \<Rightarrow> wait_error option \<Rightarrow> msb_handle \<Rightarrow> ExitStatus \<times> msb_handle \<times> bcall list" where
  "msb_Wait getenv err h =
     (case mh_status h of
        Some st \<Rightarrow> (st, h, [])
      | None \<Rightarrow> (let st = msb_statusOf err in
          (st, h\<lparr>mh_status := Some st\<rparr>,
           [BReap, BSpawn \<lparr>sp_argv = [mh_msbPath h, ''rm'', ''--force'', mh_name h], sp_dir = [], sp_env = hostEnv getenv\<rparr>,
            BRemove (mh_scratchDir h)])))"

definition msb_Stop :: "(int \<Rightarrow> string option) \<Rightarrow> string option \<times> bcall list" where
  "msb_Stop signal =
     (case signal SIGTERM of
        Some e \<Rightarrow> (Some (''msb: signal: '' @ e), [BSignal SIGTERM])
      | None \<Rightarrow> (None, [BSignal SIGTERM, BPause, BSignal SIGKILL]))"

section \<open>What the microVM backend guarantees\<close>

interpretation guest: workload_env "\<lambda>spec. guest_bindings spec name" "\<lambda>s. Rewrite s name" "\<lambda>_. msb_guestCredsPath" "{}" for name
  by unfold_locales (auto simp: guest_bindings_def env_names)

lemma length_map_runes [simp]: "length (map_runes keep rs) = length rs"
  by (simp add: map_runes_def)

lemma sandbox_rune_ascii: "sandbox_rune r \<Longrightarrow> r < 128"
  unfolding sandbox_rune_def by linarith

text \<open>A mapped string has only kept bytes, when dash is one.\<close>

lemma map_runes_kept:
  assumes "\<And>r. keep r \<Longrightarrow> r < 128" and "keep 45"
  shows "list_all (\<lambda>c. keep (of_char c)) (map_runes keep rs)"
proof -
  have "keep (of_char (char_of r :: char))" if "keep r" for r
    using that assms(1) [OF that] by (simp add: of_char_of)
  with assms(2) show ?thesis by (auto simp: map_runes_def list_all_iff)
qed

text \<open>A sandbox's name: letters, digits, dash and underscore, at most 121 bytes (msb takes 128), and the
  work item's id as it is when that is such a name of at most 100 bytes.\<close>

theorem sandboxName_ok:
  "length (sandboxName dir) \<le> 121 \<and> list_all (\<lambda>c. sandbox_rune (of_char c)) (sandboxName dir) \<and>
   (let base = path_Base dir in (if list_all (\<lambda>c. sandbox_rune (of_char c)) base \<and> length base \<le> 100
      then sandboxName dir = sandboxPrefix @ base else True))"
proof -
  have "list_all (\<lambda>c. sandbox_rune (of_char c)) (map_runes sandbox_rune rs)" for rs
  proof (rule map_runes_kept)
    show "sandbox_rune 45" by (simp add: sandbox_rune_def)
  qed (rule sandbox_rune_ascii)
  then have "list_all (\<lambda>c. sandbox_rune (of_char c)) (take maxBase (map_runes sandbox_rune rs))" for rs
    unfolding list_all_iff by (blast dest: in_set_takeD)
  moreover have "list_all (\<lambda>c. sandbox_rune (of_char c)) sandboxPrefix"
    by (simp add: sandboxPrefix_def sandbox_rune_def)
  moreover have "map_runes sandbox_rune (runes base) = base" if base: "list_all (\<lambda>c. sandbox_rune (of_char c)) base" for base
  proof -
    have "runes base = map of_char base"
      using base sandbox_rune_ascii by (intro runes_ascii) (auto simp: list_all_iff)
    with base show ?thesis by (auto simp: map_runes_def list_all_iff intro: map_idI)
  qed
  ultimately show ?thesis
    by (simp add: sandboxName_def maxBase_def Let_def length_map_runes) (simp add: sandboxPrefix_def)
qed

text \<open>A sandbox is started for the resolved artifact under the name of its work item, with the scratch
  directory as its only mount, and the process that runs it gets none of the node's variables but
  PATH and HOME; a failed start leaves no scratch directory.\<close>

theorem msb_Start_story:
  "case msb_Start b E spec of
     (Inl e, calls) \<Rightarrow> (\<exists>m. e = ScratchDir m) \<or> (\<exists>dir. last calls = BRemove dir \<and>
        (dir = ls_ScratchDir spec \<or> he_symlinks E (ls_ScratchDir spec) = Inr dir))
   | (Inr h, calls) \<Rightarrow> (\<exists>scratch artifact body p. he_symlinks E (ls_ScratchDir spec) = Inr scratch \<and>
        he_symlinks E (ls_Artifact spec) = Inr artifact \<and> mh_scratchDir h = scratch \<and>
        mh_name h = sandboxName (ls_ScratchDir spec) \<and> mh_status h = None \<and>
        calls = [BMkdir (ls_ScratchDir spec), BWrite (path_Join [scratch, ''nats.creds'']) body, BSpawn p] \<and>
        sp_env p = hostEnv (he_getenv E) \<and>
        sp_argv p = msb_path b # runArgs b (mh_name h) (spec\<lparr>ls_ScratchDir := scratch, ls_Artifact := artifact\<rparr>))"
  by (auto simp: msb_Start_def msb_start_resolved_def Let_def creds_path_def split: option.split sum.split)

lemma msb_Wait_once: "msb_Wait getenv err h = (st, h', calls) \<Longrightarrow> msb_Wait getenv err' h' = (st, h', [])"
  by (auto simp: msb_Wait_def Let_def split: option.splits)

text \<open>The guest sees the same names with the same values as a native process, the servers rewritten
  and the credential at its place in the guest.\<close>

theorem guest_parity:
  "map_of (guest_bindings spec alias) n =
     (if n = EnvNatsServers then Some (join_with '','' (Rewrite (pc_NatsServers (ls_Cred spec)) alias))
      else if n = EnvCredsFile then Some msb_guestCredsPath
      else if n \<in> {EnvRealm, EnvPersona, EnvTopic} then map_of (clean_bindings getenv spec (creds_path spec)) n
      else None)"
  using guest.lookup [where spec = spec and name = "alias"] native.lookup [where spec = spec and getenv = getenv]
    guest.nothing_else [where spec = spec and name = "alias"]
  by (auto simp: map_of_eq_None_iff)

end
