(* ===== verification/Backend_K8s.thy ===== *)
theory Backend_K8s
  imports Backend_Msb
begin

text \<open>
  The Kubernetes backend (src/backend/k8s): the pod of one workload, its start with the unwinding of
  every failure, the supervision over watches that may close, and the publisher of the artifact
  image.  The cluster and the registry are third-party clients: \<open>cluster\<close> and \<open>registry\<close> give their
  answers, and every call that changes the cluster is recorded.
\<close>

section \<open>Configuration and names\<close>

record K8s =
  ks_Client :: bool
  ks_Namespace :: string
  ks_Registry :: string
  ks_BaseImage :: string
  ks_HostAlias :: string

definition DefaultNamespace :: string where "DefaultNamespace = ''default''"
definition DefaultBaseImage :: string where "DefaultBaseImage = ''alpine:3.22''"
definition podPrefix :: string where "podPrefix = ''soulstream-workloads-''"
definition guestScratch :: string where "guestScratch = ''/scratch''"
definition guestCredsDir :: string where "guestCredsDir = ''/creds''"
definition guestCredsPath :: string where "guestCredsPath = guestCredsDir @ ''/nats.creds''"
definition guestWorkload :: string where "guestWorkload = ''/workload''"
definition managedByKey :: string where "managedByKey = ''app.kubernetes.io/managed-by''"
definition managedByValue :: string where "managedByValue = ''soulstream-workloads''"
definition stopGrace :: int where "stopGrace = 5"

definition k8s_namespace :: "K8s \<Rightarrow> string" where
  "k8s_namespace b = (if ks_Namespace b \<noteq> [] then ks_Namespace b else DefaultNamespace)"

definition k8s_baseImage :: "K8s \<Rightarrow> string" where
  "k8s_baseImage b = (if ks_BaseImage b \<noteq> [] then ks_BaseImage b else DefaultBaseImage)"

definition elfMagic :: string where "elfMagic = CHR 0x7F # ''ELF''"

text \<open>\<open>strings.ToLower\<close> before \<open>strings.Map\<close>: besides the ASCII letters two runes have an ASCII lower
  case; every other rune stays outside ASCII and becomes a dash.\<close>

definition lower_rune :: "nat \<Rightarrow> nat" where
  "lower_rune r = (if 65 \<le> r \<and> r \<le> 90 then r + 32 else if r = 0x130 then 105 else if r = 0x212A then 107 else r)"

definition pod_rune :: "nat \<Rightarrow> bool" where
  "pod_rune r \<longleftrightarrow> 97 \<le> r \<and> r \<le> 122 \<or> 48 \<le> r \<and> r \<le> 57 \<or> r = 45"

definition trim_dashes :: "string \<Rightarrow> string" where
  "trim_dashes s = rev (dropWhile (\<lambda>c. c = CHR ''-'') (rev (dropWhile (\<lambda>c. c = CHR ''-'') s)))"

definition podName :: "string \<Rightarrow> string" where
  "podName scratchDir =
     podPrefix @ trim_dashes (take 50 (map_runes pod_rune (map lower_rune (runes (path_Base scratchDir)))))"

section \<open>Pods\<close>

datatype volume = EmptyDir string | SecretVolume string string

record container =
  ct_Name :: string
  ct_Image :: string
  ct_Command :: "string list"
  ct_WorkingDir :: string
  ct_Mounts :: "(string \<times> string \<times> bool) list"
  ct_Env :: "(string \<times> string) list"

record pod =
  pd_Name :: string
  pd_Namespace :: string
  pd_Labels :: "(string \<times> string) list"
  pd_RestartPolicy :: string
  pd_Grace :: int
  pd_Volumes :: "volume list"
  pd_Containers :: "container list"

definition podEnv :: "LaunchSpec \<Rightarrow> string \<Rightarrow> (string \<times> string) list" where
  "podEnv spec alias =
     (let servers = (if alias \<noteq> [] then Rewrite (pc_NatsServers (ls_Cred spec)) alias else pc_NatsServers (ls_Cred spec)) in
      [(EnvNatsServers, join_with '','' servers), (EnvCredsFile, guestCredsPath), (EnvRealm, ls_Realm spec),
       (EnvPersona, pc_Persona (ls_Cred spec)), (EnvTopic, ls_Topic spec)])"

definition pod_of :: "K8s \<Rightarrow> LaunchSpec \<Rightarrow> string \<Rightarrow> string \<Rightarrow> pod" where
  "pod_of b spec name ref =
     \<lparr>pd_Name = name, pd_Namespace = k8s_namespace b, pd_Labels = [(managedByKey, managedByValue)],
      pd_RestartPolicy = ''Never'', pd_Grace = stopGrace,
      pd_Volumes = [EmptyDir ''scratch'', SecretVolume ''creds'' name],
      pd_Containers = [\<lparr>ct_Name = ''workload'', ct_Image = ref, ct_Command = guestWorkload # ls_Args spec,
        ct_WorkingDir = guestScratch,
        ct_Mounts = [(''scratch'', guestScratch, False), (''creds'', guestCredsDir, True)],
        ct_Env = podEnv spec (ks_HostAlias b)\<rparr>]\<rparr>"

section \<open>Start\<close>

datatype kube_call =
    Publish string string "string + string"
  | CreateSecret string string string "string option"
  | WatchPod string string "string option"
  | StopWatch
  | CreatePod pod "string option"
  | GetPod string string
  | DeletePod string string int
  | DeleteSecret string string

record cluster =
  cl_read :: "string \<Rightarrow> string + string"
  cl_publish :: "string \<Rightarrow> string \<Rightarrow> string + string"
  cl_format :: "string \<Rightarrow> string \<Rightarrow> string + string"
  cl_secret :: "string \<Rightarrow> string \<Rightarrow> string option"
  cl_watch :: "string \<Rightarrow> string option"
  cl_pod :: "pod \<Rightarrow> string option"

datatype k8s_error = NoClient | NoRegistry | ReadArtifact string | NotElf string | LoopbackNoAlias
  | PublishImage string | FormatSecret string | CreateSecretErr string | WatchErr string | CreatePodErr string

record k8s_handle =
  kh_name :: string
  kh_ns :: string

text \<open>From the credential on, with the image published.\<close>

definition launch_pod :: "K8s \<Rightarrow> cluster \<Rightarrow> LaunchSpec \<Rightarrow> string \<Rightarrow> string \<Rightarrow> (k8s_error + k8s_handle) \<times> kube_call list" where
  "launch_pod b E spec name ref =
     (let ns = k8s_namespace b in
      case cl_format E (pc_UserJWT (ls_Cred spec)) (pc_UserSeed (ls_Cred spec)) of Inl e \<Rightarrow> (Inl (FormatSecret e), []) | Inr body \<Rightarrow>
      let es = cl_secret E name body; c1 = CreateSecret ns name body es in
      case es of Some e \<Rightarrow> (Inl (CreateSecretErr e), [c1]) | None \<Rightarrow>
      let ew = cl_watch E name; c2 = WatchPod ns name ew in
      case ew of Some e \<Rightarrow> (Inl (WatchErr e), [c1, c2, DeleteSecret ns name]) | None \<Rightarrow>
      let p = pod_of b spec name ref; ep = cl_pod E p; c3 = CreatePod p ep in
      case ep of Some e \<Rightarrow> (Inl (CreatePodErr e), [c1, c2, c3, StopWatch, DeleteSecret ns name])
      | None \<Rightarrow> (Inr \<lparr>kh_name = name, kh_ns = ns\<rparr>, [c1, c2, c3]))"

definition k8s_Start :: "K8s \<Rightarrow> cluster \<Rightarrow> LaunchSpec \<Rightarrow> (k8s_error + k8s_handle) \<times> kube_call list" where
  "k8s_Start b E spec =
     (if \<not> ks_Client b then (Inl NoClient, [])
      else if ks_Registry b = [] then (Inl NoRegistry, [])
      else let name = podName (ls_ScratchDir spec) in
      case cl_read E (ls_Artifact spec) of Inl e \<Rightarrow> (Inl (ReadArtifact e), []) | Inr artifact \<Rightarrow>
      if \<not> HasPrefix artifact elfMagic then (Inl (NotElf (ls_Artifact spec)), [])
      else if ks_HostAlias b = [] \<and> HasLoopback (pc_NatsServers (ls_Cred spec)) then (Inl LoopbackNoAlias, [])
      else let pr = cl_publish E artifact name; c0 = Publish artifact name pr in
        case pr of Inl e \<Rightarrow> (Inl (PublishImage e), [c0]) | Inr ref \<Rightarrow>
        case launch_pod b E spec name ref of (r, calls) \<Rightarrow> (r, c0 # calls))"

section \<open>Supervision\<close>

record terminated =
  te_ExitCode :: int
  te_Signal :: int

record pod_view =
  pv_Name :: string
  pv_Phase :: string
  pv_Terminated :: "terminated option list"

text \<open>A watch event: whether its type is \<open>Deleted\<close>, and its object when it is a pod.\<close>

datatype watch_event = WatchEvent bool "pod_view option"

definition finished :: "pod_view \<Rightarrow> bool" where
  "finished p \<longleftrightarrow> pv_Phase p = ''Succeeded'' \<or> pv_Phase p = ''Failed''"

definition capture :: "terminated option \<Rightarrow> pod_view \<Rightarrow> terminated option" where
  "capture prev p = foldl (\<lambda>acc t. case t of None \<Rightarrow> acc | Some _ \<Rightarrow> t) prev (pv_Terminated p)"

definition mine :: "string \<Rightarrow> pod_view option \<Rightarrow> bool" where
  "mine name obj \<longleftrightarrow> (case obj of None \<Rightarrow> False | Some p \<Rightarrow> pv_Name p = name)"

text \<open>The events of one watch: the state captured, and whether one was terminal.\<close>

fun consume :: "string \<Rightarrow> terminated option \<Rightarrow> watch_event list \<Rightarrow> terminated option \<times> bool" where
  "consume name prev [] = (prev, False)"
| "consume name prev (WatchEvent deleted obj # evs) =
     (let prev' = (if mine name obj then capture prev (the obj) else prev) in
      if deleted then (prev', True)
      else if mine name obj \<and> finished (the obj) then (prev', True)
      else consume name prev' evs)"

text \<open>One round: the events until the watch closes, the answer of \<open>Get\<close> and of the next \<open>Watch\<close>.  The
  supervision is given the rounds one after the other; \<open>None\<close> is that it is still watching.\<close>

record round =
  rd_events :: "watch_event list"
  rd_get :: "string + pod_view"
  rd_rewatch :: "string option"

fun supervise :: "string \<Rightarrow> string \<Rightarrow> terminated option \<Rightarrow> round list \<Rightarrow> (terminated option \<times> kube_call list) option" where
  "supervise ns name prev [] = None"
| "supervise ns name prev (r # rs) =
     (let (prev1, terminal) = consume name prev (rd_events r) in
      if terminal then Some (prev1, [StopWatch])
      else case rd_get r of Inl _ \<Rightarrow> Some (prev1, [StopWatch, GetPod ns name]) | Inr p \<Rightarrow>
        let prev2 = capture prev1 p in
        if finished p then Some (prev2, [StopWatch, GetPod ns name])
        else case rd_rewatch r of Some e \<Rightarrow> Some (prev2, [StopWatch, GetPod ns name, WatchPod ns name (Some e)])
          | None \<Rightarrow> map_option (apsnd ((@) [StopWatch, GetPod ns name, WatchPod ns name None])) (supervise ns name prev2 rs))"

definition reap :: "string \<Rightarrow> string \<Rightarrow> kube_call list" where
  "reap ns name = [DeletePod ns name 0, DeleteSecret ns name]"

definition mapExit :: "terminated option \<Rightarrow> ExitStatus" where
  "mapExit t =
     (case t of None \<Rightarrow> \<lparr>xs_Code = - 1, xs_Signal = []\<rparr> | Some t \<Rightarrow>
        if te_Signal t \<noteq> 0 then \<lparr>xs_Code = 0, xs_Signal = signal_string (te_Signal t)\<rparr>
        else if 128 < te_ExitCode t then \<lparr>xs_Code = 0, xs_Signal = signal_string (te_ExitCode t - 128)\<rparr>
        else \<lparr>xs_Code = te_ExitCode t, xs_Signal = []\<rparr>)"

text \<open>What the supervising goroutine does and delivers to \<open>Wait\<close>.\<close>

definition k8s_Wait :: "k8s_handle \<Rightarrow> round list \<Rightarrow> (ExitStatus \<times> kube_call list) option" where
  "k8s_Wait h rounds = map_option (\<lambda>(t, calls). (mapExit t, calls @ reap (kh_ns h) (kh_name h))) (supervise (kh_ns h) (kh_name h) None rounds)"

text \<open>\<open>Stop\<close>: the seconds left of the context's deadline, truncated, when they are fewer than the grace.
  \<open>del\<close> is the cluster's answer: whether it is a not-found, and its text.\<close>

definition stop_grace :: "duration option \<Rightarrow> int" where
  "stop_grace remaining =
     (case remaining of None \<Rightarrow> stopGrace | Some d \<Rightarrow>
        let s = (if 0 \<le> d then d div Second else - (- d div Second)) in
        if 0 \<le> s \<and> s < stopGrace then s else stopGrace)"

definition k8s_Stop :: "k8s_handle \<Rightarrow> duration option \<Rightarrow> (bool \<times> string) option \<Rightarrow> string option \<times> kube_call list" where
  "k8s_Stop h remaining del =
     ((case del of Some (notFound, e) \<Rightarrow> if notFound then None else Some (''k8s: delete pod: '' @ e) | None \<Rightarrow> None),
      [DeletePod (kh_ns h) (kh_name h) (stop_grace remaining)])"

section \<open>What a start leaves behind\<close>

interpretation pod: workload_env "\<lambda>spec. podEnv spec name" "\<lambda>s. if name \<noteq> [] then Rewrite s name else s" "\<lambda>_. guestCredsPath" "{}"
  for name
  by unfold_locales (auto simp: podEnv_def env_names Let_def)

text \<open>C16. A start that fails has created no pod, has deleted the secret if it created one, and has stopped
  the watch if it opened one.  A start that succeeds has published the ELF artifact, then created
  the secret, the watch and the pod in this order, and no server of the pod is the pod itself.\<close>

theorem k8s_Start_story:
  "case k8s_Start b E spec of
     (Inl e, calls) \<Rightarrow> (\<forall>p. CreatePod p None \<notin> set calls) \<and>
        (\<forall>ns n body. CreateSecret ns n body None \<in> set calls \<longrightarrow> last calls = DeleteSecret ns n) \<and>
        (\<forall>ns n. WatchPod ns n None \<in> set calls \<longrightarrow> StopWatch \<in> set calls)
   | (Inr h, calls) \<Rightarrow> (\<exists>artifact ref body. cl_read E (ls_Artifact spec) = Inr artifact \<and> HasPrefix artifact elfMagic \<and>
        (ks_HostAlias b = [] \<longrightarrow> \<not> HasLoopback (pc_NatsServers (ls_Cred spec))) \<and>
        kh_name h = podName (ls_ScratchDir spec) \<and> kh_ns h = k8s_namespace b \<and>
        calls = [Publish artifact (kh_name h) (Inr ref), CreateSecret (kh_ns h) (kh_name h) body None,
          WatchPod (kh_ns h) (kh_name h) None, CreatePod (pod_of b spec (kh_name h) ref) None])"
  by (auto simp: k8s_Start_def launch_pod_def Let_def split: option.split sum.split)

text \<open>The pod sees the same names and values as a native process; the servers are rewritten when the
  node has an alias.\<close>

lemma podEnv_guest: "name \<noteq> [] \<Longrightarrow> n \<noteq> EnvCredsFile \<Longrightarrow> map_of (podEnv spec name) n = map_of (guest_bindings spec name) n"
  by (simp add: podEnv_def guest_bindings_def)

section \<open>What the supervision reports\<close>

text \<open>The pods a supervision sees, up to its conclusion.\<close>

fun seen_events :: "string \<Rightarrow> watch_event list \<Rightarrow> pod_view list" where
  "seen_events name [] = []"
| "seen_events name (WatchEvent deleted obj # evs) =
     (if mine name obj then [the obj] else []) @
     (if deleted \<or> mine name obj \<and> finished (the obj) then [] else seen_events name evs)"

definition ends_watch :: "string \<Rightarrow> watch_event \<Rightarrow> bool" where
  "ends_watch name ev = (case ev of WatchEvent deleted obj \<Rightarrow> deleted \<or> mine name obj \<and> finished (the obj))"

definition concludes :: "string \<Rightarrow> round \<Rightarrow> bool" where
  "concludes name r \<longleftrightarrow> list_ex (ends_watch name) (rd_events r) \<or>
     (case rd_get r of Inl _ \<Rightarrow> True | Inr p \<Rightarrow> finished p \<or> rd_rewatch r \<noteq> None)"

fun seen :: "string \<Rightarrow> round list \<Rightarrow> pod_view list" where
  "seen name [] = []"
| "seen name (r # rs) = seen_events name (rd_events r) @
     (if list_ex (ends_watch name) (rd_events r) then []
      else case rd_get r of Inl _ \<Rightarrow> [] | Inr p \<Rightarrow> p # (if finished p \<or> rd_rewatch r \<noteq> None then [] else seen name rs))"

text \<open>The container terminations a list of pods shows, in the order they are seen.\<close>

definition terminations :: "pod_view list \<Rightarrow> terminated list" where
  "terminations ps = List.map_filter id (concat (map pv_Terminated ps))"

lemma capture_foldl:
  "foldl (\<lambda>acc t. case t of None \<Rightarrow> acc | Some _ \<Rightarrow> t) prev ts =
     (if List.map_filter id ts = [] then prev else Some (last (List.map_filter id ts)))"
  by (induction ts arbitrary: prev) (auto simp: List.map_filter_simps split: option.splits)

lemma capture_pods:
  "foldl capture prev ps = (if terminations ps = [] then prev else Some (last (terminations ps)))"
proof (induction ps arbitrary: prev)
  case Nil
  then show ?case by (simp add: terminations_def List.map_filter_simps)
next
  case (Cons p ps)
  then show ?case
    by (auto simp: capture_def capture_foldl terminations_def map_filter_append)
qed

lemma consume_seen:
  "consume name prev evs = (foldl capture prev (seen_events name evs), list_ex (ends_watch name) evs)"
  by (induction name prev evs rule: consume.induct) (auto simp: Let_def ends_watch_def)

lemma supervise_seen:
  "map_option fst (supervise ns name prev rs) =
     (if list_ex (concludes name) rs then Some (foldl capture prev (seen name rs)) else None)"
proof (induction rs arbitrary: prev)
  case (Cons r rs)
  have drop: "map_option fst (map_option (apsnd f) x) = map_option fst x"
    for f :: "kube_call list \<Rightarrow> kube_call list" and x :: "(terminated option \<times> kube_call list) option"
    by (cases x) auto
  show ?case
  proof (cases "concludes name r")
    case True
    then show ?thesis
      by (auto simp: concludes_def [of name r] consume_seen Let_def split: sum.splits option.splits)
  next
    case False
    then obtain p where "\<not> list_ex (ends_watch name) (rd_events r)" "rd_get r = Inr p" "\<not> finished p" "rd_rewatch r = None"
      by (auto simp: concludes_def [of name r] split: sum.splits)
    with False show ?thesis by (simp add: consume_seen Let_def drop Cons.IH del: option.map_comp)
  qed
qed simp

definition watches :: "kube_call \<Rightarrow> bool" where
  "watches c \<longleftrightarrow> (case c of StopWatch \<Rightarrow> True | GetPod _ _ \<Rightarrow> True | WatchPod _ _ _ \<Rightarrow> True | _ \<Rightarrow> False)"

lemma supervise_calls: "supervise ns name prev rs = Some (t, calls) \<Longrightarrow> list_all watches calls"
  by (induction rs arbitrary: prev t calls) (auto simp: Let_def watches_def split: prod.splits if_splits sum.splits option.splits)

text \<open>C15. A wait returns exactly when some round concludes: a deletion or a finished pod is seen, the pod is
  gone, or it cannot be watched any more.  It then reports the last termination state seen in any
  pod object up to the conclusion, however many watches were opened (the uncoded failure when none
  was seen), and it removes the pod and the secret as its last two calls, after calls that only
  watch.\<close>

theorem k8s_Wait_exact:
  "map_option fst (k8s_Wait h rounds) =
     (let ts = terminations (seen (kh_name h) rounds) in
      if list_ex (concludes (kh_name h)) rounds then Some (mapExit (if ts = [] then None else Some (last ts))) else None) \<and>
   (case k8s_Wait h rounds of None \<Rightarrow> True
    | Some (st, calls) \<Rightarrow> (\<exists>before. calls = before @ reap (kh_ns h) (kh_name h) \<and> list_all watches before))"
proof (cases "supervise (kh_ns h) (kh_name h) None rounds")
  case None
  then show ?thesis
    using supervise_seen [of "kh_ns h" "kh_name h" None rounds] by (auto simp: k8s_Wait_def Let_def split: if_splits)
next
  case (Some r)
  then obtain t before where s: "supervise (kh_ns h) (kh_name h) None rounds = Some (t, before)" by (cases r) auto
  then have "list_ex (concludes (kh_name h)) rounds \<and> t = foldl capture None (seen (kh_name h) rounds)"
    using supervise_seen [of "kh_ns h" "kh_name h" None rounds] by (auto split: if_splits)
  then show ?thesis
    using s supervise_calls [OF s] by (simp add: k8s_Wait_def capture_pods Let_def)
qed

section \<open>Exit statuses of pods and of processes\<close>

text \<open>The exit code the container runtime reports for a wait status: 128 plus the signal of a signal
  death.\<close>

definition container_code :: "wait_status \<Rightarrow> int" where
  "container_code w = (if ws_Signaled w then 128 + ws_Signal w else ws_ExitStatus w)"

lemma ws_Signal_pos: "ws_Signaled w \<Longrightarrow> 0 < ws_Signal w"
proof -
  assume s: "ws_Signaled w"
  then have "uint (w AND 0x7F) \<noteq> 0" using word_uint_eq_iff [of "w AND 0x7F" 0] by (auto simp: ws_Signaled_def)
  moreover have "0 \<le> uint (w AND 0x7F)" by simp
  ultimately have "0 < uint (w AND 0x7F)" by linarith
  with s show ?thesis by (simp add: ws_Signal_def)
qed

text \<open>C32. A pod reports the exit of its workload as a native process would, except for the exit codes
  beyond 128, which it cannot tell from signals.\<close>

theorem mapExit_agrees:
  "mapExit (Some \<lparr>te_ExitCode = container_code w, te_Signal = 0\<rparr>) = statusOf (Some (WaitExit w)) \<longleftrightarrow>
     ws_Signaled w \<or> ws_ExitStatus w \<le> 128"
  using ws_Signal_pos [of w] by (auto simp: mapExit_def statusOf_def container_code_def)

section \<open>Names of pods\<close>

lemma pod_rune_ascii: "pod_rune r \<Longrightarrow> r < 128"
  unfolding pod_rune_def by linarith

definition pod_base :: "string \<Rightarrow> string" where
  "pod_base dir = take 50 (map_runes pod_rune (map lower_rune (runes (path_Base dir))))"

lemma trim_dashes_set: "set (trim_dashes s) \<subseteq> set s"
  by (auto simp: trim_dashes_def dest!: set_dropWhileD)

lemma trim_dashes_length: "length (trim_dashes s) \<le> length s"
  unfolding trim_dashes_def length_rev
  by (rule order_trans [OF length_dropWhile_le]) (simp add: length_dropWhile_le)

lemma trim_dashes_last: "trim_dashes s \<noteq> [] \<Longrightarrow> last (trim_dashes s) \<noteq> CHR ''-''"
  using hd_dropWhile [of "\<lambda>c. c = CHR ''-''" "rev (dropWhile (\<lambda>c. c = CHR ''-'') s)"] by (simp add: trim_dashes_def last_rev)

lemma dropWhile_both: "dropWhile P (rev (dropWhile P s)) = [] \<longleftrightarrow> (\<forall>c \<in> set s. P c)"
proof
  assume "dropWhile P (rev (dropWhile P s)) = []"
  then have all: "\<forall>c \<in> set (dropWhile P s). P c" by (simp add: dropWhile_eq_Nil_conv)
  show "\<forall>c \<in> set s. P c"
  proof (cases "dropWhile P s = []")
    case False
    then show ?thesis using all hd_dropWhile [OF False] hd_in_set [OF False] by blast
  qed (simp add: dropWhile_eq_Nil_conv)
qed (simp add: dropWhile_eq_Nil_conv [THEN iffD2])

lemma trim_dashes_Nil: "trim_dashes s = [] \<longleftrightarrow> list_all (\<lambda>c. c = CHR ''-'') s"
  unfolding trim_dashes_def rev_is_Nil_conv dropWhile_both list_all_iff ..

text \<open>A pod's name: lower-case letters, digits and dashes, at most 71 bytes, beginning with a letter; it
  ends in a dash, which the cluster refuses, exactly when the first 50 runes of the work item's id
  have no letter and no digit.\<close>

theorem podName_ok:
  "length (podName dir) \<le> 71 \<and> list_all (\<lambda>c. pod_rune (of_char c)) (podName dir) \<and>
   hd (podName dir) = CHR ''s'' \<and>
   (last (podName dir) = CHR ''-'' \<longleftrightarrow> list_all (\<lambda>c. c = CHR ''-'') (pod_base dir))"
proof (intro conjI)
  have eq: "podName dir = podPrefix @ trim_dashes (pod_base dir)" by (simp add: podName_def pod_base_def)
  have "length (pod_base dir) \<le> 50" by (simp add: pod_base_def)
  then show "length (podName dir) \<le> 71"
    using trim_dashes_length [of "pod_base dir"] by (simp add: eq podPrefix_def)
  have "list_all (\<lambda>c. pod_rune (of_char c)) (map_runes pod_rune rs)" for rs
  proof (rule map_runes_kept)
    show "pod_rune 45" by (simp add: pod_rune_def)
  qed (rule pod_rune_ascii)
  then have "list_all (\<lambda>c. pod_rune (of_char c)) (pod_base dir)"
    unfolding pod_base_def list_all_iff by (blast dest: in_set_takeD)
  then have "list_all (\<lambda>c. pod_rune (of_char c)) (trim_dashes (pod_base dir))"
    using trim_dashes_set [of "pod_base dir"] by (auto simp: list_all_iff)
  moreover have "list_all (\<lambda>c. pod_rune (of_char c)) podPrefix" by (simp add: podPrefix_def pod_rune_def)
  ultimately show "list_all (\<lambda>c. pod_rune (of_char c)) (podName dir)" by (simp add: eq)
  show "hd (podName dir) = CHR ''s''" by (simp add: eq podPrefix_def)
  show "last (podName dir) = CHR ''-'' \<longleftrightarrow> list_all (\<lambda>c. c = CHR ''-'') (pod_base dir)"
  proof (cases "trim_dashes (pod_base dir) = []")
    case True
    then show ?thesis unfolding eq trim_dashes_Nil [symmetric] by (simp add: podPrefix_def)
  next
    case False
    then show ?thesis
      unfolding eq trim_dashes_Nil [symmetric] using trim_dashes_last [of "pod_base dir"] by simp
  qed
qed

section \<open>The artifact image\<close>

text \<open>
  \<open>registryPublisher\<close> (image.go).  Images and layers are values of the registry library: the type
  parameters, with its operations in \<open>registry\<close>; \<open>rg_layer\<close> packs one file (its name, mode and
  content), \<open>rg_configure\<close> sets an image's entrypoint and drops its command.
\<close>

record ('img, 'layer) registry =
  rg_parse :: "string \<Rightarrow> string + string"
  rg_pull :: "string \<Rightarrow> string + 'img"
  rg_layer :: "string \<Rightarrow> nat \<Rightarrow> string \<Rightarrow> string + 'layer"
  rg_append :: "'img \<Rightarrow> 'layer \<Rightarrow> string + 'img"
  rg_readable :: "'img \<Rightarrow> string option"
  rg_configure :: "'img \<Rightarrow> string list \<Rightarrow> string + 'img"
  rg_push :: "string \<Rightarrow> 'img \<Rightarrow> string option"
  rg_digest :: "'img \<Rightarrow> string + string"

datatype publish_error = BadBase string string | PullBase string string | ArtifactLayer string | AppendLayer string
  | ReadConfig string | SetEntrypoint string | BadTarget string string | PushImage string string | ImageDigest string

definition workloadLayer :: "('img, 'layer) registry \<Rightarrow> string \<Rightarrow> string + 'layer" where
  "workloadLayer R artifact = rg_layer R ''workload'' 493 artifact"

text \<open>The image to push: the base, the artifact's layer, the entrypoint.\<close>

definition build_image :: "('img, 'layer) registry \<Rightarrow> string \<Rightarrow> string \<Rightarrow> publish_error + 'img" where
  "build_image R base artifact =
     (case rg_parse R base of Inl e \<Rightarrow> Inl (BadBase base e) | Inr baseRef \<Rightarrow>
      case rg_pull R baseRef of Inl e \<Rightarrow> Inl (PullBase base e) | Inr img \<Rightarrow>
      case workloadLayer R artifact of Inl e \<Rightarrow> Inl (ArtifactLayer e) | Inr layer \<Rightarrow>
      case rg_append R img layer of Inl e \<Rightarrow> Inl (AppendLayer e) | Inr img1 \<Rightarrow>
      case rg_readable R img1 of Some e \<Rightarrow> Inl (ReadConfig e) | None \<Rightarrow>
      map_error SetEntrypoint (rg_configure R img1 [guestWorkload]))"

text \<open>\<open>Publish\<close>: the reference for the pod, and the image pushed with its target if it gets there.\<close>

definition registry_Publish :: "('img, 'layer) registry \<Rightarrow> string \<Rightarrow> string \<Rightarrow> string \<Rightarrow> string
    \<Rightarrow> (publish_error + string) \<times> (string \<times> 'img) option" where
  "registry_Publish R repo base artifact tag =
     (case build_image R base artifact of Inl e \<Rightarrow> (Inl e, None) | Inr img \<Rightarrow>
      let dst = repo @ ''/workloads:'' @ tag in
      case rg_parse R dst of Inl e \<Rightarrow> (Inl (BadTarget dst e), None) | Inr dstRef \<Rightarrow>
      case rg_push R dstRef img of Some e \<Rightarrow> (Inl (PushImage dst e), Some (dstRef, img)) | None \<Rightarrow>
      (case rg_digest R img of Inl e \<Rightarrow> Inl (ImageDigest e) | Inr dig \<Rightarrow> Inr (repo @ ''/workloads@'' @ dig), Some (dstRef, img)))"

text \<open>A published reference names, by its digest, the image that was pushed, whose only added layer is
  the artifact and whose entrypoint is the workload.\<close>

lemma Publish_pins:
  assumes "registry_Publish R repo base artifact tag = (Inr ref, pushed)"
  shows "\<exists>dstRef img dig baseImg layer img1. pushed = Some (dstRef, img) \<and> rg_digest R img = Inr dig \<and>
     ref = repo @ ''/workloads@'' @ dig \<and> rg_parse R (repo @ ''/workloads:'' @ tag) = Inr dstRef \<and> rg_push R dstRef img = None \<and>
     workloadLayer R artifact = Inr layer \<and> rg_append R baseImg layer = Inr img1 \<and> rg_configure R img1 [guestWorkload] = Inr img"
  using assms by (auto simp: registry_Publish_def build_image_def Let_def split: sum.splits option.splits) blast

text \<open>\<open>images\<close>: the configured publisher, or the registry's; \<open>text\<close> renders an error.\<close>

definition images :: "(string \<Rightarrow> string \<Rightarrow> string + string) option \<Rightarrow> (publish_error \<Rightarrow> string) \<Rightarrow> ('img, 'layer) registry \<Rightarrow> K8s
    \<Rightarrow> string \<Rightarrow> string \<Rightarrow> string + string" where
  "images custom text R b artifact tag =
     (case custom of Some publish \<Rightarrow> publish artifact tag
      | None \<Rightarrow> map_error text (fst (registry_Publish R (ks_Registry b) (k8s_baseImage b) artifact tag)))"

lemma k8s_Start_runs:
  assumes "k8s_Start b E spec = (Inr h, calls)"
  obtains artifact ref where "cl_read E (ls_Artifact spec) = Inr artifact" "HasPrefix artifact elfMagic"
    "cl_publish E artifact (podName (ls_ScratchDir spec)) = Inr ref"
    "\<And>p. CreatePod p None \<in> set calls \<longleftrightarrow> p = pod_of b spec (podName (ls_ScratchDir spec)) ref"
proof (rule that)
  show "cl_read E (ls_Artifact spec) = Inr (projr (cl_read E (ls_Artifact spec)))"
    "HasPrefix (projr (cl_read E (ls_Artifact spec))) elfMagic"
    "cl_publish E (projr (cl_read E (ls_Artifact spec))) (podName (ls_ScratchDir spec)) =
       Inr (projr (cl_publish E (projr (cl_read E (ls_Artifact spec))) (podName (ls_ScratchDir spec))))"
    "CreatePod p None \<in> set calls \<longleftrightarrow> p = pod_of b spec (podName (ls_ScratchDir spec))
       (projr (cl_publish E (projr (cl_read E (ls_Artifact spec))) (podName (ls_ScratchDir spec))))" for p
    using assms
    by (auto simp: k8s_Start_def launch_pod_def Let_def split: option.splits sum.splits if_splits prod.splits)
qed

text \<open>With the registry's publisher, the pod that runs names by digest an image whose only added layer is
  the ELF artifact the launch named and whose entrypoint is that artifact.\<close>

theorem pod_runs_the_artifact:
  assumes "k8s_Start b E spec = (Inr h, calls)" and "cl_publish E = images None text R b"
  shows "\<exists>artifact layer baseImg img1 img dig. cl_read E (ls_Artifact spec) = Inr artifact \<and> HasPrefix artifact elfMagic \<and>
     workloadLayer R artifact = Inr layer \<and> rg_append R baseImg layer = Inr img1 \<and> rg_configure R img1 [guestWorkload] = Inr img \<and>
     rg_digest R img = Inr dig \<and>
     (\<forall>p. CreatePod p None \<in> set calls \<longleftrightarrow> p = pod_of b spec (kh_name h) (ks_Registry b @ ''/workloads@'' @ dig))"
proof -
  obtain artifact ref where a: "cl_read E (ls_Artifact spec) = Inr artifact" "HasPrefix artifact elfMagic"
      "cl_publish E artifact (podName (ls_ScratchDir spec)) = Inr ref"
      "\<And>p. CreatePod p None \<in> set calls \<longleftrightarrow> p = pod_of b spec (podName (ls_ScratchDir spec)) ref"
    using k8s_Start_runs [OF assms(1)] by blast
  have h: "kh_name h = podName (ls_ScratchDir spec)"
    using assms(1) by (auto simp: k8s_Start_def launch_pod_def Let_def split: option.splits sum.splits if_splits prod.splits)
  have "\<exists>pushed. registry_Publish R (ks_Registry b) (k8s_baseImage b) artifact (podName (ls_ScratchDir spec)) = (Inr ref, pushed)"
    using a(3) assms(2) by (cases "registry_Publish R (ks_Registry b) (k8s_baseImage b) artifact (podName (ls_ScratchDir spec))")
      (auto simp: images_def map_error_def split: sum.splits)
  then obtain pushed where "registry_Publish R (ks_Registry b) (k8s_baseImage b) artifact (podName (ls_ScratchDir spec)) = (Inr ref, pushed)" ..
  then obtain img dig baseImg layer img1 where i: "rg_digest R img = Inr dig" "ref = ks_Registry b @ ''/workloads@'' @ dig"
      "workloadLayer R artifact = Inr layer" "rg_append R baseImg layer = Inr img1" "rg_configure R img1 [guestWorkload] = Inr img"
    using Publish_pins by meson
  show ?thesis
    by (intro exI [of _ artifact] exI [of _ layer] exI [of _ baseImg] exI [of _ img1] exI [of _ img] exI [of _ dig] conjI allI)
      (rule a(1) a(2) i(3) i(4) i(5) i(1) a(4) [folded h, unfolded i(2)])+
qed

section \<open>A concrete supervision\<close>

definition demo_rounds :: "round list" where
  "demo_rounds =
     [\<lparr>rd_events = [WatchEvent False (Some \<lparr>pv_Name = ''w'', pv_Phase = ''Running'', pv_Terminated = [None]\<rparr>)],
       rd_get = Inr \<lparr>pv_Name = ''w'', pv_Phase = ''Running'', pv_Terminated = [Some \<lparr>te_ExitCode = 137, te_Signal = 0\<rparr>]\<rparr>,
       rd_rewatch = None\<rparr>,
      \<lparr>rd_events = [WatchEvent True None], rd_get = Inl ''gone'', rd_rewatch = None\<rparr>]"

text \<open>A watch that closes on a running pod, a \<open>Get\<close> that shows the kill, and a deletion.\<close>

lemma demo_wait: "k8s_Wait \<lparr>kh_name = ''w'', kh_ns = ''n''\<rparr> demo_rounds =
    Some (\<lparr>xs_Code = 0, xs_Signal = ''killed''\<rparr>,
      [StopWatch, GetPod ''n'' ''w'', WatchPod ''n'' ''w'' None, StopWatch, DeletePod ''n'' ''w'' 0, DeleteSecret ''n'' ''w''])"
  by code_simp

definition demo_cluster :: cluster where
  "demo_cluster = \<lparr>cl_read = (\<lambda>_. Inr (elfMagic @ ''x'')), cl_publish = (\<lambda>_ _. Inr ''ref''), cl_format = (\<lambda>_ _. Inr ''creds''),
     cl_secret = (\<lambda>_ _. None), cl_watch = (\<lambda>_. None), cl_pod = (\<lambda>_. Some ''quota'')\<rparr>"

definition demo_k8s :: K8s where
  "demo_k8s = \<lparr>ks_Client = True, ks_Namespace = [], ks_Registry = ''reg'', ks_BaseImage = [], ks_HostAlias = ''h''\<rparr>"

lemma demo_start_fails: "fst (k8s_Start demo_k8s demo_cluster demo_spec) = Inl (CreatePodErr ''quota'')"
  by code_simp

theorem k8s_Start_story_witness:
  "\<forall>p. CreatePod p None \<notin> set (snd (k8s_Start demo_k8s demo_cluster demo_spec))"
  using k8s_Start_story [where b = demo_k8s and E = demo_cluster and spec = demo_spec] demo_start_fails by (auto split: prod.splits)

end
