(* ===== verification/Declaration_Json.thy ===== *)
theory Declaration_Json
  imports Fleet Go_Json_Struct
begin

text \<open>
  The wire form of a declaration: its JSON schema (the tags of src/declaration/declaration.go),
  the strict \<open>Parse\<close>, and the encoding and decoding of the placement items of
  src/fleet/fleet.go, which instantiate the codec parameters of \<open>Fleet\<close>.
\<close>

section \<open>The schema\<close>

definition instructions_schema :: schema where
  "instructions_schema = SStruct [(''topic'', False, SStr), (''artefact'', False, SStr)]"

definition capabilities_schema :: schema where
  "capabilities_schema = SStruct [(''role'', False, SStr), (''tools'', True, SSlice SStr)]"

definition wake_schema :: schema where
  "wake_schema = SStruct [(''kind'', False, SStr), (''path'', True, SStr), (''types'', True, SSlice SStr),
     (''name'', True, SStr), (''pattern'', True, SStr), (''ttl'', True, SStr), (''subject'', True, SStr)]"

definition window_schema :: schema where
  "window_schema = SStruct [(''max'', False, SInt), (''per'', False, SStr)]"

definition budget_schema :: schema where
  "budget_schema = SStruct [(''max_hops'', False, SInt), (''window'', True, SPtr window_schema)]"

definition inference_schema :: schema where
  "inference_schema = SStruct [(''model'', False, SStr)]"

definition declaration_schema :: schema where
  "declaration_schema = SStruct
     [(''role'', False, SStr), (''lifecycle'', False, SStr), (''persona'', False, SStr), (''topic'', False, SStr),
      (''artifact'', True, SStr), (''args'', True, SSlice SStr),
      (''instructions'', True, SPtr instructions_schema), (''capabilities'', True, SPtr capabilities_schema),
      (''wake'', True, SSlice wake_schema), (''budget'', True, SPtr budget_schema),
      (''inference'', True, SPtr inference_schema)]"

lemmas schemas = instructions_schema_def capabilities_schema_def wake_schema_def window_schema_def
  budget_schema_def inference_schema_def declaration_schema_def

section \<open>Declarations as Go values\<close>

definition gv_strs :: "string list \<Rightarrow> gv" where
  "gv_strs xs = GSlice (map GStr xs) (length xs)"

definition gv_opt :: "('a \<Rightarrow> gv) \<Rightarrow> 'a option \<Rightarrow> gv" where
  "gv_opt f x = (case x of None \<Rightarrow> GNil | Some a \<Rightarrow> GPtr (f a))"

definition gv_instructions :: "Instructions \<Rightarrow> gv" where
  "gv_instructions i = GStruct [GStr (ins_Topic i), GStr (ins_Artefact i)]"

definition gv_capabilities :: "Capabilities \<Rightarrow> gv" where
  "gv_capabilities c = GStruct [GStr (cap_Role c), gv_strs (cap_Tools c)]"

definition gv_wake :: "WakeEntry \<Rightarrow> gv" where
  "gv_wake e = GStruct [GStr (we_Kind e), GStr (we_Path e), gv_strs (we_Types e), GStr (we_Name e),
     GStr (we_Pattern e), GStr (we_TTL e), GStr (we_Subject e)]"

definition gv_window :: "WindowSpec \<Rightarrow> gv" where
  "gv_window w = GStruct [GInt (win_Max w), GStr (win_Per w)]"

definition gv_budget :: "BudgetSpec \<Rightarrow> gv" where
  "gv_budget b = GStruct [GInt (bs_MaxHops b), gv_opt gv_window (bs_Window b)]"

definition gv_inference :: "InferenceSpec \<Rightarrow> gv" where
  "gv_inference i = GStruct [GStr (inf_Model i)]"

definition gv_declaration :: "Declaration \<Rightarrow> gv" where
  "gv_declaration d = GStruct
     [GStr (d_Role d), GStr (d_Lifecycle d), GStr (d_Persona d), GStr (d_Topic d), GStr (d_Artifact d),
      gv_strs (d_Args d), gv_opt gv_instructions (d_Instructions d), gv_opt gv_capabilities (d_Capabilities d),
      GSlice (map gv_wake (d_Wake d)) (length (d_Wake d)), gv_opt gv_budget (d_Budget d),
      gv_opt gv_inference (d_Inference d)]"

definition to_instructions :: "gv \<Rightarrow> Instructions" where
  "to_instructions v = \<lparr>ins_Topic = gv_str (gv_field v 0), ins_Artefact = gv_str (gv_field v 1)\<rparr>"

definition to_capabilities :: "gv \<Rightarrow> Capabilities" where
  "to_capabilities v = \<lparr>cap_Role = gv_str (gv_field v 0), cap_Tools = gv_list gv_str (gv_field v 1)\<rparr>"

definition to_wake :: "gv \<Rightarrow> WakeEntry" where
  "to_wake v = \<lparr>we_Kind = gv_str (gv_field v 0), we_Path = gv_str (gv_field v 1), we_Types = gv_list gv_str (gv_field v 2),
     we_Name = gv_str (gv_field v 3), we_Pattern = gv_str (gv_field v 4), we_TTL = gv_str (gv_field v 5),
     we_Subject = gv_str (gv_field v 6)\<rparr>"

definition to_window :: "gv \<Rightarrow> WindowSpec" where
  "to_window v = \<lparr>win_Max = gv_int (gv_field v 0), win_Per = gv_str (gv_field v 1)\<rparr>"

definition to_budget :: "gv \<Rightarrow> BudgetSpec" where
  "to_budget v = \<lparr>bs_MaxHops = gv_int (gv_field v 0), bs_Window = gv_ptr to_window (gv_field v 1)\<rparr>"

definition to_inference :: "gv \<Rightarrow> InferenceSpec" where
  "to_inference v = \<lparr>inf_Model = gv_str (gv_field v 0)\<rparr>"

definition to_declaration :: "gv \<Rightarrow> Declaration" where
  "to_declaration v = \<lparr>d_Role = gv_str (gv_field v 0), d_Lifecycle = gv_str (gv_field v 1),
     d_Persona = gv_str (gv_field v 2), d_Topic = gv_str (gv_field v 3), d_Artifact = gv_str (gv_field v 4),
     d_Args = gv_list gv_str (gv_field v 5), d_Instructions = gv_ptr to_instructions (gv_field v 6),
     d_Capabilities = gv_ptr to_capabilities (gv_field v 7), d_Wake = gv_list to_wake (gv_field v 8),
     d_Budget = gv_ptr to_budget (gv_field v 9), d_Inference = gv_ptr to_inference (gv_field v 10)\<rparr>"

lemmas gv_records = gv_instructions_def gv_capabilities_def gv_wake_def gv_window_def gv_budget_def
  gv_inference_def gv_declaration_def gv_strs_def gv_opt_def

lemmas to_records = to_instructions_def to_capabilities_def to_wake_def to_window_def to_budget_def
  to_inference_def to_declaration_def

lemma gv_list_strs [simp]: "gv_list gv_str (gv_strs xs) = xs"
  by (simp add: gv_strs_def comp_def)

lemma gv_ptr_opt [simp]: "gv_ptr f (gv_opt g x) = map_option (f \<circ> g) x"
  by (cases x) (simp_all add: gv_opt_def)

lemma to_gv_window [simp]: "to_window \<circ> gv_window = id"
  by (rule ext) (simp add: gv_window_def to_window_def)

lemma to_gv_simps [simp]: "to_instructions \<circ> gv_instructions = id" "to_capabilities \<circ> gv_capabilities = id"
  "to_wake \<circ> gv_wake = id" "to_budget \<circ> gv_budget = id" "to_inference \<circ> gv_inference = id"
  by (rule ext, simp add: gv_instructions_def to_instructions_def gv_capabilities_def to_capabilities_def
      gv_wake_def to_wake_def gv_budget_def to_budget_def gv_inference_def to_inference_def option.map_id)+

lemma to_gv_declaration [simp]: "to_declaration (gv_declaration d) = d"
  by (simp add: gv_declaration_def to_declaration_def option.map_id)

section \<open>Parse, Marshal, Unmarshal\<close>

datatype parse_error = ParseDecode | ParseTrailing

text \<open>\<open>Parse\<close>: one strict \<open>Decode\<close>, then \<open>More\<close>.\<close>

definition Parse :: "string \<Rightarrow> parse_error + Declaration" where
  "Parse data =
     (case json_decode data of None \<Rightarrow> Inl ParseDecode | Some (j, rest) \<Rightarrow>
      case json_into True j declaration_schema (zero declaration_schema) of None \<Rightarrow> Inl ParseDecode | Some v \<Rightarrow>
      if json_more rest then Inl ParseTrailing else Inr (to_declaration v))"

definition Marshal :: "Declaration \<Rightarrow> string" where
  "Marshal d = json_print (to_json declaration_schema (gv_declaration d))"

definition Unmarshal :: "string \<Rightarrow> Declaration option" where
  "Unmarshal data =
     (case json_whole data of None \<Rightarrow> None | Some j \<Rightarrow>
      map_option to_declaration (json_into False j declaration_schema (zero declaration_schema)))"

section \<open>The round trip\<close>

text \<open>What a declaration must be to survive the encoder: well-formed UTF-8 and 64-bit integers.\<close>

definition decl_strings :: "Declaration \<Rightarrow> string list" where
  "decl_strings d =
     [d_Role d, d_Lifecycle d, d_Persona d, d_Topic d, d_Artifact d] @ d_Args d @
     (case d_Instructions d of None \<Rightarrow> [] | Some i \<Rightarrow> [ins_Topic i, ins_Artefact i]) @
     (case d_Capabilities d of None \<Rightarrow> [] | Some c \<Rightarrow> cap_Role c # cap_Tools c) @
     concat (map (\<lambda>e. [we_Kind e, we_Path e, we_Name e, we_Pattern e, we_TTL e, we_Subject e] @ we_Types e) (d_Wake d)) @
     (case d_Budget d of None \<Rightarrow> [] | Some b \<Rightarrow> (case bs_Window b of None \<Rightarrow> [] | Some w \<Rightarrow> [win_Per w])) @
     (case d_Inference d of None \<Rightarrow> [] | Some i \<Rightarrow> [inf_Model i])"

definition decl_ints :: "Declaration \<Rightarrow> int list" where
  "decl_ints d = (case d_Budget d of None \<Rightarrow> [] | Some b \<Rightarrow>
     bs_MaxHops b # (case bs_Window b of None \<Rightarrow> [] | Some w \<Rightarrow> [win_Max w]))"

definition on_the_wire :: "Declaration \<Rightarrow> bool" where
  "on_the_wire d \<longleftrightarrow> list_all utf8_valid (decl_strings d) \<and> list_all int64_ok (decl_ints d)"

lemma typed_strs [simp]: "typed (SSlice SStr) (gv_strs xs)"
  by (auto simp: gv_strs_def list_all_iff)

lemma typed_opt [simp]:
  "typed (SPtr (SStruct fs)) (gv_opt f x) \<longleftrightarrow> (case x of None \<Rightarrow> True | Some a \<Rightarrow> typed (SStruct fs) (f a))"
  by (auto simp: gv_opt_def simp del: typed.simps(6) split: option.splits)

lemma gv_wire_strs [simp]: "gv_wire (gv_strs xs) \<longleftrightarrow> list_all utf8_valid xs"
  by (simp add: gv_strs_def list_all_iff)

lemma gv_wire_opt [simp]: "gv_wire (gv_opt f x) \<longleftrightarrow> (case x of None \<Rightarrow> True | Some a \<Rightarrow> gv_wire (f a))"
  by (simp add: gv_opt_def split: option.split)

lemma typed_wake: "typed wake_schema (gv_wake e)"
  by (simp add: wake_schema_def gv_wake_def del: typed.simps(4))

lemma typed_wakes [simp]: "typed (SSlice wake_schema) (GSlice (map gv_wake es) (length es))"
  by (simp add: list_all_iff typed_wake)

lemma typed_declaration: "list_all int64_ok (decl_ints d) \<Longrightarrow> typed declaration_schema (gv_declaration d)"
  by (auto simp: instructions_schema_def capabilities_schema_def window_schema_def budget_schema_def
      inference_schema_def declaration_schema_def gv_instructions_def gv_capabilities_def gv_window_def
      gv_budget_def gv_inference_def gv_declaration_def decl_ints_def
      simp del: typed.simps(4,5) split: option.splits)

lemma list_all_option:
  "list_all P (case x of None \<Rightarrow> [] | Some a \<Rightarrow> f a) \<longleftrightarrow> (case x of None \<Rightarrow> True | Some a \<Rightarrow> list_all P (f a))"
  by (simp split: option.split)

lemma gv_wire_wakes:
  "list_all id (map (gv_wire \<circ> gv_wake) es) \<longleftrightarrow> list_all utf8_valid
     (concat (map (\<lambda>e. [we_Kind e, we_Path e, we_Name e, we_Pattern e, we_TTL e, we_Subject e] @ we_Types e) es))"
  by (induction es) (auto simp: gv_wake_def)

lemma gv_wire_declaration: "list_all utf8_valid (decl_strings d) \<Longrightarrow> gv_wire (gv_declaration d)"
  by (simp add: gv_instructions_def gv_capabilities_def gv_window_def gv_budget_def gv_inference_def
      gv_declaration_def decl_strings_def list_all_option gv_wire_wakes cong: option.case_cong)

lemma declaration_schema_ok: "schema_ok declaration_schema"
  by (simp add: schemas utf8_valid_ascii del: utf8_valid.simps)

lemma declaration_schema_depth: "int (schema_depth declaration_schema) \<le> max_depth"
  by (simp add: schemas max_depth_def)

lemma declaration_codec:
  assumes "on_the_wire d" and "json_end rest"
  shows "json_decode (Marshal d @ rest) = Some (to_json declaration_schema (gv_declaration d), rest)"
    and "json_into strict (to_json declaration_schema (gv_declaration d)) declaration_schema (zero declaration_schema)
      = Some (gv_declaration d)"
  using assms unfolding Marshal_def on_the_wire_def
  by (auto intro!: json_decode_typed json_into_to_json typed_declaration gv_wire_declaration
      declaration_schema_ok declaration_schema_depth)

lemma Unmarshal_Marshal: "on_the_wire d \<Longrightarrow> Unmarshal (Marshal d) = Some d"
  using declaration_codec(1) [of d "[]"] declaration_codec(2) [of d "[]" False]
  by (simp add: Unmarshal_def json_whole_def json_end_def skip_ws_def)

text \<open>What follows the encoding of a declaration decides between its result and the trailing error.\<close>

lemma Parse_codec:
  "on_the_wire d \<Longrightarrow> json_end rest \<Longrightarrow> Parse (Marshal d @ rest) = (if json_more rest then Inl ParseTrailing else Inr d)"
  using declaration_codec(1) [of d rest] declaration_codec(2) [of d rest True] by (simp add: Parse_def)

text \<open>Parsing the encoding of a declaration gives it back, whatever its optional blocks are.\<close>

theorem Parse_Marshal:
  assumes "on_the_wire d"
  shows "Parse (Marshal d) = Inr d"
  using Parse_codec [OF assms, of "[]"] by (simp add: json_end_def json_more_def skip_ws_def)

text \<open>C39. \<open>More\<close> looks for a closing bracket or brace as if the decoder were inside an array or object: a
  document followed by one, and then by anything, is accepted although \<open>Parse\<close> refuses trailing
  content.\<close>

theorem Parse_accepts_trailing:
  assumes "on_the_wire d" and "c = CHR ''}'' \<or> c = CHR '']''"
  shows "Parse (Marshal d @ c # garbage) = Inr d"
  using Parse_codec [OF assms(1), of "c # garbage"] assms(2)
  by (auto simp: json_end_def json_more_def skip_ws_def json_ws_def)

text \<open>C10. A declaration that is submitted is the declaration read from the item that is opened.\<close>

theorem Submit_DeclarationOf:
  assumes "Submit ValidName (\<lambda>d. Inr (Marshal d)) openWork d = (r, Some (title, body))" and "on_the_wire d"
    and "wi_Body item = body"
  shows "DeclarationOf Unmarshal item = Some d"
proof -
  from assms(1) have "body = submissionMarker @ Marshal d" by (auto simp: Submit_def Let_def split: option.splits)
  with assms(3) Unmarshal_Marshal [OF assms(2)] show ?thesis
    by (auto simp: DeclarationOf_def CutPrefix_def)
qed

section \<open>Strictness\<close>

text \<open>A document that parses has no key anywhere, nested blocks included, that is not a field of the
  contract; every document with a key that names a backend at the top level is refused.\<close>

lemma Parse_known: "Parse data = Inr d \<Longrightarrow> \<exists>j rest. json_decode data = Some (j, rest) \<and> known_keys j declaration_schema"
  by (auto simp: Parse_def dest: json_into_known split: option.splits if_splits)

definition declaration_tags :: "string list" where
  "declaration_tags = [''role'', ''lifecycle'', ''persona'', ''topic'', ''artifact'', ''args'', ''instructions'',
     ''capabilities'', ''wake'', ''budget'', ''inference'']"


section \<open>Witnesses\<close>

definition demo_placement :: Declaration where
  "demo_placement = \<lparr>d_Role = RoleAgent, d_Lifecycle = LifecycleService, d_Persona = ''echo'', d_Topic = ''lab.ops'',
     d_Artifact = ''file:///x'', d_Args = [''<a>'', ''b''],
     d_Instructions = Some \<lparr>ins_Topic = ''lab.soul'', ins_Artefact = ''soul''\<rparr>,
     d_Capabilities = Some \<lparr>cap_Role = ''reader'', cap_Tools = [''upper'']\<rparr>,
     d_Wake = [\<lparr>we_Kind = WakeTopic, we_Path = ''lab.ops'', we_Types = [''turn.post''], we_Name = [], we_Pattern = [],
       we_TTL = [], we_Subject = []\<rparr>],
     d_Budget = Some \<lparr>bs_MaxHops = 4, bs_Window = None\<rparr>,
     d_Inference = Some \<lparr>inf_Model = ''default''\<rparr>\<rparr>"

lemma demo_on_the_wire: "on_the_wire demo_placement"
  by (simp add: on_the_wire_def demo_placement_def decl_strings_def decl_ints_def int64_ok_def utf8_valid_ascii del: utf8_valid.simps)

theorem Parse_Marshal_witness: "Parse (Marshal demo_placement) = Inr demo_placement"
  by (rule Parse_Marshal [OF demo_on_the_wire])

theorem Parse_accepts_trailing_witness: "Parse (Marshal demo_placement @ ''} {not json'') = Inr demo_placement"
  by (rule Parse_accepts_trailing [OF demo_on_the_wire]) simp

lemma demo_placement_valid: "Declaration_Validate (\<lambda>s. s \<noteq> []) demo_placement = None"
  by code_simp

theorem Submit_DeclarationOf_witness:
  "DeclarationOf Unmarshal \<lparr>wi_ID = ''i'', wi_Status = WorkOpen, wi_Owner = [], wi_Body = submissionMarker @ Marshal demo_placement,
     wi_Timeline = []\<rparr> = Some demo_placement"
  by (rule Submit_DeclarationOf [where openWork = "\<lambda>t b. Inr ''i''" and ValidName = "\<lambda>s. s \<noteq> []", OF _ demo_on_the_wire])
    (simp_all add: Submit_def Let_def demo_placement_valid)

lemma demo_backend: "json_decode (json_print (JObj [(''Backend'', JNull)])) = Some (JObj [(''Backend'', JNull)], [])"
  using json_decode_print [of "JObj [(''Backend'', JNull)]" "[]"]
  by (simp add: json_end_def max_depth_def utf8_valid_ascii del: utf8_valid.simps)


end
