(* ===== verification/Commands.thy ===== *)
theory Commands
  imports Wrap_Harness_Run Wrap_Engine Dispatcher Backend_K8s Declaration_Json
begin

text \<open>
  The two commands, src/cmd/soulstream-workloads/main.go and src/cmd/soulstream-wrap/main.go: what they
  read from the environment, in which order they refuse to start, and how they wire the packages
  together.  \<open>process\<close> is the process around them: environment, files, the temporary directory,
  and the realm connection.  The flag package's parsing, the signals and the logging are not
  modelled.
\<close>

section \<open>The process\<close>

record realm_config =
  rc_ContextName :: string
  rc_URL :: string
  rc_CredsFile :: string
  rc_Token :: string
  rc_Realm :: string
  rc_Persona :: string

text \<open>What the commands ask a connected client: its servers, and the one it is connected to.\<close>

record connection =
  cn_Servers :: "string list"
  cn_ConnectedUrl :: string
  cn_Persona :: string

record process =
  pr_getenv :: "string \<Rightarrow> string"
  pr_readFile :: "string \<Rightarrow> string + string"
  pr_stat :: "string \<Rightarrow> string option"
  pr_tempDir :: string
  pr_connect :: "realm_config \<Rightarrow> string + connection"
  pr_kubeconfig :: "string \<Rightarrow> string option"
  pr_kubeclient :: "string \<Rightarrow> string option"

datatype cmd_error =
    Usage | ReadDeclaration string | ParseDeclaration parse_error | InvalidDeclaration decl_error
  | MissingEnv | ConnectRealm string | BadMinter mint_error
  | UnknownBackend string | K8sRegistryRequired | K8sConfig string | K8sClient string
  | LaunchFailed run_error | ServeFailed run_error
  | NotDuration string string | NotPositive string string | Knobs "cmd_error list"
  | BadTemplate load_error | BadPreset wrap_error | NoAgentCredential string string string
  | PersonaRequired | RealmRequired | ConnectionRequired | HarnessRequired | BadConfig wrap_error
  | DispatcherFailed disp_error

section \<open>Node configuration\<close>

definition scratchRoot :: "process \<Rightarrow> string" where
  "scratchRoot P = (let d = pr_getenv P ''SOULSTREAM_SCRATCH'' in
     if d \<noteq> [] then d else path_Join [pr_tempDir P, ''soulstream-workloads''])"

definition serversOf :: "connection \<Rightarrow> string list" where
  "serversOf c = (if cn_Servers c \<noteq> [] then cn_Servers c
     else if cn_ConnectedUrl c \<noteq> [] then [cn_ConnectedUrl c] else [])"

datatype backend_choice = NativeBackend | MsbBackend Msb | K8sBackend K8s

definition k8sBackendFromEnv :: "process \<Rightarrow> cmd_error + backend_choice" where
  "k8sBackendFromEnv P =
     (let registry = pr_getenv P ''SOULSTREAM_K8S_REGISTRY''; kctx = pr_getenv P ''SOULSTREAM_K8S_CONTEXT'' in
      if registry = [] then Inl K8sRegistryRequired
      else case pr_kubeconfig P kctx of Some e \<Rightarrow> Inl (K8sConfig e) | None \<Rightarrow>
      case pr_kubeclient P kctx of Some e \<Rightarrow> Inl (K8sClient e) | None \<Rightarrow>
      Inr (K8sBackend \<lparr>ks_Client = True, ks_Namespace = pr_getenv P ''SOULSTREAM_K8S_NAMESPACE'', ks_Registry = registry,
        ks_BaseImage = pr_getenv P ''SOULSTREAM_K8S_BASE_IMAGE'', ks_HostAlias = pr_getenv P ''SOULSTREAM_K8S_HOST_ALIAS''\<rparr>))"

definition selectBackend :: "process \<Rightarrow> string \<Rightarrow> string \<Rightarrow> cmd_error + backend_choice" where
  "selectBackend P name msbImage =
     (if name = [] \<or> name = ''native'' then Inr NativeBackend
      else if name = ''msb'' then Inr (MsbBackend \<lparr>mb_Image = msbImage, mb_MsbPath = [], mb_HostAlias = []\<rparr>)
      else if name = ''k8s'' then k8sBackendFromEnv P
      else Inl (UnknownBackend name))"

definition envDuration :: "process \<Rightarrow> string \<Rightarrow> cmd_error + duration" where
  "envDuration P name =
     (let raw = pr_getenv P name in
      if raw = [] then Inr 0
      else case ParseDuration raw of None \<Rightarrow> Inl (NotDuration name raw)
        | Some v \<Rightarrow> if v \<le> 0 then Inl (NotPositive name raw) else Inr v)"

definition realmConfigFromEnv :: "process \<Rightarrow> string \<Rightarrow> string \<Rightarrow> realm_config" where
  "realmConfigFromEnv P realmName persona =
     (let cfg = \<lparr>rc_ContextName = [], rc_URL = [], rc_CredsFile = [], rc_Token = [], rc_Realm = realmName, rc_Persona = persona\<rparr>;
          url = pr_getenv P ''SOULSTREAM_URL'' in
      if url \<noteq> [] then cfg\<lparr>rc_URL := url\<rparr> else cfg\<lparr>rc_ContextName := pr_getenv P ''SOULSTREAM_CONTEXT''\<rparr>)"

text \<open>\<open>LoadTemplate\<close> or a preset without persona and credential.\<close>

definition empty_lane :: Lane where
  "empty_lane = \<lparr>lane_URL = [], lane_CredsFile = [], lane_Token = [], lane_Realm = [], lane_Persona = [],
     lane_MCPCommandLoc = [], lane_MCPArgs = [], lane_MCPExtraEnv = Map.empty\<rparr>"

definition harnessTemplate :: "process \<Rightarrow> connection \<Rightarrow> cmd_error + Template" where
  "harnessTemplate P c =
     (let path = pr_getenv P ''SOULSTREAM_HARNESS_TEMPLATE'';
          name = pr_getenv P ''SOULSTREAM_HARNESS'' in
      if path \<noteq> [] then map_error BadTemplate (LoadTemplate (pr_readFile P) path)
      else map_error BadPreset (Preset (if name = [] then ''claude'' else name)
        (empty_lane\<lparr>lane_URL := cn_ConnectedUrl c, lane_Realm := pr_getenv P ''SOULSTREAM_REALM''\<rparr>)))"

text \<open>The credential lane of served agents: a file per persona.\<close>

definition agentCredsConnector :: "process \<Rightarrow> string \<Rightarrow> string \<Rightarrow> string \<Rightarrow> cmd_error + connection" where
  "agentCredsConnector P realmName dir persona =
     (let creds = path_Join [dir, persona @ ''.creds''] in
      case pr_stat P creds of Some e \<Rightarrow> Inl (NoAgentCredential persona creds e) | None \<Rightarrow>
      map_error ConnectRealm (pr_connect P ((realmConfigFromEnv P realmName persona)\<lparr>rc_CredsFile := creds\<rparr>)))"

section \<open>workload start\<close>

text \<open>\<open>sv_run\<close>: the runner's environment around a minter and a backend.\<close>

record services =
  sv_ValidName :: "string \<Rightarrow> bool"
  sv_crypto :: crypto
  sv_run :: "minter_state \<Rightarrow> backend_choice \<Rightarrow> run_env"

definition workload_runner :: "process \<Rightarrow> string \<Rightarrow> Runner" where
  "workload_runner P realmName =
     \<lparr>rn_Realm = realmName, rn_CredTTL = 24 * Hour, rn_ScratchRoot = scratchRoot P, rn_Artifacts = False\<rparr>"

definition launch_and_serve :: "process \<Rightarrow> services \<Rightarrow> string \<Rightarrow> minter_state \<Rightarrow> Declaration \<Rightarrow> cmd_error option \<times> rtrace" where
  "launch_and_serve P S realmName m d =
     (case selectBackend P (pr_getenv P ''SOULSTREAM_BACKEND'') (pr_getenv P ''SOULSTREAM_MSB_IMAGE'') of
        Inl e \<Rightarrow> (Some e, [])
      | Inr be \<Rightarrow> (case Launch (sv_ValidName S) (sv_run S m be) (workload_runner P realmName) d [] of
          (Inl e, tr) \<Rightarrow> (Some (LaunchFailed e), tr)
        | (Inr rw, tr) \<Rightarrow> apfst (map_option ServeFailed) (Serve (sv_run S m be) rw tr)))"

definition runWorkloadStart :: "process \<Rightarrow> services \<Rightarrow> string \<Rightarrow> cmd_error option \<times> rtrace" where
  "runWorkloadStart P S file =
     (case pr_readFile P file of Inl e \<Rightarrow> (Some (ReadDeclaration e), []) | Inr data \<Rightarrow>
      case Parse data of Inl e \<Rightarrow> (Some (ParseDeclaration e), []) | Inr d \<Rightarrow>
      case Declaration_Validate (sv_ValidName S) d of Some e \<Rightarrow> (Some (InvalidDeclaration e), []) | None \<Rightarrow>
      let realmName = pr_getenv P ''SOULSTREAM_REALM''; persona = pr_getenv P ''SOULSTREAM_PERSONA'';
          seed = pr_getenv P ''SOULSTREAM_REALM_SIGNING_KEY''; root = pr_getenv P ''SOULSTREAM_ROOT_ACCOUNT'' in
      if realmName = [] \<or> persona = [] \<or> seed = [] \<or> root = [] then (Some MissingEnv, [])
      else case pr_connect P \<lparr>rc_ContextName = pr_getenv P ''SOULSTREAM_CONTEXT'', rc_URL = [], rc_CredsFile = [],
          rc_Token = [], rc_Realm = realmName, rc_Persona = persona\<rparr> of Inl e \<Rightarrow> (Some (ConnectRealm e), []) | Inr c \<Rightarrow>
      case NewSigningKeyMinter (sv_crypto S) seed root (serversOf c) of Inl e \<Rightarrow> (Some (BadMinter e), []) | Inr m \<Rightarrow>
      launch_and_serve P S realmName m d)"

section \<open>dispatcher serve\<close>

text \<open>A knob that cannot be read counts as zero and its error is collected.\<close>

definition knob_errors :: "process \<Rightarrow> string list \<Rightarrow> cmd_error list" where
  "knob_errors P names = List.map_filter (\<lambda>n. case envDuration P n of Inl e \<Rightarrow> Some e | Inr _ \<Rightarrow> None) names"

definition knob :: "process \<Rightarrow> string \<Rightarrow> duration" where
  "knob P name = (case envDuration P name of Inl _ \<Rightarrow> 0 | Inr v \<Rightarrow> v)"

definition knob_names :: "string list" where
  "knob_names = [''SOULSTREAM_SWEEP_WINDOW'', ''SOULSTREAM_SWEEP_EVERY'', ''SOULSTREAM_PROBE_TIMEOUT'', ''SOULSTREAM_POLL_EVERY'']"

definition engine_template :: "process \<Rightarrow> Template \<Rightarrow> Config" where
  "engine_template P t = \<lparr>cfg_Persona = [], cfg_Template = t, cfg_Scratch = scratchRoot P, cfg_RunTimeout = 0, cfg_Retries = 0,
     cfg_InboxLimit = 0, cfg_Budget = zero_Budget, cfg_Unbudgeted = False, cfg_Wakes = None, cfg_HomeTopic = [],
     cfg_Instructions = None\<rparr>"

definition dispatcher_of :: "process \<Rightarrow> connection \<Rightarrow> Template \<Rightarrow> DispConfig" where
  "dispatcher_of P c t =
     \<lparr>dc_Node = pr_getenv P ''SOULSTREAM_PERSONA'', dc_Client = Some (cn_Persona c), dc_Placements = pr_getenv P ''SOULSTREAM_PLACEMENT_TOPIC'',
      dc_ConnectAgent = True, dc_Engine = engine_template P t, dc_EngineFor = False,
      dc_Reclaim = knob P ''SOULSTREAM_SWEEP_WINDOW'', dc_ProbeTimeout = knob P ''SOULSTREAM_PROBE_TIMEOUT'',
      dc_SweepEvery = knob P ''SOULSTREAM_SWEEP_EVERY'', dc_PollEvery = knob P ''SOULSTREAM_POLL_EVERY'',
      dc_RaceBackoff = 0, dc_DrainTimeout = 0\<rparr>"

text \<open>Up to the dispatcher's own start: its configuration and its first state.\<close>

definition runDispatcherServe :: "process \<Rightarrow> cmd_error + DispConfig \<times> disp" where
  "runDispatcherServe P =
     (let realmName = pr_getenv P ''SOULSTREAM_REALM''; node = pr_getenv P ''SOULSTREAM_PERSONA'' in
      if realmName = [] \<or> node = [] \<or> pr_getenv P ''SOULSTREAM_PLACEMENT_TOPIC'' = [] \<or> pr_getenv P ''SOULSTREAM_AGENT_CREDS_DIR'' = []
      then Inl MissingEnv
      else case pr_connect P ((realmConfigFromEnv P realmName node)\<lparr>rc_CredsFile := pr_getenv P ''SOULSTREAM_CREDS''\<rparr>) of
        Inl e \<Rightarrow> Inl (ConnectRealm e) | Inr c \<Rightarrow>
      case harnessTemplate P c of Inl e \<Rightarrow> Inl e | Inr t \<Rightarrow>
      if knob_errors P knob_names \<noteq> [] then Inl (Knobs (knob_errors P knob_names))
      else case disp_start (dispatcher_of P c t) of Inl e \<Rightarrow> Inl (DispatcherFailed e)
        | Inr s \<Rightarrow> Inr (dispatcher_of P c t, s))"

text \<open>\<open>run\<close> of soulstream-workloads: the command is chosen by the arguments.\<close>

datatype command = WorkloadStart string | DispatcherServe

definition workloads_command :: "string list \<Rightarrow> cmd_error + command" where
  "workloads_command args =
     (if length args = 3 \<and> args ! 0 = ''workload'' \<and> args ! 1 = ''start'' then Inr (WorkloadStart (args ! 2))
      else if length args = 2 \<and> args ! 0 = ''dispatcher'' \<and> args ! 1 = ''serve'' then Inr DispatcherServe
      else Inl Usage)"

section \<open>soulstream-wrap\<close>

text \<open>The parsed flags, with their defaults.\<close>

record wrap_flags =
  fl_harness :: string
  fl_template :: string
  fl_declaration :: string
  fl_scratch :: string
  fl_runTimeout :: duration
  fl_retries :: int
  fl_inboxLimit :: int

definition default_flags :: wrap_flags where
  "default_flags = \<lparr>fl_harness = [], fl_template = [], fl_declaration = [], fl_scratch = [], fl_runTimeout = 150 * Second,
     fl_retries = 2, fl_inboxLimit = 0\<rparr>"

definition lane_from_env :: "process \<Rightarrow> Lane" where
  "lane_from_env P = empty_lane\<lparr>lane_URL := pr_getenv P ''SOULSTREAM_URL'', lane_CredsFile := pr_getenv P ''SOULSTREAM_CREDS'',
     lane_Token := pr_getenv P ''SOULSTREAM_TOKEN'', lane_Realm := pr_getenv P ''SOULSTREAM_REALM'',
     lane_Persona := pr_getenv P ''SOULSTREAM_PERSONA''\<rparr>"

definition wrap_template :: "process \<Rightarrow> wrap_flags \<Rightarrow> Lane \<Rightarrow> cmd_error + Template" where
  "wrap_template P flg lane =
     (if fl_template flg \<noteq> [] then map_error BadTemplate (LoadTemplate (pr_readFile P) (fl_template flg))
      else if fl_harness flg \<noteq> [] then map_error BadPreset (Preset (fl_harness flg) lane)
      else Inl HarnessRequired)"

definition wrap_base :: "process \<Rightarrow> wrap_flags \<Rightarrow> Lane \<Rightarrow> Template \<Rightarrow> Config" where
  "wrap_base P flg lane t =
     \<lparr>cfg_Persona = lane_Persona lane, cfg_Template = t,
      cfg_Scratch = (if fl_scratch flg = [] then path_Join [pr_tempDir P, ''soulstream-wrap'', lane_Persona lane] else fl_scratch flg),
      cfg_RunTimeout = fl_runTimeout flg, cfg_Retries = fl_retries flg, cfg_InboxLimit = fl_inboxLimit flg,
      cfg_Budget = zero_Budget, cfg_Unbudgeted = False, cfg_Wakes = None, cfg_HomeTopic = [], cfg_Instructions = None\<rparr>"

definition wrap_config :: "process \<Rightarrow> services \<Rightarrow> wrap_flags \<Rightarrow> Config \<Rightarrow> cmd_error + Config" where
  "wrap_config P S flg base =
     (if fl_declaration flg = [] then Inr base
      else case pr_readFile P (fl_declaration flg) of Inl e \<Rightarrow> Inl (ReadDeclaration e) | Inr raw \<Rightarrow>
      case Parse raw of Inl e \<Rightarrow> Inl (ParseDeclaration e) | Inr d \<Rightarrow>
      map_error BadConfig (DeclaredConfig (sv_ValidName S) base d True))"

text \<open>Up to the engine's own start: the configuration it runs with.\<close>

definition runWrap :: "process \<Rightarrow> services \<Rightarrow> wrap_flags \<Rightarrow> cmd_error + Config \<times> engine" where
  "runWrap P S flg =
     (let lane = lane_from_env P; contextName = pr_getenv P ''SOULSTREAM_CONTEXT'' in
      if lane_Persona lane = [] then Inl PersonaRequired
      else if lane_Realm lane = [] then Inl RealmRequired
      else if lane_URL lane = [] \<and> contextName = [] then Inl ConnectionRequired
      else case wrap_template P flg lane of Inl e \<Rightarrow> Inl e | Inr t \<Rightarrow>
      case pr_connect P \<lparr>rc_ContextName = contextName, rc_URL = lane_URL lane, rc_CredsFile = lane_CredsFile lane,
          rc_Token = lane_Token lane, rc_Realm = lane_Realm lane, rc_Persona = lane_Persona lane\<rparr> of
        Inl e \<Rightarrow> Inl (ConnectRealm e) | Inr c \<Rightarrow>
      case wrap_config P S flg (wrap_base P flg lane t) of Inl e \<Rightarrow> Inl e | Inr cfg \<Rightarrow>
      map_error BadConfig (map_sum id (Pair cfg) (Run_start cfg [])))"

section \<open>Knobs and backends\<close>

text \<open>A liveness knob is zero when unset and otherwise a positive duration that the variable spells; a
  value that is neither refuses the start.\<close>

theorem envDuration_exact:
  "envDuration P name = Inr v \<longleftrightarrow>
     (if pr_getenv P name = [] then v = 0 else ParseDuration (pr_getenv P name) = Some v \<and> 0 < v)"
  by (auto simp: envDuration_def Let_def split: option.split)

lemma knob_errors_none: "knob_errors P names = [] \<longleftrightarrow> (\<forall>n \<in> set names. \<exists>v. envDuration P n = Inr v)"
  by (induction names) (auto simp: knob_errors_def List.map_filter_simps split: sum.split)

text \<open>A backend is chosen by one of the four known values of the node's own variable, and the
  Kubernetes one only with a registry.\<close>

theorem selectBackend_exact:
  "(\<exists>b. selectBackend P name img = Inr b) \<longleftrightarrow>
     name \<in> {[], ''native'', ''msb''} \<or>
     name = ''k8s'' \<and> pr_getenv P ''SOULSTREAM_K8S_REGISTRY'' \<noteq> [] \<and>
       pr_kubeconfig P (pr_getenv P ''SOULSTREAM_K8S_CONTEXT'') = None \<and> pr_kubeclient P (pr_getenv P ''SOULSTREAM_K8S_CONTEXT'') = None"
proof -
  have k: "(\<exists>b. k8sBackendFromEnv P = Inr b) \<longleftrightarrow> pr_getenv P ''SOULSTREAM_K8S_REGISTRY'' \<noteq> [] \<and>
       pr_kubeconfig P (pr_getenv P ''SOULSTREAM_K8S_CONTEXT'') = None \<and> pr_kubeclient P (pr_getenv P ''SOULSTREAM_K8S_CONTEXT'') = None"
    by (simp add: k8sBackendFromEnv_def Let_def split: option.split)
  consider "name = []" | "name = ''native''" | "name = ''msb''" | "name = ''k8s''"
    | "name \<notin> {[], ''native'', ''msb'', ''k8s''}" by blast
  then show ?thesis by cases (simp_all add: selectBackend_def k)
qed

section \<open>What workload start does\<close>

text \<open>An op is published only for a strictly parsed, valid declaration with its whole configuration
  present, and then the calls are those of one launch and its serving.\<close>

theorem runWorkloadStart_calls:
  assumes "runWorkloadStart P S file = (res, tr)" and "tr \<noteq> []"
  shows "\<exists>data d c m be. pr_readFile P file = Inr data \<and> Parse data = Inr d \<and> Declaration_Validate (sv_ValidName S) d = None \<and>
     pr_getenv P ''SOULSTREAM_REALM'' \<noteq> [] \<and> pr_getenv P ''SOULSTREAM_PERSONA'' \<noteq> [] \<and>
     NewSigningKeyMinter (sv_crypto S) (pr_getenv P ''SOULSTREAM_REALM_SIGNING_KEY'') (pr_getenv P ''SOULSTREAM_ROOT_ACCOUNT'')
       (serversOf c) = Inr m \<and>
     selectBackend P (pr_getenv P ''SOULSTREAM_BACKEND'') (pr_getenv P ''SOULSTREAM_MSB_IMAGE'') = Inr be \<and>
     (case Launch (sv_ValidName S) (sv_run S m be) (workload_runner P (pr_getenv P ''SOULSTREAM_REALM'')) d [] of
        (Inl e, tr1) \<Rightarrow> res = Some (LaunchFailed e) \<and> tr = tr1
      | (Inr rw, tr1) \<Rightarrow> res = map_option ServeFailed (fst (Serve (sv_run S m be) rw tr1)) \<and> tr = snd (Serve (sv_run S m be) rw tr1))"
proof -
  from assms obtain data d c m where 1: "pr_readFile P file = Inr data" "Parse data = Inr d"
      "Declaration_Validate (sv_ValidName S) d = None" "pr_getenv P ''SOULSTREAM_REALM'' \<noteq> []" "pr_getenv P ''SOULSTREAM_PERSONA'' \<noteq> []"
      "NewSigningKeyMinter (sv_crypto S) (pr_getenv P ''SOULSTREAM_REALM_SIGNING_KEY'') (pr_getenv P ''SOULSTREAM_ROOT_ACCOUNT'')
        (serversOf c) = Inr m"
      "launch_and_serve P S (pr_getenv P ''SOULSTREAM_REALM'') m d = (res, tr)"
    by (auto simp: runWorkloadStart_def Let_def split: sum.splits option.splits if_splits)
  from 1(7) assms(2) obtain be where 2:
      "selectBackend P (pr_getenv P ''SOULSTREAM_BACKEND'') (pr_getenv P ''SOULSTREAM_MSB_IMAGE'') = Inr be"
      "(case Launch (sv_ValidName S) (sv_run S m be) (workload_runner P (pr_getenv P ''SOULSTREAM_REALM'')) d [] of
        (Inl e, tr1) \<Rightarrow> res = Some (LaunchFailed e) \<and> tr = tr1
      | (Inr rw, tr1) \<Rightarrow> res = map_option ServeFailed (fst (Serve (sv_run S m be) rw tr1)) \<and> tr = snd (Serve (sv_run S m be) rw tr1))"
    by (auto simp: launch_and_serve_def apfst_def map_prod_def split: sum.splits prod.splits)
  from 1(1-6) 2 show ?thesis
    by (intro exI [of _ data] exI [of _ d] exI [of _ c] exI [of _ m] exI [of _ be] conjI)
qed

text \<open>The command wires no artifact source: a declaration whose artifact is a lineage of the record is
  refused, before anything is published.\<close>

theorem workload_start_files_only:
  assumes "pr_readFile P file = Inr data" and "Parse data = Inr d" and "HasPrefix (d_Artifact d) soulstreamPrefix"
  shows "fst (runWorkloadStart P S file) \<noteq> None \<and> snd (runWorkloadStart P S file) = []"
proof -
  have "ref_Scheme ref \<noteq> SchemeFile" if "Declaration_ArtifactRef (sv_ValidName S) d = Inr ref" for ref
    using that assms(3) by (auto simp: Declaration_ArtifactRef_def parseRecordArtifact_def split: option.splits if_splits)
  then have "\<exists>e. preflight (sv_ValidName S) (workload_runner P r) d = Inl e" for r
    by (auto simp: preflight_def workload_runner_def split: option.splits sum.splits)
  then have "\<exists>e. Launch (sv_ValidName S) E (workload_runner P r) d [] = (Inl e, [])" for E r
    by (metis (no_types, lifting) Launch_def sum.case(1))
  then have "fst (launch_and_serve P S r m d) \<noteq> None \<and> snd (launch_and_serve P S r m d) = []" for r m
    by (auto simp: launch_and_serve_def split: sum.splits prod.splits) (metis Pair_inject sum.distinct(1))+
  then show ?thesis
    using assms(1,2) by (auto simp: runWorkloadStart_def Let_def split: sum.splits option.splits)
qed

section \<open>What dispatcher serve starts\<close>

lemma LoadTemplate_ok: "LoadTemplate readFile path = Inr t \<Longrightarrow> Template_Validate t = None"
  by (auto simp: LoadTemplate_def split: sum.splits option.splits if_splits)

lemma Preset_door:
  assumes "Preset name lane = Inr t" and "lane_MCPExtraEnv lane = Map.empty"
    and "lane_Persona lane = []" and "lane_CredsFile lane = []" and "lane_Token lane = []"
  shows "tpl_MCPEnv t ''SOULSTREAM_PERSONA'' = None" "tpl_MCPEnv t ''SOULSTREAM_CREDS'' = None" "tpl_MCPEnv t ''SOULSTREAM_TOKEN'' = None"
proof -
  have "tpl_MCPEnv t = preset_env lane \<or> tpl_MCPEnv t = Map.empty"
    using assms(1) by (auto simp: Preset_def Let_def split: if_splits)
  moreover have "preset_env lane ''SOULSTREAM_PERSONA'' = None" "preset_env lane ''SOULSTREAM_CREDS'' = None"
    "preset_env lane ''SOULSTREAM_TOKEN'' = None"
    using assms(2-5) by (simp_all add: preset_env_def lane_env_def)
  ultimately show "tpl_MCPEnv t ''SOULSTREAM_PERSONA'' = None" "tpl_MCPEnv t ''SOULSTREAM_CREDS'' = None"
    "tpl_MCPEnv t ''SOULSTREAM_TOKEN'' = None" by auto
qed

text \<open>A harness template of the node is valid whatever it is read from, and the door of a preset
  carries neither a persona nor a credential.\<close>

theorem harnessTemplate_ok:
  assumes "harnessTemplate P c = Inr t"
  shows "Template_Validate t = None \<and>
     (pr_getenv P ''SOULSTREAM_HARNESS_TEMPLATE'' = [] \<longrightarrow>
        tpl_MCPEnv t ''SOULSTREAM_PERSONA'' = None \<and> tpl_MCPEnv t ''SOULSTREAM_CREDS'' = None \<and>
        tpl_MCPEnv t ''SOULSTREAM_TOKEN'' = None)"
proof (cases "pr_getenv P ''SOULSTREAM_HARNESS_TEMPLATE'' = []")
  case True
  then obtain name lane where p: "Preset name lane = Inr t" "lane_MCPExtraEnv lane = Map.empty"
      "lane_Persona lane = []" "lane_CredsFile lane = []" "lane_Token lane = []"
    using assms by (simp add: harnessTemplate_def Let_def empty_lane_def)
  show ?thesis using Preset_valid [OF p(1)] Preset_door [OF p] by simp
next
  case False
  then show ?thesis using assms LoadTemplate_ok by (auto simp: harnessTemplate_def Let_def)
qed

text \<open>A node that starts serves under its own name with nothing served, on a valid template without a
  persona of its own, with the knobs as they are set.\<close>

theorem runDispatcherServe_starts:
  assumes "runDispatcherServe P = Inr (d, s)"
  shows "Template_Validate (cfg_Template (dc_Engine d)) = None \<and> cfg_Persona (dc_Engine d) = [] \<and>
     ds_node s = pr_getenv P ''SOULSTREAM_PERSONA'' \<and> ds_node s \<noteq> [] \<and> ds_served s = fmempty \<and> ds_taking s \<and>
     envDuration P ''SOULSTREAM_SWEEP_WINDOW'' = Inr (dc_Reclaim d) \<and> envDuration P ''SOULSTREAM_PROBE_TIMEOUT'' = Inr (dc_ProbeTimeout d) \<and>
     envDuration P ''SOULSTREAM_SWEEP_EVERY'' = Inr (dc_SweepEvery d) \<and> envDuration P ''SOULSTREAM_POLL_EVERY'' = Inr (dc_PollEvery d) \<and>
     dc_ProbeTimeout d < disp_reclaimBound d"
proof -
  from assms obtain c t where r: "harnessTemplate P c = Inr t" "knob_errors P knob_names = []" "d = dispatcher_of P c t"
      "disp_start d = Inr s" "pr_getenv P ''SOULSTREAM_PERSONA'' \<noteq> []"
    by (auto simp: runDispatcherServe_def Let_def split: if_splits sum.splits)
  have k: "envDuration P n = Inr (knob P n)" if "n \<in> set knob_names" for n
    using r(2) that by (auto simp: knob_errors_none knob_def)
  have "ds_node s = pr_getenv P ''SOULSTREAM_PERSONA'' \<and> ds_served s = fmempty \<and> ds_taking s \<and> dc_ProbeTimeout d < disp_reclaimBound d"
    using r(3-5) by (auto simp: disp_start_def dispatcher_of_def Let_def split: if_splits option.splits)
  moreover have "Template_Validate t = None"
    using r(3,4) by (auto simp: disp_start_def dispatcher_of_def engine_template_def Let_def split: if_splits option.splits)
  ultimately show ?thesis
    using r(3,5) k by (simp add: dispatcher_of_def engine_template_def knob_names_def)
qed

section \<open>What soulstream-wrap runs\<close>

lemma Run_start_declared:
  assumes "DeclaredConfig VN base d True = Inr cfg" and "Template_Validate (cfg_Template base) = None"
    and "Budget_Validate (cfg_Budget base) = None"
  shows "Run_checks cfg = None"
proof -
  note res = DeclaredConfig_result [OF assms(1)]
  have "Budget_Validate (cfg_Budget cfg) = None"
    using res(5,6) assms(3) by (cases "d_Budget d") auto
  then show ?thesis
    using res(4) DeclaredConfig_template [OF assms(1,2)] by (simp add: Run_checks_def)
qed

lemma Run_start_result: "map_sum id (Pair c) (Run_start c tr) = Inr (cfg, e) \<Longrightarrow> c = cfg \<and> e_handled e = []"
  by (auto simp: Run_start_def to_result_def split: option.splits)

lemma wrap_template_ok: "wrap_template P flg lane = Inr t \<Longrightarrow> Template_Validate t = None"
  using LoadTemplate_ok Preset_valid by (auto simp: wrap_template_def split: if_splits)

lemma zero_Budget_ok: "Budget_Validate zero_Budget = None"
  by (simp add: Budget_Validate_def zero_Budget_def)

lemma wrap_config_checks:
  assumes "wrap_config P S flg (wrap_base P flg lane t) = Inr cfg" and "Template_Validate t = None"
  shows "Run_checks cfg = None"
proof (cases "fl_declaration flg = []")
  case True
  then have "cfg = wrap_base P flg lane t" using assms(1) by (simp add: wrap_config_def)
  then show ?thesis using assms(2) zero_Budget_ok by (simp add: Run_checks_def wrap_base_def WakeSet_Validate_def)
next
  case False
  then obtain d where "DeclaredConfig (sv_ValidName S) (wrap_base P flg lane t) d True = Inr cfg"
    using assms(1) by (auto simp: wrap_config_def split: sum.splits)
  then show ?thesis
    by (rule Run_start_declared) (simp_all add: wrap_base_def assms(2) zero_Budget_ok)
qed

text \<open>The wrapper starts exactly when it has an identity, a lane, a template, a connection and, when a
  declaration is given, one that it can run as this identity: the engine's own checks never
  refuse what got that far.\<close>

theorem runWrap_exact:
  "(\<exists>r. runWrap P S flg = Inr r) \<longleftrightarrow>
     pr_getenv P ''SOULSTREAM_PERSONA'' \<noteq> [] \<and> pr_getenv P ''SOULSTREAM_REALM'' \<noteq> [] \<and>
     \<not> (pr_getenv P ''SOULSTREAM_URL'' = [] \<and> pr_getenv P ''SOULSTREAM_CONTEXT'' = []) \<and>
     (\<exists>t c cfg. wrap_template P flg (lane_from_env P) = Inr t \<and>
        pr_connect P \<lparr>rc_ContextName = pr_getenv P ''SOULSTREAM_CONTEXT'', rc_URL = pr_getenv P ''SOULSTREAM_URL'',
          rc_CredsFile = pr_getenv P ''SOULSTREAM_CREDS'', rc_Token = pr_getenv P ''SOULSTREAM_TOKEN'',
          rc_Realm = pr_getenv P ''SOULSTREAM_REALM'', rc_Persona = pr_getenv P ''SOULSTREAM_PERSONA''\<rparr> = Inr c \<and>
        wrap_config P S flg (wrap_base P flg (lane_from_env P) t) = Inr cfg)"
proof -
  have start: "map_error BadConfig (map_sum id (Pair cfg) (Run_start cfg [])) =
      Inr (cfg, \<lparr>e_wakes = [], e_phase = CatchUp (catch_up_tasks (ApplyDefaults cfg)), e_reconnects = False,
        e_done = False, e_trace = [], e_handled = []\<rparr>)" if "Run_checks cfg = None" for cfg
    using that by (simp add: Run_start_def)
  show ?thesis
    using start wrap_config_checks wrap_template_ok
    by (auto simp: runWrap_def Let_def lane_from_env_def split: sum.splits)
qed

text \<open>C22. It answers as the persona of its credential and no other: with a declaration, the declaration's
  persona is that one, its wakes are the declared ones and its outcomes go to the declared topic.\<close>

theorem runWrap_identity:
  assumes "runWrap P S flg = Inr (cfg, e)"
  shows "cfg_Persona cfg = pr_getenv P ''SOULSTREAM_PERSONA'' \<and> cfg_Persona cfg \<noteq> [] \<and> Run_checks cfg = None \<and> e_handled e = [] \<and>
     (if fl_declaration flg = [] then cfg_Wakes cfg = None
      else (\<exists>raw d. pr_readFile P (fl_declaration flg) = Inr raw \<and> Parse raw = Inr d \<and>
         Declaration_Validate (sv_ValidName S) d = None \<and> d_Persona d = cfg_Persona cfg \<and>
         cfg_HomeTopic cfg = d_Topic d \<and> cfg_Wakes cfg = Some (declared_set (d_Wake d))))"
proof -
  let ?lane = "lane_from_env P"
  from assms obtain t where t: "lane_Persona ?lane \<noteq> []" "wrap_template P flg ?lane = Inr t"
      "wrap_config P S flg (wrap_base P flg ?lane t) = Inr cfg" "e_handled e = []"
    by (auto simp: runWrap_def Let_def dest!: Run_start_result split: sum.splits if_splits)
  have lane: "lane_Persona ?lane = pr_getenv P ''SOULSTREAM_PERSONA''" by (simp add: lane_from_env_def)
  have checks: "Run_checks cfg = None" by (rule wrap_config_checks [OF t(3) wrap_template_ok [OF t(2)]])
  show ?thesis
  proof (cases "fl_declaration flg = []")
    case True
    then have "cfg = wrap_base P flg ?lane t" using t(3) by (simp add: wrap_config_def)
    with True t(1,4) lane checks show ?thesis by (simp add: wrap_base_def)
  next
    case False
    then obtain raw d where d: "pr_readFile P (fl_declaration flg) = Inr raw" "Parse raw = Inr d"
        "DeclaredConfig (sv_ValidName S) (wrap_base P flg ?lane t) d True = Inr cfg"
      using t(3) by (auto simp: wrap_config_def split: sum.splits)
    note res = DeclaredConfig_result(1-3) [OF d(3)]
    have "Declaration_Validate (sv_ValidName S) d = None \<and> d_Persona d = bound_persona (wrap_base P flg ?lane t) d"
      using d(3) DeclaredConfig_accepts [of "sv_ValidName S" "wrap_base P flg ?lane t" d True] by blast
    moreover have "bound_persona (wrap_base P flg ?lane t) d = lane_Persona ?lane"
      using t(1) by (simp add: bound_persona_def wrap_base_def)
    ultimately show ?thesis
      using False t(1,4) lane checks d(1,2) res by simp
  qed
qed

section \<open>A concrete node\<close>


definition demo_process :: process where
  "demo_process = \<lparr>pr_getenv = (\<lambda>n. case map_of
       [(''SOULSTREAM_REALM'', ''r''), (''SOULSTREAM_PERSONA'', ''echo''), (''SOULSTREAM_URL'', ''nats://h''),
        (''SOULSTREAM_REALM_SIGNING_KEY'', ''SA''), (''SOULSTREAM_ROOT_ACCOUNT'', ''A''), (''SOULSTREAM_SCRATCH'', ''/s''),
        (''SOULSTREAM_PLACEMENT_TOPIC'', ''fleet''), (''SOULSTREAM_AGENT_CREDS_DIR'', ''/creds''),
        (''SOULSTREAM_SWEEP_WINDOW'', ''10m'')] n of Some v \<Rightarrow> v | None \<Rightarrow> []),
     pr_readFile = (\<lambda>_. Inr (Marshal demo_placement)), pr_stat = (\<lambda>_. None), pr_tempDir = ''/tmp'',
     pr_connect = (\<lambda>rc. Inr \<lparr>cn_Servers = [''nats://h''], cn_ConnectedUrl = ''nats://h'', cn_Persona = rc_Persona rc\<rparr>),
     pr_kubeconfig = (\<lambda>_. None), pr_kubeclient = (\<lambda>_. None)\<rparr>"

definition demo_services :: services where
  "demo_services = \<lparr>sv_ValidName = (\<lambda>s. s \<noteq> []), sv_crypto = demo_crypto, sv_run = (\<lambda>_ _. demo_run_env)\<rparr>"

lemma demo_getenv:
  "pr_getenv demo_process ''SOULSTREAM_REALM'' = ''r''" "pr_getenv demo_process ''SOULSTREAM_PERSONA'' = ''echo''"
  "pr_getenv demo_process ''SOULSTREAM_URL'' = ''nats://h''" "pr_getenv demo_process ''SOULSTREAM_REALM_SIGNING_KEY'' = ''SA''"
  "pr_getenv demo_process ''SOULSTREAM_ROOT_ACCOUNT'' = ''A''" "pr_getenv demo_process ''SOULSTREAM_SCRATCH'' = ''/s''"
  "pr_getenv demo_process ''SOULSTREAM_PLACEMENT_TOPIC'' = ''fleet''" "pr_getenv demo_process ''SOULSTREAM_AGENT_CREDS_DIR'' = ''/creds''"
  "pr_getenv demo_process ''SOULSTREAM_SWEEP_WINDOW'' = ''10m''" "pr_getenv demo_process ''SOULSTREAM_SWEEP_EVERY'' = []"
  "pr_getenv demo_process ''SOULSTREAM_PROBE_TIMEOUT'' = []" "pr_getenv demo_process ''SOULSTREAM_POLL_EVERY'' = []"
  "pr_getenv demo_process ''SOULSTREAM_HARNESS_TEMPLATE'' = []" "pr_getenv demo_process ''SOULSTREAM_HARNESS'' = []"
  "pr_getenv demo_process ''SOULSTREAM_BACKEND'' = []" "pr_getenv demo_process ''SOULSTREAM_MSB_IMAGE'' = []"
  "pr_getenv demo_process ''SOULSTREAM_CONTEXT'' = []" "pr_getenv demo_process ''SOULSTREAM_CREDS'' = []"
  by (simp_all add: demo_process_def)

lemma demo_parse: "Parse (Marshal demo_placement) = Inr demo_placement"
  using Parse_codec [OF demo_on_the_wire, of "[]"] by (simp add: json_end_def json_more_def skip_ws_def)

lemma demo_launched: "fst (Launch (\<lambda>s. s \<noteq> []) demo_run_env
    \<lparr>rn_Realm = ''r'', rn_CredTTL = 24 * Hour, rn_ScratchRoot = ''/s'', rn_Artifacts = False\<rparr> demo_placement []) =
    Inr \<lparr>rw_handle = ''h'', rw_itemID = ''i''\<rparr>"
  by code_simp

lemma demo_minter_ok: "NewSigningKeyMinter demo_crypto ''SA'' ''A'' [''nats://h''] =
    Inr \<lparr>mi_seed = ''SA'', mi_rootAccountKey = ''A'', mi_natsServers = [''nats://h'']\<rparr>"
  by code_simp

lemma demo_connect: "pr_connect demo_process rc = Inr \<lparr>cn_Servers = [''nats://h''], cn_ConnectedUrl = ''nats://h'', cn_Persona = rc_Persona rc\<rparr>"
  by (simp add: demo_process_def)

lemma demo_file: "pr_readFile demo_process f = Inr (Marshal demo_placement)"
  by (simp add: demo_process_def)

lemma demo_valid_services: "Declaration_Validate (sv_ValidName demo_services) demo_placement = None"
  using demo_placement_valid by (simp add: demo_services_def)

lemma demo_workload: "\<exists>tr. runWorkloadStart demo_process demo_services ''f'' = (None, tr) \<and> tr \<noteq> []"
proof -
  have r: "workload_runner demo_process ''r'' = \<lparr>rn_Realm = ''r'', rn_CredTTL = 24 * Hour, rn_ScratchRoot = ''/s'', rn_Artifacts = False\<rparr>"
    by (simp add: workload_runner_def scratchRoot_def demo_getenv)
  obtain tr where l: "Launch (\<lambda>s. s \<noteq> []) demo_run_env (workload_runner demo_process ''r'') demo_placement [] =
      (Inr \<lparr>rw_handle = ''h'', rw_itemID = ''i''\<rparr>, tr)"
    using demo_launched unfolding r by (metis prod.collapse)
  have "\<exists>c. Serve demo_run_env \<lparr>rw_handle = ''h'', rw_itemID = ''i''\<rparr> tr = (None, tr @ c) \<and> c \<noteq> []"
    by (simp add: Serve_def demo_run_env_def terminal_def Outcome_def Signalled_def Let_def)
  then obtain c where "Serve demo_run_env \<lparr>rw_handle = ''h'', rw_itemID = ''i''\<rparr> tr = (None, tr @ c)" "c \<noteq> []" by blast
  then have "launch_and_serve demo_process demo_services ''r'' m demo_placement = (None, tr @ c)" for m
    using l by (simp add: launch_and_serve_def demo_getenv selectBackend_def demo_services_def)
  moreover have "NewSigningKeyMinter (sv_crypto demo_services) ''SA'' ''A'' [''nats://h''] =
      Inr \<lparr>mi_seed = ''SA'', mi_rootAccountKey = ''A'', mi_natsServers = [''nats://h'']\<rparr>"
    using demo_minter_ok by (simp add: demo_services_def)
  ultimately show ?thesis
    using \<open>c \<noteq> []\<close> by (simp add: runWorkloadStart_def demo_file demo_parse demo_valid_services demo_getenv demo_connect serversOf_def Let_def)
qed

theorem runWorkloadStart_calls_witness:
  "\<exists>d. Parse (Marshal demo_placement) = Inr d \<and> Declaration_Validate (sv_ValidName demo_services) d = None"
proof -
  obtain tr where "runWorkloadStart demo_process demo_services ''f'' = (None, tr)" "tr \<noteq> []" using demo_workload by blast
  from runWorkloadStart_calls [OF this] show ?thesis by (auto simp: demo_file)
qed

definition demo_record_placement :: Declaration where
  "demo_record_placement = demo_placement\<lparr>d_Artifact := ''soulstream://lab.ops/bin''\<rparr>"

lemma demo_record_wire: "on_the_wire demo_record_placement"
  by (simp add: on_the_wire_def demo_record_placement_def demo_placement_def decl_strings_def decl_ints_def int64_ok_def
      utf8_valid_ascii del: utf8_valid.simps)

theorem workload_start_files_only_witness:
  "snd (runWorkloadStart (demo_process\<lparr>pr_readFile := (\<lambda>_. Inr (Marshal demo_record_placement))\<rparr>) demo_services ''f'') = []"
proof -
  have p: "Parse (Marshal demo_record_placement) = Inr demo_record_placement"
    using Parse_codec [OF demo_record_wire, of "[]"] by (simp add: json_end_def json_more_def skip_ws_def)
  have h: "HasPrefix (d_Artifact demo_record_placement) soulstreamPrefix"
    by (simp add: demo_record_placement_def HasPrefix_def soulstreamPrefix_def)
  have f: "pr_readFile (demo_process\<lparr>pr_readFile := (\<lambda>_. Inr (Marshal demo_record_placement))\<rparr>) ''f'' = Inr (Marshal demo_record_placement)"
    by simp
  from workload_start_files_only [OF f p h] show ?thesis by blast
qed

abbreviation demo_connection :: connection where
  "demo_connection \<equiv> \<lparr>cn_Servers = [''nats://h''], cn_ConnectedUrl = ''nats://h'', cn_Persona = ''echo''\<rparr>"

lemma demo_harness_template: "\<exists>t. harnessTemplate demo_process demo_connection = Inr t"
  by (simp add: harnessTemplate_def demo_getenv Preset_def)

theorem harnessTemplate_ok_witness:
  "\<exists>t. harnessTemplate demo_process demo_connection = Inr t \<and> tpl_MCPEnv t ''SOULSTREAM_PERSONA'' = None"
proof -
  obtain t where t: "harnessTemplate demo_process demo_connection = Inr t" using demo_harness_template by blast
  from harnessTemplate_ok [OF t] t show ?thesis by (simp add: demo_getenv)
qed

lemma demo_knobs: "envDuration demo_process ''SOULSTREAM_SWEEP_WINDOW'' = Inr 600000000000"
  using ParseDuration_10m by (simp add: envDuration_def demo_getenv)

lemma demo_serve: "\<exists>d s. runDispatcherServe demo_process = Inr (d, s)"
proof -
  obtain t where t: "harnessTemplate demo_process demo_connection = Inr t" using demo_harness_template by blast
  then obtain name lane where "Preset name lane = Inr t" by (auto simp: harnessTemplate_def demo_getenv Let_def)
  then have v: "Template_Validate t = None" by (rule Preset_valid)
  have k: "envDuration demo_process ''SOULSTREAM_SWEEP_EVERY'' = Inr 0" "envDuration demo_process ''SOULSTREAM_PROBE_TIMEOUT'' = Inr 0"
    "envDuration demo_process ''SOULSTREAM_POLL_EVERY'' = Inr 0"
    by (simp_all add: envDuration_def demo_getenv)
  have "knob_errors demo_process knob_names = []"
    using demo_knobs k by (simp add: knob_errors_none knob_names_def)
  then show ?thesis
    using t v demo_knobs k
    by (simp add: runDispatcherServe_def Let_def demo_getenv demo_connect realmConfigFromEnv_def dispatcher_of_def disp_start_def
        engine_template_def knob_def disp_reclaimBound_def scratchRoot_def)
qed

theorem runDispatcherServe_starts_witness:
  "\<exists>d s. runDispatcherServe demo_process = Inr (d, s) \<and> ds_node s = ''echo'' \<and> dc_Reclaim d = 600000000000"
proof -
  obtain d s where r: "runDispatcherServe demo_process = Inr (d, s)" using demo_serve by blast
  from runDispatcherServe_starts [OF r] r demo_knobs show ?thesis by (auto simp: demo_getenv)
qed

abbreviation demo_flags :: wrap_flags where
  "demo_flags \<equiv> default_flags\<lparr>fl_declaration := ''f'', fl_harness := ''codex''\<rparr>"

lemma demo_declared: "\<exists>cfg. DeclaredConfig (\<lambda>s. s \<noteq> []) (wrap_base demo_process demo_flags (lane_from_env demo_process) t) demo_placement True = Inr cfg"
proof -
  have "d_Role demo_placement = RoleAgent" "d_Wake demo_placement \<noteq> []" "replayable_topics (d_Wake demo_placement)"
    by (simp_all add: demo_placement_def replayable_topics_def EffectiveTypes_def replayableTypes_def)
  moreover have "d_Persona demo_placement = bound_persona (wrap_base demo_process demo_flags (lane_from_env demo_process) t) demo_placement"
    by (simp add: bound_persona_def wrap_base_def lane_from_env_def demo_getenv demo_placement_def)
  ultimately show ?thesis using DeclaredConfig_accepts demo_placement_valid by blast
qed

lemma demo_wrap: "\<exists>cfg e. runWrap demo_process demo_services demo_flags = Inr (cfg, e)"
proof -
  have "\<exists>t. wrap_template demo_process demo_flags (lane_from_env demo_process) = Inr t"
    by (simp add: wrap_template_def default_flags_def Preset_def)
  then obtain t where t: "wrap_template demo_process demo_flags (lane_from_env demo_process) = Inr t" by blast
  obtain cfg where "DeclaredConfig (\<lambda>s. s \<noteq> []) (wrap_base demo_process demo_flags (lane_from_env demo_process) t) demo_placement True = Inr cfg"
    using demo_declared by blast
  then have c: "wrap_config demo_process demo_services demo_flags (wrap_base demo_process demo_flags (lane_from_env demo_process) t) = Inr cfg"
    by (simp add: wrap_config_def demo_file demo_parse demo_services_def)
  have "lane_Persona (lane_from_env demo_process) \<noteq> []" "lane_Realm (lane_from_env demo_process) \<noteq> []" "lane_URL (lane_from_env demo_process) \<noteq> []"
    by (simp_all add: lane_from_env_def demo_getenv)
  then show ?thesis
    using t c wrap_config_checks [OF c wrap_template_ok [OF t]] by (simp add: runWrap_def demo_connect Run_start_def Let_def)
qed

theorem runWrap_identity_witness:
  "\<exists>cfg e. runWrap demo_process demo_services demo_flags = Inr (cfg, e) \<and> cfg_Persona cfg = ''echo''"
proof -
  obtain cfg e where r: "runWrap demo_process demo_services demo_flags = Inr (cfg, e)" using demo_wrap by blast
  from runWrap_identity [OF r] r show ?thesis by (auto simp: demo_getenv)
qed


end
