(* ===== verification/Claim_Log.thy ===== *)
theory Claim_Log
  imports Dispatcher
begin

text \<open>
  Nodes together.  Fleet nodes (src/fleet/fleet.go) and dispatchers (src/dispatcher/dispatcher.go) share
  nothing but the placement topic: each reads views of the same log of work ops, at moments of its
  own.  How ops fold into work items is the core library's business: \<open>fold_items\<close> is a parameter, and
  \<open>claim_arbiter\<close> states what the nodes rely on, as the source's comments have it: the first claim
  in stream order wins, the rest fold void, until an abandon or a done ends it.
\<close>

section \<open>The log\<close>

datatype work_op = OpOpen string string | OpClaim string string | OpAbandon string string | OpDone string string

text \<open>The second argument is the author, or the body of an opened item.\<close>

fun ends :: "string \<Rightarrow> work_op \<Rightarrow> bool" where
  "ends i (OpAbandon j who) \<longleftrightarrow> j = i"
| "ends i (OpDone j who) \<longleftrightarrow> j = i"
| "ends i _ \<longleftrightarrow> False"

definition owned_by :: "WorkItem list \<Rightarrow> string \<Rightarrow> string \<Rightarrow> bool" where
  "owned_by items i n \<longleftrightarrow> list_ex (\<lambda>item. wi_ID item = i \<and> wi_Owner item = n) items"

definition claim_arbiter :: "(work_op list \<Rightarrow> WorkItem list) \<Rightarrow> bool" where
  "claim_arbiter fold_items \<longleftrightarrow> (\<forall>xs.
     distinct (map wi_ID (fold_items xs)) \<and>
     (\<forall>op i n. owned_by (fold_items xs) i n \<longrightarrow> n \<noteq> [] \<longrightarrow> \<not> ends i op \<longrightarrow> owned_by (fold_items (xs @ [op])) i n))"

definition views_of :: "(work_op list \<Rightarrow> WorkItem list) \<Rightarrow> work_op list \<Rightarrow> WorkItem list set \<Rightarrow> bool" where
  "views_of fold_items lg V \<longleftrightarrow> (\<forall>items \<in> V. \<exists>k. items = fold_items (take k lg))"

lemma owned_by_unique:
  assumes "distinct (map wi_ID items)" and "owned_by items i n" and "owned_by items i m"
  shows "n = m"
proof -
  obtain a b where "a \<in> set items" "wi_ID a = i" "wi_Owner a = n" "b \<in> set items" "wi_ID b = i" "wi_Owner b = m"
    using assms(2,3) by (auto simp: owned_by_def list_ex_iff)
  with assms(1) show ?thesis by (auto simp: distinct_map dest: inj_onD)
qed

lemma owner_kept:
  assumes "claim_arbiter fold_items" and "owned_by (fold_items (take k lg)) i n" and "n \<noteq> []"
    and "k \<le> l" and "\<forall>j. k \<le> j \<and> j < l \<and> j < length lg \<longrightarrow> \<not> ends i (lg ! j)"
  shows "owned_by (fold_items (take l lg)) i n"
  using assms(4,5)
proof (induction l rule: dec_induct)
  case base
  then show ?case using assms(2) by simp
next
  case (step l)
  then have o: "owned_by (fold_items (take l lg)) i n" by auto
  show ?case
  proof (cases "l < length lg")
    case True
    then have "\<not> ends i (lg ! l)" using step by auto
    with assms(1,3) o have "owned_by (fold_items (take l lg @ [lg ! l])) i n" by (auto simp: claim_arbiter_def)
    with True show ?thesis by (simp add: take_Suc_conv_app_nth)
  qed (use o in simp)
qed

text \<open>Two owners in two views: an op between the views ended the earlier one's claim.\<close>

definition ended_between :: "work_op list \<Rightarrow> string \<Rightarrow> nat \<Rightarrow> nat \<Rightarrow> bool" where
  "ended_between lg i k l \<longleftrightarrow> (\<exists>j. min k l \<le> j \<and> j < max k l \<and> j < length lg \<and> ends i (lg ! j))"

lemma two_owners:
  assumes "claim_arbiter F" and "owned_by (F (take k lg)) i n" and "owned_by (F (take l lg)) i m"
    and "n \<noteq> []" and "m \<noteq> []" and "n \<noteq> m"
  shows "ended_between lg i k l"
proof -
  have main: False
    if "k \<le> l" "owned_by (F (take k lg)) i n" "owned_by (F (take l lg)) i m" "n \<noteq> []" "n \<noteq> m"
      "\<forall>j. k \<le> j \<and> j < l \<and> j < length lg \<longrightarrow> \<not> ends i (lg ! j)" for k l n m
    using owner_kept [OF assms(1) that(2,4,1,6)] that(3,5) owned_by_unique assms(1) by (metis claim_arbiter_def)
  show ?thesis
  proof (rule ccontr)
    assume no: "\<not> ended_between lg i k l"
    show False
    proof (cases "k \<le> l")
      case True
      with no main [OF True assms(2,3,4,6)] show ?thesis by (auto simp: ended_between_def min_def max_def)
    next
      case False
      then have "l \<le> k" by simp
      with no main [OF this assms(3,2,5) assms(6) [symmetric]] show ?thesis
        by (auto simp: ended_between_def min_def max_def split: if_splits)
    qed
  qed
qed

section \<open>Who runs a placement\<close>

text \<open>A fleet node that called \<open>Launch\<close> for the placement, in a \<open>TryPlace\<close> whose views are views of
  the log.\<close>

definition fleet_runs :: "(string \<Rightarrow> bool) \<Rightarrow> (string \<Rightarrow> Declaration option) \<Rightarrow> (work_op list \<Rightarrow> WorkItem list)
    \<Rightarrow> work_op list \<Rightarrow> string \<Rightarrow> string \<Rightarrow> bool" where
  "fleet_runs VN decode F lg n i \<longleftrightarrow> (\<exists>E node tr r node' ext d res.
     TryPlace VN decode E node i tr = (r, node', tr @ ext) \<and> nd_ID node = n \<and>
     FLaunch d res \<in> set ext \<and> views_of F lg {items. FMaterialise (Inr items) \<in> set ext})"

lemma fleet_runsI:
  "TryPlace VN decode E node i tr = (r, node', tr @ ext) \<Longrightarrow> FLaunch d res \<in> set ext \<Longrightarrow>
     views_of F lg {items. FMaterialise (Inr items) \<in> set ext} \<Longrightarrow> fleet_runs VN decode F lg (nd_ID node) i"
  unfolding fleet_runs_def by blast

text \<open>A dispatcher whose loop ever brought up an engine for it.\<close>

definition engine_runs :: "(string \<Rightarrow> bool) \<Rightarrow> (string \<Rightarrow> Declaration option) \<Rightarrow> (work_op list \<Rightarrow> WorkItem list)
    \<Rightarrow> work_op list \<Rightarrow> string \<Rightarrow> string \<Rightarrow> bool" where
  "engine_runs VN decode F lg n i \<longleftrightarrow> (\<exists>d E G l c cfg.
     reach (Run_up d) (disp_step VN decode d E G) l \<and> interferes d E \<and> ds_node (lp_state l) = n \<and>
     (i, c, cfg) \<in> set (engines (lp_trace l)) \<and> views_of F lg {items. DMaterialise (Inr items) \<in> set (lp_trace l)})"

lemma fleet_owner:
  assumes "fleet_runs VN decode F lg n i"
  shows "\<exists>k. owned_by (F (take k lg)) i n"
proof -
  from assms obtain E node tr r node' ext d res where t: "TryPlace VN decode E node i tr = (r, node', tr @ ext)" "nd_ID node = n"
      "FLaunch d res \<in> set ext" "views_of F lg {items. FMaterialise (Inr items) \<in> set ext}"
    by (auto simp: fleet_runs_def)
  have story: "place_story decode node i r node' ext"
    using TryPlace_story_lemma [of VN decode E node i tr] t(1) by auto
  have "list_ex touches ext" using t(3) by (force simp: list_ex_iff)
  then obtain d' pre where "won decode node i d' pre" "set pre \<subseteq> set ext"
    using story t(3)
    by (cases r; cases "projl r") (auto simp: place_story_def, (blast | fastforce)+)
  then obtain items item where "FMaterialise (Inr items) \<in> set ext" "findItem items i = Some item" "wi_Owner item = n"
    using t(2) by (fastforce simp: won_def)
  moreover from this obtain k where "items = F (take k lg)" using t(4) by (auto simp: views_of_def)
  ultimately show ?thesis
    using findItem_Some by (fastforce simp: owned_by_def list_ex_iff)
qed

lemma engine_owner:
  assumes "engine_runs VN decode F lg n i"
  shows "\<exists>k. owned_by (F (take k lg)) i n"
proof -
  from assms obtain d E G l c cfg where e: "reach (Run_up d) (disp_step VN decode d E G) l" "interferes d E" "ds_node (lp_state l) = n"
      "(i, c, cfg) \<in> set (engines (lp_trace l))" "views_of F lg {items. DMaterialise (Inr items) \<in> set (lp_trace l)}"
    by (auto simp: engine_runs_def)
  obtain s0 where "pass_ok VN decode d E {} s0 (lp_state l) (lp_trace l)"
    using dispatcher.reach_inv [OF e(1)] by (auto simp: loop_inv_def)
  with e(2-4) have "justified VN decode n (seen (lp_trace l)) (i, c, cfg)"
    by (auto simp: pass_ok_def list_all_iff)
  then obtain items item where "DMaterialise (Inr items) \<in> set (lp_trace l)" "item \<in> set items" "wi_ID item = i" "wi_Owner item = n"
    by (auto simp: justified_def seen_def)
  moreover from this obtain k where "items = F (take k lg)" using e(5) by (auto simp: views_of_def)
  ultimately show ?thesis by (fastforce simp: owned_by_def list_ex_iff)
qed

text \<open>C4. One runner per claim.  Whatever the timing: if two nodes, of either kind, run the same placement,
  each read a view naming it the owner, and between the two views the log has an abandon or a done of
  that placement.  While nobody ends the claim, nobody else starts the workload.\<close>

theorem one_runner_per_claim:
  assumes "claim_arbiter F" and "n \<noteq> []" and "m \<noteq> []" and "n \<noteq> m"
    and "fleet_runs VN decode F lg n i \<or> engine_runs VN decode F lg n i"
    and "fleet_runs VN decode F lg m i \<or> engine_runs VN decode F lg m i"
  shows "\<exists>k l. owned_by (F (take k lg)) i n \<and> owned_by (F (take l lg)) i m \<and> ended_between lg i k l"
proof -
  obtain k where "owned_by (F (take k lg)) i n" using assms(5) fleet_owner engine_owner by blast
  moreover obtain l where "owned_by (F (take l lg)) i m" using assms(6) fleet_owner engine_owner by blast
  ultimately show ?thesis using two_owners [OF assms(1) _ _ assms(2-4)] by blast
qed

section \<open>A concrete log\<close>

text \<open>First claim wins: a claim of an open item gives it its owner, any other claim does nothing.\<close>

definition on_item :: "string \<Rightarrow> WorkStatus \<Rightarrow> (WorkItem \<Rightarrow> WorkItem) \<Rightarrow> WorkItem list \<Rightarrow> WorkItem list" where
  "on_item i st f items = map (\<lambda>it. if wi_ID it = i \<and> wi_Status it = st then f it else it) items"

fun apply_op :: "WorkItem list \<Rightarrow> work_op \<Rightarrow> WorkItem list" where
  "apply_op items (OpOpen i body) =
     (if i \<in> wi_ID ` set items then items
      else items @ [\<lparr>wi_ID = i, wi_Status = WorkOpen, wi_Owner = [], wi_Body = body, wi_Timeline = []\<rparr>])"
| "apply_op items (OpClaim i n) = on_item i WorkOpen (\<lambda>it. it\<lparr>wi_Status := WorkClaimed, wi_Owner := n\<rparr>) items"
| "apply_op items (OpAbandon i n) = on_item i WorkClaimed (\<lambda>it. it\<lparr>wi_Status := WorkOpen, wi_Owner := []\<rparr>) items"
| "apply_op items (OpDone i n) = on_item i WorkClaimed (\<lambda>it. it\<lparr>wi_Status := WorkOther ''done'', wi_Owner := []\<rparr>) items"

definition first_claim :: "work_op list \<Rightarrow> WorkItem list" where
  "first_claim xs = foldl apply_op [] xs"

definition log_ok :: "WorkItem list \<Rightarrow> bool" where
  "log_ok items \<longleftrightarrow> distinct (map wi_ID items) \<and> list_all (\<lambda>it. wi_Status it = WorkOpen \<longrightarrow> wi_Owner it = []) items"

lemma on_item_ids: "(\<And>it. wi_ID (f it) = wi_ID it) \<Longrightarrow> map wi_ID (on_item i st f items) = map wi_ID items"
  by (simp add: on_item_def)

lemma apply_op_ok: "log_ok items \<Longrightarrow> log_ok (apply_op items op)"
  by (cases op) (auto simp: log_ok_def on_item_ids, auto simp: on_item_def list_all_iff)

lemma first_claim_ok: "log_ok (first_claim xs)"
proof (induction xs rule: rev_induct)
  case (snoc op xs)
  then show ?case by (simp add: first_claim_def apply_op_ok)
qed (simp add: first_claim_def log_ok_def)

lemma on_item_other: "it \<in> set items \<Longrightarrow> \<not> (wi_ID it = j \<and> wi_Status it = st) \<Longrightarrow> it \<in> set (on_item j st f items)"
  by (force simp: on_item_def)

lemma apply_op_keeps:
  assumes "log_ok items" and "owned_by items i n" and "n \<noteq> []" and "\<not> ends i op"
  shows "owned_by (apply_op items op) i n"
proof -
  obtain it where it: "it \<in> set items" "wi_ID it = i" "wi_Owner it = n"
    using assms(2) by (auto simp: owned_by_def list_ex_iff)
  then have "wi_Status it \<noteq> WorkOpen" using assms(1,3) by (auto simp: log_ok_def list_all_iff)
  then have "it \<in> set (apply_op items op)"
    using it assms(4) by (cases op) (auto intro: on_item_other)
  with it(2,3) show ?thesis by (auto simp: owned_by_def list_ex_iff)
qed

lemma first_claim_arbiter: "claim_arbiter first_claim"
  using first_claim_ok apply_op_keeps by (auto simp: claim_arbiter_def first_claim_def log_ok_def)

text \<open>Two nodes race for one placement after the other, with an abandon in between.\<close>

definition demo_ops :: "work_op list" where
  "demo_ops = [OpOpen ''i'' submissionMarker, OpClaim ''i'' ''a'', OpAbandon ''i'' ''c'', OpClaim ''i'' ''b'']"

definition demo_racer :: "nat \<Rightarrow> fleet_env" where
  "demo_racer k = demo_fleet_env\<lparr>fl_Materialise := (\<lambda>tr. Inr (first_claim (take (if tr = [] then k else k + 1) demo_ops)))\<rparr>"

definition demo_runs_node :: "string \<Rightarrow> Node" where
  "demo_runs_node n = (demo_node n)\<lparr>nd_Runner := Some demo_runner\<rparr>"

lemma demo_race:
  fixes k :: nat
  assumes "n = ''a'' \<and> k = 1 \<or> n = ''b'' \<and> k = 3"
  shows "fleet_runs kebab (\<lambda>_. Some demo_decl) first_claim demo_ops n ''i''"
proof -
  let ?E = "demo_racer k" and ?F = "first_claim"
  let ?v1 = "?F (take k demo_ops)" and ?v2 = "?F (take (k + 1) demo_ops)"
  have m: "fl_Materialise ?E tr = Inr (if tr = [] then ?v1 else ?v2)" for tr by (simp add: demo_racer_def)
  have c: "fl_Claim ?E tr ''i'' = None" for tr by (simp add: demo_racer_def demo_fleet_env_def)
  have v: "\<exists>it. findItem ?v1 ''i'' = Some it \<and> wi_Status it = WorkOpen \<and> wi_Body it = submissionMarker"
    "\<exists>it. findItem ?v2 ''i'' = Some it \<and> wi_Owner it = n"
    using assms by (auto simp: demo_ops_def first_claim_def on_item_def findItem_def)
  then obtain it1 it2 where i1: "findItem ?v1 ''i'' = Some it1" "wi_Status it1 = WorkOpen" "wi_Body it1 = submissionMarker"
    and i2: "findItem ?v2 ''i'' = Some it2" "wi_Owner it2 = n" by blast
  have d: "DeclarationOf (\<lambda>_. Some demo_decl) it1 = Some demo_decl"
    using CutPrefix_append [of submissionMarker "[]"] by (simp add: DeclarationOf_def i1(3))
  let ?pre = "[FMaterialise (Inr ?v1), FClaim ''i'' None, FMaterialise (Inr ?v2)]"
  have "TryPlace kebab (\<lambda>_. Some demo_decl) ?E (demo_runs_node n) ''i'' [] =
      launch_won kebab ?E (demo_runs_node n) ''i'' demo_decl ?pre"
    using i1 i2 d by (simp add: TryPlace_def m c Let_def demo_runs_node_def demo_node_def)
  moreover have "\<exists>r node' res ext. launch_won kebab ?E (demo_runs_node n) ''i'' demo_decl ?pre = (r, node', ?pre @ FLaunch demo_decl res # ext) \<and>
      list_all (\<lambda>x. case x of FAbandon _ _ \<Rightarrow> True | _ \<Rightarrow> False) ext"
    by (auto simp: launch_won_def demo_runs_node_def demo_node_def Let_def split: sum.split option.split)
  ultimately obtain r node' res ext where t: "TryPlace kebab (\<lambda>_. Some demo_decl) ?E (demo_runs_node n) ''i'' [] =
      (r, node', [] @ ?pre @ FLaunch demo_decl res # ext)" "list_all (\<lambda>x. case x of FAbandon _ _ \<Rightarrow> True | _ \<Rightarrow> False) ext"
    by auto
  have "views_of ?F demo_ops {items. FMaterialise (Inr items) \<in> set (?pre @ FLaunch demo_decl res # ext)}"
    using t(2) by (auto simp: views_of_def list_all_iff)
  from fleet_runsI [OF t(1) _ this] show ?thesis
    by (auto simp: demo_runs_node_def demo_node_def)
qed

theorem one_runner_per_claim_witness: "\<exists>k l. ended_between demo_ops ''i'' k l"
  using one_runner_per_claim [OF first_claim_arbiter, of "''a''" "''b''" kebab "\<lambda>_. Some demo_decl" demo_ops "''i''"]
    demo_race [of "''a''" 1] demo_race [of "''b''" 3] by blast

end
