(* ===== verification/Wrap_Setup.thy ===== *)
theory Wrap_Setup
  imports Wrap_Engine Wrap_Harness_Run Artifact "HOL-Library.Multiset"
begin

text \<open>
  What \<open>Wrapper.Run\<close> (src/wrap/wrap.go) sets up before its loop, and with what: the subscriptions of
  the declared sources, the schedules and their tick consumer (src/wrap/sources.go), the decoding of
  a notify, the realm behind \<open>handleWake\<close>, and the record-backed instructions
  (src/wrap/instructions.go).  The connection's answers are \<open>setup_env\<close>.
\<close>

section \<open>Notifies\<close>

text \<open>\<open>mentionType\<close> is \<open>topic.TypeMentionNotify\<close>; \<open>decode\<close> unmarshals the payload type of the core
  library.\<close>

datatype notify_error = NotMention string | BadPayload string

definition parseNotify :: "string \<Rightarrow> (string \<Rightarrow> string + NotifyPayload) \<Rightarrow> string \<Rightarrow> string \<Rightarrow> notify_error + NotifyPayload" where
  "parseNotify mentionType decode headerType payload =
     (if headerType \<noteq> mentionType then Inl (NotMention headerType) else map_error BadPayload (decode payload))"

text \<open>The callback of the notify subscription: the wake it tries to enqueue.\<close>

definition notify_wake :: "string \<Rightarrow> (string \<Rightarrow> string + NotifyPayload) \<Rightarrow> string \<Rightarrow> string \<Rightarrow> Wake option" where
  "notify_wake mentionType decode headerType payload =
     (case parseNotify mentionType decode headerType payload of Inl _ \<Rightarrow> None | Inr n \<Rightarrow> Some (mention_wake n))"

section \<open>Ticks\<close>

text \<open>What the iterator answers: an error, a message without metadata, or a tick with its sequence.\<close>

datatype tick_answer = NextFailed string | NoMetadata string | Tick nat string

text \<open>The reading goroutine: the wakes it sends, in order, for the iterator's answers.  The result of
  a send is ignored.\<close>

fun tick_loop :: "string \<Rightarrow> tick_answer list \<Rightarrow> Wake list" where
  "tick_loop homeTopic [] = []"
| "tick_loop homeTopic (NextFailed e # rest) = []"
| "tick_loop homeTopic (NoMetadata e # rest) = tick_loop homeTopic rest"
| "tick_loop homeTopic (Tick n d # rest) = tick_wake homeTopic n d # tick_loop homeTopic rest"

datatype setup_error =
    SubscribeNotify string | SubscribeTopic string string | SubscribeSubject string string
  | Reconcile schedule_error | TickSubject string | NoSystemStream string | TickConsumer string | ConsumeTicks string

datatype setup_call =
    SSubscribe string "string option"
  | SUnsubscribe string
  | SRegister schedule_msg
  | SConsume "string list"

text \<open>\<open>su_Notify\<close>, \<open>su_Ops\<close>, \<open>su_Sched\<close>, \<open>su_Tick\<close> are the core library's subjects; \<open>su_Subscribe\<close> is
  what subscribing answers after the calls made so far, \<open>su_Publish\<close> what publishing a registration
  answers; the last three are the steps to a tick consumer on the given subjects.\<close>

record setup_env =
  su_Notify :: "string \<Rightarrow> string"
  su_Ops :: "string \<Rightarrow> string"
  su_Sched :: "string \<Rightarrow> string \<Rightarrow> string + string"
  su_Tick :: "string \<Rightarrow> string \<Rightarrow> string + string"
  su_Quote :: "string \<Rightarrow> string"
  su_Subscribe :: "setup_call list \<Rightarrow> string \<Rightarrow> string option"
  su_Publish :: "schedule_msg list \<Rightarrow> schedule_msg \<Rightarrow> string option"
  su_Stream :: "string option"
  su_Consumer :: "string list \<Rightarrow> string option"
  su_Messages :: "string option"

fun tick_subjects :: "(string \<Rightarrow> string \<Rightarrow> string + string) \<Rightarrow> string \<Rightarrow> ScheduleWake list \<Rightarrow> string list
    \<Rightarrow> setup_error + string list" where
  "tick_subjects tick persona [] acc = Inr acc"
| "tick_subjects tick persona (s # rest) acc =
     (case tick persona (sw_Name s) of Inl e \<Rightarrow> Inl (TickSubject e)
      | Inr t \<Rightarrow> tick_subjects tick persona rest (acc @ [t]))"

definition consumeTicks :: "setup_env \<Rightarrow> string \<Rightarrow> ScheduleWake list \<Rightarrow> setup_error option \<times> setup_call list" where
  "consumeTicks E persona entries =
     (case tick_subjects (su_Tick E) persona entries [] of Inl e \<Rightarrow> (Some e, []) | Inr subjects \<Rightarrow>
      case su_Stream E of Some e \<Rightarrow> (Some (NoSystemStream e), []) | None \<Rightarrow>
      case su_Consumer E subjects of Some e \<Rightarrow> (Some (TickConsumer e), []) | None \<Rightarrow>
      case su_Messages E of Some e \<Rightarrow> (Some (ConsumeTicks e), []) | None \<Rightarrow> (None, [SConsume subjects]))"

section \<open>The setup of Run\<close>

text \<open>The subscriptions in the order of the code, each with the error it is wrapped in: the notify
  subject when mentions are on, then the topics' op subjects, then the declared subjects.\<close>

definition wanted :: "setup_env \<Rightarrow> Config \<Rightarrow> (string \<times> (string \<Rightarrow> setup_error)) list" where
  "wanted E cfg =
     (if mentionOn cfg then [(su_Notify E (cfg_Persona cfg), SubscribeNotify)] else []) @
     map (\<lambda>tw. (su_Ops E (tw_Path tw), SubscribeTopic (tw_Path tw))) (topics_of cfg) @
     map (\<lambda>sw. (sj_Subject sw, SubscribeSubject (sj_Subject sw))) (subjects_of cfg)"

fun subscribe_all :: "setup_env \<Rightarrow> (string \<times> (string \<Rightarrow> setup_error)) list \<Rightarrow> string list \<Rightarrow> setup_call list
    \<Rightarrow> setup_error option \<times> string list \<times> setup_call list" where
  "subscribe_all E [] subs tr = (None, subs, tr)"
| "subscribe_all E ((subj, err) # rest) subs tr =
     (let r = su_Subscribe E tr subj; tr1 = tr @ [SSubscribe subj r] in
      case r of Some e \<Rightarrow> (Some (err e), subs, tr1)
      | None \<Rightarrow> subscribe_all E rest (subs @ [subj]) tr1)"

text \<open>The deferred calls of a return: the subscriptions made, last first.\<close>

definition deferred :: "string list \<Rightarrow> setup_call list" where
  "deferred subs = map SUnsubscribe (rev subs)"

text \<open>Up to the first catch-up: an error with everything undone, or the subjects subscribed.\<close>

definition Run_setup :: "setup_env \<Rightarrow> Config \<Rightarrow> (setup_error + string list) \<times> setup_call list" where
  "Run_setup E cfg =
     (case subscribe_all E (wanted E cfg) [] [] of
        (Some e, subs, tr) \<Rightarrow> (Inl e, tr @ deferred subs)
      | (None, subs, tr) \<Rightarrow>
          if schedules_of cfg = [] then (Inr subs, tr)
          else case reconcileSchedules (su_Quote E) (su_Sched E) (su_Tick E) (su_Publish E) (cfg_Persona cfg) (schedules_of cfg) [] of
            (Some e, regs) \<Rightarrow> (Inl (Reconcile e), tr @ map SRegister regs @ deferred subs)
          | (None, regs) \<Rightarrow> (case consumeTicks E (cfg_Persona cfg) (schedules_of cfg) of
              (Some e, calls) \<Rightarrow> (Inl e, tr @ map SRegister regs @ calls @ deferred subs)
            | (None, calls) \<Rightarrow> (Inr subs, tr @ map SRegister regs @ calls)))"

section \<open>The realm, the harness and the instructions of one wake\<close>

text \<open>A contribution of a materialised topic view, a type of the core library.\<close>

record contribution =
  co_OpID :: string
  co_Author :: string
  co_Type :: string
  co_Body :: string
  co_Timestamp :: time

definition turn_of :: "contribution \<Rightarrow> Turn" where
  "turn_of c = \<lparr>t_OpID = co_OpID c, t_Author = co_Author c, t_Type = co_Type c, t_Body = co_Body c, t_Timestamp = co_Timestamp c\<rparr>"

text \<open>\<open>ag_Materialise\<close> and \<open>ag_Post\<close> are the client's topic handle at a point of the trace, \<open>ag_fetcher\<close> its
  view for \<open>artifact.Fetch\<close>, \<open>ag_harness\<close> the host a run meets.\<close>

record 'v agent =
  ag_Materialise :: "trace \<Rightarrow> string \<Rightarrow> string + contribution list"
  ag_Post :: "trace \<Rightarrow> string \<Rightarrow> string \<Rightarrow> string list \<Rightarrow> string \<Rightarrow> string + string"
  ag_Now :: "trace \<Rightarrow> time"
  ag_Delay :: "trace \<Rightarrow> string option"
  ag_order :: "trace \<Rightarrow> (string \<times> string) list \<Rightarrow> (string \<times> string) list"
  ag_fetcher :: "trace \<Rightarrow> 'v fetcher"
  ag_errtext :: "artifact_error \<Rightarrow> string"
  ag_harness :: "trace \<Rightarrow> harness_env"

definition agentRealm_Read :: "(string \<Rightarrow> string + contribution list) \<Rightarrow> string \<Rightarrow> string + Turn list" where
  "agentRealm_Read view topicPath = (case view topicPath of Inl e \<Rightarrow> Inl e | Inr cs \<Rightarrow> Inr (map turn_of cs))"

definition Materialise :: "'v fetcher \<Rightarrow> recordInstructions \<Rightarrow> artifact_error + string" where
  "Materialise F r = (case Fetch F (ri_topic r) (ri_artefact r) of Inl e \<Rightarrow> Inl e | Inr (data, _) \<Rightarrow> Inr data)"

text \<open>The world of \<open>handleWake\<close> as \<open>Run\<close> wires it, with \<open>RunHarness\<close> as the invoker.\<close>

definition agent_env :: "'v agent \<Rightarrow> env" where
  "agent_env A =
     \<lparr>env_Read = (\<lambda>tr. agentRealm_Read (ag_Materialise A tr)), env_Now = ag_Now A,
      env_Materialise = (\<lambda>tr r. map_error (ag_errtext A) (Materialise (ag_fetcher A tr) r)),
      env_Invoke = (\<lambda>tr spec. the (fst (RunHarness (ag_harness A tr) spec))),
      env_Post = ag_Post A, env_Delay = ag_Delay A, env_order = ag_order A\<rparr>"

section \<open>What a setup leaves behind\<close>

text \<open>The subscriptions that are still there after some calls.\<close>

fun live_subs :: "setup_call list \<Rightarrow> string multiset \<Rightarrow> string multiset" where
  "live_subs [] m = m"
| "live_subs (SSubscribe s None # tr) m = live_subs tr (add_mset s m)"
| "live_subs (SUnsubscribe s # tr) m = live_subs tr (m - {#s#})"
| "live_subs (_ # tr) m = live_subs tr m"

definition registered :: "setup_call list \<Rightarrow> schedule_msg list" where
  "registered tr = List.map_filter (\<lambda>c. case c of SRegister m \<Rightarrow> Some m | _ \<Rightarrow> None) tr"

definition consumed :: "setup_call list \<Rightarrow> string list list" where
  "consumed tr = List.map_filter (\<lambda>c. case c of SConsume ss \<Rightarrow> Some ss | _ \<Rightarrow> None) tr"

lemma live_subs_append: "live_subs (a @ b) m = live_subs b (live_subs a m)"
  by (induction a m rule: live_subs.induct) auto

lemma live_subs_registers [simp]: "live_subs (map SRegister regs) m = m"
  by (induction regs) auto

lemma live_subs_deferred: "live_subs (deferred subs) (mset subs) = {#}"
proof -
  have "live_subs (map SUnsubscribe xs) (mset xs) = {#}" for xs by (induction xs) auto
  from this [of "rev subs"] show ?thesis by (simp add: deferred_def)
qed

lemma calls_append [simp]:
  "registered (a @ b) = registered a @ registered b" "consumed (a @ b) = consumed a @ consumed b"
  by (simp_all add: registered_def consumed_def List.map_filter_def)

lemma calls_registers [simp]: "registered (map SRegister regs) = regs" "consumed (map SRegister regs) = []"
  by (induction regs) (simp_all add: registered_def consumed_def List.map_filter_simps)

lemma calls_Cons [simp]:
  "registered [] = []" "consumed [] = []"
  "registered [SSubscribe s r] = []" "consumed [SSubscribe s r] = []"
  "registered [SConsume ss] = []" "consumed [SConsume ss] = [ss]"
  by (simp_all add: registered_def consumed_def List.map_filter_simps)

lemma subscribe_all_spec:
  assumes "live_subs tr {#} = mset subs"
  shows "\<exists>err subs' ext. subscribe_all E ws subs tr = (err, subs', tr @ ext) \<and>
     live_subs (tr @ ext) {#} = mset subs' \<and> registered ext = [] \<and> consumed ext = [] \<and>
     (err = None \<longrightarrow> subs' = subs @ map fst ws)"
  using assms
proof (induction E ws subs tr rule: subscribe_all.induct)
  case (2 E subj err rest subs tr)
  let ?r = "su_Subscribe E tr subj"
  show ?case
  proof (cases ?r)
    case (Some e)
    with 2(2) show ?thesis by (auto simp: live_subs_append)
  next
    case None
    then have l: "live_subs (tr @ [SSubscribe subj None]) {#} = mset (subs @ [subj])"
      using 2(2) by (simp add: live_subs_append)
    from 2(1) [OF refl _ None] None l obtain err' subs' ext where
      "subscribe_all E rest (subs @ [subj]) (tr @ [SSubscribe subj None]) = (err', subs', (tr @ [SSubscribe subj None]) @ ext)"
      "live_subs ((tr @ [SSubscribe subj None]) @ ext) {#} = mset subs'" "registered ext = []" "consumed ext = []"
      "err' = None \<longrightarrow> subs' = (subs @ [subj]) @ map fst rest" by force
    with None show ?thesis
      by (intro exI [of _ err'] exI [of _ subs'] exI [of _ "SSubscribe subj None # ext"])
         (auto simp: Let_def registered_def consumed_def List.map_filter_simps)
  qed
qed simp

lemma tick_subjects_spec:
  "tick_subjects tick persona ss acc = Inr ts \<longleftrightarrow>
     (\<exists>us. ts = acc @ us \<and> list_all2 (\<lambda>s u. tick persona (sw_Name s) = Inr u) ss us)"
proof (induction ss arbitrary: acc)
  case (Cons s ss)
  then show ?case
    by (cases "tick persona (sw_Name s)") (auto simp: list_all2_Cons1)
qed auto


section \<open>Ticks are delivered once each\<close>

definition sequences :: "tick_answer list \<Rightarrow> nat list" where
  "sequences as = List.map_filter (\<lambda>a. case a of Tick n d \<Rightarrow> Some n | _ \<Rightarrow> None)
     (takeWhile (\<lambda>a. case a of NextFailed e \<Rightarrow> False | _ \<Rightarrow> True) as)"

lemma tick_loop_ids: "map w_OpID (tick_loop homeTopic as) = map decimal_nat (sequences as)"
  by (induction homeTopic as rule: tick_loop.induct)
     (simp_all add: sequences_def List.map_filter_simps tick_wake_def)

text \<open>Ticks with different sequence numbers are different triggers: each has an outcome of its own.\<close>

theorem ticks_distinct:
  "distinct (map w_OpID (tick_loop homeTopic as)) \<longleftrightarrow> distinct (sequences as)"
  unfolding tick_loop_ids by (simp add: distinct_map inj_on_def decimal_nat_inj)

section \<open>The answer of an agent\<close>

text \<open>A run in a trace is a run of the configured template, answered by the invoker.\<close>

definition invoked :: "env \<Rightarrow> Config \<Rightarrow> RunSpec \<times> HarnessResult \<Rightarrow> bool" where
  "invoked E cfg x \<longleftrightarrow> rs_Template (fst x) = cfg_Template cfg \<and> (\<exists>tr. snd x = env_Invoke E tr (fst x))"

lemma self_report_runs: "runs (snd (self_report E cfg w wakeID detail tr)) = runs tr"
  by (simp add: self_report_def Let_def split: sum.split)

lemma attempts_invoked:
  "list_all (invoked E cfg) (runs tr) \<Longrightarrow>
     list_all (invoked E cfg) (runs (snd (attempts E cfg w wakeID prompt left k before detail tr)))"
proof (induction left arbitrary: k before detail tr)
  case 0
  then show ?case by (simp add: self_report_runs)
next
  case (Suc left)
  let ?spec = "run_spec cfg w wakeID prompt k"
  have i: "invoked E cfg (?spec, env_Invoke E tr ?spec)" by (auto simp: invoked_def run_spec_def)
  show ?case
    using Suc.prems i
    by (auto simp: Let_def self_report_runs intro!: Suc.IH split: sum.split option.split)
qed

lemma handleWake_invoked:
  "list_all (invoked E cfg) (runs tr) \<Longrightarrow> list_all (invoked E cfg) (runs (snd (handleWake uuid5 E cfg w tr)))"
  by (simp add: handleWake_def gate_def materialise_def Let_def attempts_invoked split: sum.split option.split prod.split)

lemma handleWake_replied:
  assumes "handleWake uuid5 E cfg w [] = (Inr Answered, tr)" and "posts tr \<noteq> []"
  shows "replied w (wake_id uuid5 cfg w) tr"
proof (cases rule: handleWake_stages [of uuid5 E cfg w "[]"])
  case (stop r ext)
  with assms stopped_pure [OF stop(2)] show ?thesis by simp
next
  case (attempt r before pre ext)
  note pure = admission_pure [OF attempt(3)]
  then have "replied w (wake_id uuid5 cfg w) ext \<or> self_posted cfg (before # views ext) ext"
    using attempt(1,4) assms(1) by (auto simp: attempts_contract_def)
  then show ?thesis
    using pure attempt(1) assms by (auto simp: self_posted_def replied_def)
qed

lemma RunHarness_answer:
  assumes "fst (RunHarness H spec) = Some out" and "hr_OK out"
  shows "\<exists>s. hv_events H = Inr s \<and>
     (let r = extractTerminal (hv_quoted H) (tpl_Terminal (rs_Template spec)) (Inr s) in hr_OK r \<and> hr_Text r = hr_Text out)"
proof -
  have "out = conclude H spec (launch_of H spec)"
    using assms by (auto simp: RunHarness_def run_child_def writeMCPConfig_def Let_def split: option.splits prod.splits if_splits)
  with assms(2) show ?thesis
    by (cases "hv_events H") (auto simp: conclude_def extractTerminal_def Let_def split: if_splits option.splits)
qed

lemma extract_answer:
  "hr_OK (extractTerminal quoted m (Inr s)) \<Longrightarrow>
     (let ts = filter (is_terminal m) (stream_events s) in ts \<noteq> [] \<and> succeeded m (last ts) \<and>
        event_text m (last ts) = hr_Text (extractTerminal quoted m (Inr s)) \<and>
        \<not> blank (hr_Text (extractTerminal quoted m (Inr s))))"
  by (auto simp: extractTerminal_def last_terminal_eq classify_def succeeded_def Let_def
      split: if_splits option.splits json.splits)


section \<open>A concrete agent\<close>

definition pong_event :: json where
  "pong_event = JObj [(''t'', JStr ''r''), (''x'', JStr ''pong'')]"

definition pong_stream :: string where
  "pong_stream = json_print pong_event @ newline"

definition demo_agent :: "unit agent" where
  "demo_agent = \<lparr>ag_Materialise = (\<lambda>tr t. Inr [\<lparr>co_OpID = ''op1'', co_Author = ''ann'', co_Type = ''turn.post'', co_Body = ''hi'', co_Timestamp = 0\<rparr>]),
     ag_Post = (\<lambda>tr t b m i. Inr i), ag_Now = (\<lambda>tr. 1000), ag_Delay = (\<lambda>tr. None), ag_order = (\<lambda>tr vs. vs),
     ag_fetcher = (\<lambda>tr. \<lparr>fe_Materialise = (\<lambda>_. Inr ()), fe_FindArtefact = (\<lambda>_ _. Inl ''none''), fe_GetAttachment = (\<lambda>_. Inl ''none''),
       fe_VerifyDigest = (\<lambda>_ _. False)\<rparr>),
     ag_errtext = (\<lambda>_. ''e''),
     ag_harness = (\<lambda>tr. \<lparr>hv_mkdir = (\<lambda>_. None), hv_write = (\<lambda>_ _. None), hv_create = (\<lambda>_. None), hv_environ = [],
       hv_fill_order = (\<lambda>_ vs. vs), hv_env_order = (\<lambda>_. []), hv_mcp_entries = None, hv_start = (\<lambda>_. None), hv_wait = (\<lambda>_. None),
       hv_expired = False, hv_elapsed = 0, hv_events = Inr pong_stream, hv_quoted = (\<lambda>_. [])\<rparr>)\<rparr>"

lemma end_of_stream: "json_stream [] = []"
  by code_simp

lemma pong_events: "stream_events pong_stream = [pong_event]"
proof -
  have "event_ok pong_event \<and> json_plain pong_event \<and> int (json_depth pong_event) \<le> max_depth"
    by (simp add: pong_event_def event_ok_def max_depth_def utf8_valid_ascii del: utf8_valid.simps)
  then show ?thesis
    using json_stream_lines [of "[pong_event]" "[]"] end_of_stream by (simp add: stream_events_def pong_stream_def)
qed

abbreviation free_config :: Config where
  "free_config \<equiv> demo_config\<lparr>cfg_Unbudgeted := True\<rparr>"

lemma pong_result:
  "extractTerminal q (tpl_Terminal (cfg_Template demo_config)) (Inr pong_stream) = \<lparr>hr_Text = ''pong'', hr_OK = True, hr_Detail = []\<rparr>"
proof -
  have "last_terminal (tpl_Terminal (cfg_Template demo_config)) [pong_event] = Some pong_event"
    "classify q (tpl_Terminal (cfg_Template demo_config)) pong_event = \<lparr>hr_Text = ''pong'', hr_OK = True, hr_Detail = []\<rparr>"
    by code_simp+
  then show ?thesis by (simp add: extractTerminal_def pong_events)
qed

lemma demo_invoke:
  assumes "rs_Template spec = cfg_Template demo_config"
  shows "hr_OK (env_Invoke (agent_env demo_agent) tr spec) \<and> hr_Text (env_Invoke (agent_env demo_agent) tr spec) = ''pong''"
proof -
  have c: "tpl_MCPCommand (rs_Template spec) = []" "tpl_Command (rs_Template spec) \<noteq> []"
    using assms by (simp_all add: demo_config_def)
  have "extractTerminal q (tpl_Terminal (rs_Template spec)) (Inr pong_stream) = \<lparr>hr_Text = ''pong'', hr_OK = True, hr_Detail = []\<rparr>" for q
    using pong_result assms by simp
  with c show ?thesis
    by (simp add: agent_env_def demo_agent_def RunHarness_def run_child_def conclude_def Let_def)
qed

lemma demo_agent_answers:
  obtains tr i res where "handleWake demo_uuid (agent_env demo_agent) free_config demo_wake [] = (Inr Answered, tr)"
    "posts tr = [(''t'', ''pong'', [], i, res)]"
proof -
  let ?E = "agent_env demo_agent"
  let ?v = "[\<lparr>t_OpID = ''op1'', t_Author = ''ann'', t_Type = ''turn.post'', t_Body = ''hi'', t_Timestamp = 0\<rparr>]"
  have read: "env_Read ?E tr t = Inr ?v" for tr t
    by (simp add: agent_env_def demo_agent_def agentRealm_Read_def turn_of_def)
  have post: "env_Post ?E tr t b m i = Inr i" for tr t b m i by (simp add: agent_env_def demo_agent_def)
  have n: "nat (cfg_Retries demo_config) = Suc (Suc 0)" by (simp add: demo_config_def)
  have inv: "hr_OK (env_Invoke ?E tr (run_spec free_config demo_wake i p k)) \<and> hr_Text (env_Invoke ?E tr (run_spec free_config demo_wake i p k)) = ''pong''"
    for tr i p k by (rule demo_invoke) (simp add: run_spec_def)
  have none: "PostedDuringRun ?v ?v p = None" for p by (simp add: PostedDuringRun_def)
  have a: "\<exists>tr' res. attempts ?E free_config demo_wake i p (Suc 1) 1 ?v [] tr = (Inr Answered, tr') \<and>
      posts tr' = posts tr @ [(''t'', ''pong'', [], i, res)]" for i p tr
    by (simp add: read post inv none Let_def demo_wake_def [THEN arg_cong [where f = w_Topic]])
  have s: "\<not> is_self free_config demo_wake" "cfg_Instructions free_config = None" "w_Topic demo_wake = ''t''"
    "\<not> ContainsOp ?v (WakeOpID demo_uuid (w_OpID demo_wake) (cfg_Persona free_config))"
    by (simp_all add: is_self_def demo_config_def demo_wake_def ContainsOp_def WakeOpID_def demo_uuid_def)
  have "\<exists>i p tr. handleWake demo_uuid ?E free_config demo_wake [] = attempts ?E free_config demo_wake i p (Suc 1) 1 ?v [] tr \<and> posts tr = []"
    using s by (simp add: handleWake_def read gate_def materialise_def n Let_def del: attempts.simps)
       (intro exI conjI, rule refl, simp)
  then obtain i p tr where "handleWake demo_uuid ?E free_config demo_wake [] = attempts ?E free_config demo_wake i p (Suc 1) 1 ?v [] tr"
    "posts tr = []" by blast
  with a [of i p tr] that show thesis by auto
qed


end
