(* ===== verification/Dispatcher_Run.thy ===== *)
theory Dispatcher_Run
  imports Claim_Log Wrap_Setup
begin

text \<open>
  \<open>Run\<close> of the dispatcher (src/dispatcher/dispatcher.go) up to its loop: the checks, the probe
  subscription, the watch on the placement topic and the flush, each undone by a later failure; and the
  first state of the loop modelled in \<open>Dispatcher\<close>.
\<close>

datatype disp_run_error = StartRefused disp_error | ProbeSub string | WatchTopic string string | FlushSubs string

text \<open>\<open>subscribe\<close> answers after the calls made so far, \<open>flush\<close> is the answer to the flush, \<open>ops_subject\<close> is
  \<open>topic.OpsSubject\<close>.  The deferred unsubscriptions run last first.\<close>

definition watch_topics :: "(setup_call list \<Rightarrow> string \<Rightarrow> string option) \<Rightarrow> string option \<Rightarrow> string \<Rightarrow> string \<Rightarrow> string
    \<Rightarrow> disp_run_error option \<times> setup_call list" where
  "watch_topics subscribe flush placements probe ops_subj =
     (let r1 = subscribe [] probe; c1 = SSubscribe probe r1 in
      case r1 of Some e \<Rightarrow> (Some (ProbeSub e), [c1]) | None \<Rightarrow>
      let r2 = subscribe [c1] ops_subj; c2 = SSubscribe ops_subj r2 in
      case r2 of Some e \<Rightarrow> (Some (WatchTopic placements e), [c1, c2, SUnsubscribe probe]) | None \<Rightarrow>
      case flush of Some e \<Rightarrow> (Some (FlushSubs e), [c1, c2, SUnsubscribe ops_subj, SUnsubscribe probe])
      | None \<Rightarrow> (None, [c1, c2]))"

definition disp_Run :: "(setup_call list \<Rightarrow> string \<Rightarrow> string option) \<Rightarrow> string option \<Rightarrow> (string \<Rightarrow> string) \<Rightarrow> DispConfig
    \<Rightarrow> (disp_run_error + dloop) \<times> setup_call list" where
  "disp_Run subscribe flush ops_subject d =
     (case disp_start d of Inl e \<Rightarrow> (Inl (StartRefused e), [])
      | Inr s \<Rightarrow> (case watch_topics subscribe flush (dc_Placements d) (ProbeSubject (ds_node s)) (ops_subject (dc_Placements d)) of
          (Some e, calls) \<Rightarrow> (Inl e, calls)
        | (None, calls) \<Rightarrow>
            (Inr \<lparr>lp_state = s, lp_poke = True, lp_trace = [], lp_sweeps = [], lp_result = None\<rparr>, calls)))"

text \<open>A \<open>Run\<close> that fails leaves no subscription; one that gets to its loop answers probes where its peers
  will ask the owner of its claims, watches the placement topic, and starts from a state whose every
  reachable successor the theorems of \<open>Dispatcher\<close> cover.\<close>

theorem disp_Run_story:
  "case disp_Run subscribe flush ops_subject d of
     (Inl e, calls) \<Rightarrow> live_subs calls {#} = {#}
   | (Inr l, calls) \<Rightarrow> Run_up d l \<and>
       live_subs calls {#} = {#ProbeSubject (ds_node (lp_state l)), ops_subject (dc_Placements d)#}"
  by (auto simp: disp_Run_def watch_topics_def Run_up_def Let_def split: sum.split option.split)

text \<open>The end of \<open>Run\<close>: the drain under its own timeout.  \<open>takes i\<close> is how long the engine of a placement
  needs to finish once it is cancelled, none when it never does.\<close>

definition drainOnStop :: "DispConfig \<Rightarrow> (string \<Rightarrow> duration option) \<Rightarrow> disp \<Rightarrow> nat option \<times> disp" where
  "drainOnStop d takes s = Drain (\<lambda>i. case takes i of Some t \<Rightarrow> t < drainTimeout d | None \<Rightarrow> False) s"

lemma drainOnStop_step:
  "lp_result l = None \<Longrightarrow> drainOnStop d takes (lp_state l) = (r, s) \<Longrightarrow>
     disp_step VN decode d E F l (l\<lparr>lp_state := s, lp_result := Some r\<rparr>)"
  unfolding drainOnStop_def by (rule disp_step.stopped)

text \<open>A dispatcher seen by a peer's sweep: it answers as a fleet node that owns what it serves.\<close>

definition as_node :: "disp \<Rightarrow> Node" where
  "as_node s = \<lparr>nd_ID = ds_node s, nd_Runner = None, nd_Reclaim = 0, nd_ProbeTimeout = 0,
     nd_owned = Some (fset (fmdom (ds_served s))), nd_sub = True\<rparr>"

lemma as_node_ID [simp]: "nd_ID (as_node s) = ds_node s"
  by (simp add: as_node_def)

lemma as_node_answers: "answer (as_node s) i = answerProbe s i" "owns (as_node s) i \<longleftrightarrow> engine_of s i \<noteq> None"
  by (auto simp: answer_def answerProbe_def owns_def as_node_def fmlookup_dom_iff)

text \<open>C18. A sweep never takes a placement from a dispatcher that serves it and answers its probes, however old
  the claim is.\<close>

theorem serving_dispatcher_vetoes:
  assumes "\<forall>tr i t. fl_Request E tr (ProbeSubject (ds_node s)) i t = Inr (answerProbe s i)"
    and "fl_Materialise E tr = Inr items" and "distinct (map wi_ID items)"
    and "item \<in> set items" and "wi_Owner item = ds_node s" and "engine_of s (wi_ID item) \<noteq> None"
    and "Sweep decode E n tr = (out, e, tr')"
  shows "wi_ID item \<notin> set out"
proof (rule live_owner_vetoes [OF _ assms(2-4) _ _ assms(7), of "as_node s"])
  show "\<forall>tr i t. fl_Request E tr (ProbeSubject (nd_ID (as_node s))) i t = Inr (answer (as_node s) i)"
    using assms(1) by (simp add: as_node_answers)
  show "wi_Owner item = nd_ID (as_node s)" using assms(5) by simp
  show "owns (as_node s) (wi_ID item)" using assms(6) by (simp add: as_node_answers)
qed

text \<open>End to end: an engine that any such dispatcher ever brings up runs alone, as long as nobody ends its
  claim.\<close>

lemma started_engine_alone:
  assumes "disp_Run subscribe flush ops_subject d = (Inr l0, calls)" and "(disp_step VN decode d E G)\<^sup>*\<^sup>* l0 l" and "interferes d E"
    and "(i, c, cfg) \<in> set (engines (lp_trace l))" and "views_of F lg {items. DMaterialise (Inr items) \<in> set (lp_trace l)}"
  shows "engine_runs VN decode F lg (ds_node (lp_state l)) i"
proof -
  have "Run_up d l0" using disp_Run_def assms(1)
    by (auto simp: disp_Run_def Run_up_def split: sum.splits prod.splits option.splits)
  then have "reach (Run_up d) (disp_step VN decode d E G) l"
    using assms(2) by (meson reach_init reach_steps)
  with assms(3-5) show ?thesis unfolding engine_runs_def by blast
qed

section \<open>A concrete peer\<close>

theorem serving_dispatcher_vetoes_witness:
  "''i'' \<notin> set (fst (Sweep (\<lambda>_. Some demo_decl)
     (demo_fleet_env\<lparr>fl_Materialise := (\<lambda>_. Inr [demo_item\<lparr>wi_Owner := ''n''\<rparr>]), fl_Request := (\<lambda>_ subj i _. Inr (answerProbe (lp_state demo_serving) i))\<rparr>)
     (demo_node ''m'') []))"
proof -
  let ?E = "demo_fleet_env\<lparr>fl_Materialise := (\<lambda>_. Inr [demo_item\<lparr>wi_Owner := ''n''\<rparr>]), fl_Request := (\<lambda>_ subj i _. Inr (answerProbe (lp_state demo_serving) i))\<rparr>"
  have n: "ds_node (lp_state demo_serving) = ''n''" by code_simp
  obtain out e tr' where S: "Sweep (\<lambda>_. Some demo_decl) ?E (demo_node ''m'') [] = (out, e, tr')" by (metis prod_cases3)
  have "wi_ID (demo_item\<lparr>wi_Owner := ''n''\<rparr>) \<notin> set out"
    by (rule serving_dispatcher_vetoes [OF _ _ _ _ _ _ S, of "lp_state demo_serving" "[demo_item\<lparr>wi_Owner := ''n''\<rparr>]"])
       (simp_all add: n demo_served(2) demo_item_def)
  with S show ?thesis by (simp add: demo_item_def)
qed

end
