(* ===== verification/Samples.thy ===== *)
theory Samples
  imports Backend_K8s Wrap_Harness_Run
begin

text \<open>
  The sample workloads and the mock harness: src/cmd/agent-echo, src/cmd/tool-upper,
  src/cmd/scope-probe and src/cmd/harness-mock.  They are small, and they are where the contracts
  of the other packages are consumed: the environment a backend gives, the scope a minter grants,
  the event grammars a template maps.  Connections and the realm are environments of answers.
\<close>

section \<open>agent-echo\<close>

record sample_env =
  sm_getenv :: "string \<Rightarrow> string"
  sm_connect :: "string \<Rightarrow> string option \<Rightarrow> string option"
  sm_client :: "string \<Rightarrow> string \<Rightarrow> string option"
  sm_post :: "string \<Rightarrow> string \<Rightarrow> string option"
  sm_subscribe :: "string \<Rightarrow> string option"
  sm_flush :: "string option"

datatype sample_error = SampleEnv | SampleConnect string | SampleClient string | SamplePost string
  | SampleSubscribe string string | SampleFlush string

datatype sample_call = PConnect string "string option" | PClient string string | PPost string string
  | PSubscribe string | PFlush | PDrain | PClientClose | PClose

definition first_server :: "string \<Rightarrow> string" where
  "first_server servers = hd (split_on CHR '','' servers)"

definition creds_opt :: "string \<Rightarrow> string option" where
  "creds_opt creds = (if creds \<noteq> [] then Some creds else None)"

definition agent_echo :: "sample_env \<Rightarrow> sample_error option \<times> sample_call list" where
  "agent_echo E =
     (let servers = sm_getenv E ''SOULSTREAM_NATS_SERVERS''; creds = sm_getenv E ''SOULSTREAM_NATS_CREDS'';
          realmName = sm_getenv E ''SOULSTREAM_REALM''; persona = sm_getenv E ''SOULSTREAM_PERSONA'';
          topicPath = sm_getenv E ''SOULSTREAM_TOPIC'' in
      if servers = [] \<or> realmName = [] \<or> persona = [] \<or> topicPath = [] then (Some SampleEnv, [])
      else let c1 = PConnect (first_server servers) (creds_opt creds) in
      case sm_connect E (first_server servers) (creds_opt creds) of Some e \<Rightarrow> (Some (SampleConnect e), [c1]) | None \<Rightarrow>
      case sm_client E realmName persona of Some e \<Rightarrow> (Some (SampleClient e), [c1, PClient realmName persona, PClose]) | None \<Rightarrow>
      let body = ''hello from '' @ persona in
      (map_option SamplePost (sm_post E topicPath body),
       [c1, PClient realmName persona, PPost topicPath body, PClientClose, PClose]))"

section \<open>tool-upper\<close>

text \<open>\<open>strings.ToUpper\<close>: the ASCII letters directly; with other runes in the string, rune by rune, where
  \<open>upper\<close> is \<open>unicode.ToUpper\<close> followed by the encoding for the runes that are not ASCII.\<close>

definition upper_ascii :: "char \<Rightarrow> char" where
  "upper_ascii c = (if 97 \<le> byte c \<and> byte c \<le> 122 then char_of (byte c - 32) else c)"

definition ToUpper :: "(nat \<Rightarrow> string) \<Rightarrow> string \<Rightarrow> string" where
  "ToUpper upper s =
     (if list_all (\<lambda>c. byte c < 0x80) s then map upper_ascii s
      else concat (map (\<lambda>r. if r < 0x80 then [upper_ascii (char_of r)] else upper r) (runes s)))"

text \<open>The startup, and the reply to one request.  The last part of a successful run is the wait for the
  signal and the drain.\<close>

definition tool_upper :: "sample_env \<Rightarrow> sample_error option \<times> sample_call list" where
  "tool_upper E =
     (let servers = sm_getenv E ''SOULSTREAM_NATS_SERVERS''; creds = sm_getenv E ''SOULSTREAM_NATS_CREDS'';
          persona = sm_getenv E ''SOULSTREAM_PERSONA'' in
      if servers = [] \<or> persona = [] then (Some SampleEnv, [])
      else let c1 = PConnect (first_server servers) (creds_opt creds); subject = ''SOULSTREAM.SVC.'' @ persona in
      case sm_connect E (first_server servers) (creds_opt creds) of Some e \<Rightarrow> (Some (SampleConnect e), [c1]) | None \<Rightarrow>
      case sm_subscribe E subject of Some e \<Rightarrow> (Some (SampleSubscribe subject e), [c1, PSubscribe subject, PDrain]) | None \<Rightarrow>
      (map_option SampleFlush (sm_flush E), [c1, PSubscribe subject, PFlush, PDrain]))"

definition tool_reply :: "(nat \<Rightarrow> string) \<Rightarrow> string \<Rightarrow> string" where
  "tool_reply upper payload = ToUpper upper payload"

section \<open>scope-probe\<close>

text \<open>What the probe is answered: errors of the connection, the two publishes and the two flushes, and the
  first violation reported in each of the two waiting times.\<close>

record probe_env =
  pb_connect :: "string option"
  pb_in_publish :: "string option"
  pb_in_flush :: "string option"
  pb_in_violation :: "string option"
  pb_out_publish :: "string option"
  pb_out_flush :: "string option"
  pb_out_violation :: "string option"

text \<open>\<open>strings.Contains(strings.ToLower(e), "permission")\<close>, on the runes.\<close>

definition permission_denied :: "string \<Rightarrow> bool" where
  "permission_denied e \<longleftrightarrow> sublist (map of_char ''permission'') (map lower_rune (runes e))"

definition scope_probe :: "probe_env \<Rightarrow> nat" where
  "scope_probe E =
     (if pb_connect E \<noteq> None then 1
      else if pb_in_publish E \<noteq> None then 2
      else if pb_in_flush E \<noteq> None then 2
      else if pb_in_violation E \<noteq> None then 2
      else if pb_out_publish E \<noteq> None then 3
      else if pb_out_flush E \<noteq> None then 0
      else case pb_out_violation E of Some e \<Rightarrow> if permission_denied e then 0 else 3 | None \<Rightarrow> 3)"

section \<open>harness-mock\<close>

text \<open>\<open>fmt\<close>'s verb \<open>%q\<close> is \<open>strconv.Quote\<close>; \<open>isPrint\<close> tells which runes beyond ASCII are printed as they
  are.\<close>

primrec hex_digits :: "nat \<Rightarrow> nat \<Rightarrow> string" where
  "hex_digits 0 n = []"
| "hex_digits (Suc k) n = hex_digits k (n div 16) @ [hex_lower (n mod 16)]"

definition quote_byte :: "char \<Rightarrow> string" where
  "quote_byte c =
     (if c = quot \<or> c = bslash then [bslash, c]
      else if 0x20 \<le> byte c \<and> byte c < 0x7F then [c]
      else if byte c = 7 then bslash # ''a'' else if byte c = 8 then bslash # ''b''
      else if byte c = 12 then bslash # ''f'' else if byte c = 10 then bslash # ''n''
      else if byte c = 13 then bslash # ''r'' else if byte c = 9 then bslash # ''t''
      else if byte c = 11 then bslash # ''v'' else bslash # ''x'' @ hex_digits 2 (byte c))"

function quote_escape :: "(nat \<Rightarrow> bool) \<Rightarrow> string \<Rightarrow> string" where
  "quote_escape isPrint [] = []"
| "quote_escape isPrint (c # cs) =
     (let (r, w) = decode_rune c cs in
      (if byte c < 0x80 then quote_byte c
       else if r = rune_error \<and> w = 1 then bslash # ''x'' @ hex_digits 2 (byte c)
       else if isPrint r then c # take (w - 1) cs
       else if r < 0x10000 then bslash # ''u'' @ hex_digits 4 r else bslash # ''U'' @ hex_digits 8 r)
      @ quote_escape isPrint (drop (w - 1) cs))"
  by pat_completeness auto
termination
  by (relation "measure (length \<circ> snd)") auto

definition go_quote :: "(nat \<Rightarrow> bool) \<Rightarrow> string \<Rightarrow> string" where
  "go_quote isPrint s = quot # quote_escape isPrint s @ [quot]"

abbreviation println :: "string \<Rightarrow> string" where
  "println s \<equiv> s @ newline"

definition narrate :: "string \<Rightarrow> string" where
  "narrate grammar =
     (if grammar = ''codex'' then
        println ''{\"workdir\":\"/\",\"provider\":\"mock\",\"model\":\"harness-mock\"}'' @
        println ''{\"id\":\"1\",\"msg\":{\"type\":\"task_started\"}}'' @
        println ''{\"id\":\"1\",\"msg\":{\"type\":\"agent_message\",\"message\":\"Let me look at the topic before answering.\"}}''
      else
        println ''{\"type\":\"system\",\"subtype\":\"init\"}'' @
        println ''{\"type\":\"assistant\",\"message\":{\"content\":[{\"type\":\"text\",\"text\":\"Let me look at the topic before answering.\"}]}}'')"

definition terminal_line :: "(nat \<Rightarrow> bool) \<Rightarrow> string \<Rightarrow> string \<Rightarrow> string" where
  "terminal_line isPrint grammar text =
     (if grammar = ''codex'' then
        println (''{\"id\":\"1\",\"msg\":{\"type\":\"task_complete\",\"last_agent_message\":'' @ go_quote isPrint text @ ''}}'')
      else println (''{\"type\":\"result\",\"subtype\":\"success\",\"result\":'' @ go_quote isPrint text @ ''}''))"

record mock_flags =
  mk_grammar :: string
  mk_reply :: string
  mk_mode :: string
  mk_url :: string
  mk_realm :: string
  mk_persona :: string
  mk_topic :: string

datatype mock_error = MockFlags | MockConnect string | MockClient string | MockPost string | UnknownMode string

definition selfPost :: "sample_env \<Rightarrow> mock_flags \<Rightarrow> mock_error option \<times> sample_call list" where
  "selfPost E f =
     (if mk_url f = [] \<or> mk_realm f = [] \<or> mk_persona f = [] \<or> mk_topic f = [] then (Some MockFlags, [])
      else let c1 = PConnect (mk_url f) None in
      case sm_connect E (mk_url f) None of Some e \<Rightarrow> (Some (MockConnect e), [c1]) | None \<Rightarrow>
      case sm_client E (mk_realm f) (mk_persona f) of Some e \<Rightarrow> (Some (MockClient e), [c1, PClient (mk_realm f) (mk_persona f), PClose]) | None \<Rightarrow>
      (map_option MockPost (sm_post E (mk_topic f) (mk_reply f)),
       [c1, PClient (mk_realm f) (mk_persona f), PPost (mk_topic f) (mk_reply f), PClientClose, PClose]))"

text \<open>A run of the mock: its exit code, its standard output and its calls.  The hang sleeps for five
  minutes and then ends well.\<close>

definition harness_mock :: "(nat \<Rightarrow> bool) \<Rightarrow> sample_env \<Rightarrow> mock_flags \<Rightarrow> nat \<times> string \<times> sample_call list" where
  "harness_mock isPrint E f =
     (let told = narrate (mk_grammar f) in
      if mk_mode f = ''ok'' then (0, told @ terminal_line isPrint (mk_grammar f) (mk_reply f), [])
      else if mk_mode f = ''die'' then (3, told, [])
      else if mk_mode f = ''hang'' then (0, told, [])
      else if mk_mode f = ''self-post'' then
        (case selfPost E f of (Some e, calls) \<Rightarrow> (1, told, calls)
         | (None, calls) \<Rightarrow> (0, told @ terminal_line isPrint (mk_grammar f) ''I have posted my reply in the topic.'', calls))
      else (1, told, []))"

section \<open>The mock under the presets\<close>

text \<open>Printable ASCII that neither quoting treats differently.\<close>

definition mock_safe :: "string \<Rightarrow> bool" where
  "mock_safe s \<longleftrightarrow> list_all (\<lambda>c. 0x20 \<le> byte c \<and> byte c < 0x7F \<and> c \<noteq> CHR ''<'' \<and> c \<noteq> CHR ''>'' \<and> c \<noteq> CHR 0x26) s"

lemma go_quote_safe: "mock_safe s \<Longrightarrow> go_quote isPrint s = json_quote s"
proof -
  have "quote_escape isPrint s = json_escape s" if "mock_safe s"
    using that
  proof (induction s)
    case (Cons c cs)
    then have b: "0x20 \<le> byte c" "byte c < 0x7F" "c \<noteq> CHR ''<''" "c \<noteq> CHR ''>''" "c \<noteq> CHR 0x26" "mock_safe cs"
      by (auto simp: mock_safe_def)
    then have "quote_byte c = escape_byte c" by (auto simp: quote_byte_def escape_byte_def)
    with b Cons.IH show ?case by (simp add: decode_rune_ascii)
  qed simp
  then show "mock_safe s \<Longrightarrow> go_quote isPrint s = json_quote s" by (simp add: go_quote_def json_quote_def)
qed

definition narrated :: "string \<Rightarrow> json list" where
  "narrated grammar =
     (if grammar = ''codex'' then
        [JObj [(''workdir'', JStr ''/''), (''provider'', JStr ''mock''), (''model'', JStr ''harness-mock'')],
         JObj [(''id'', JStr ''1''), (''msg'', JObj [(''type'', JStr ''task_started'')])],
         JObj [(''id'', JStr ''1''), (''msg'', JObj [(''type'', JStr ''agent_message''), (''message'', JStr ''Let me look at the topic before answering.'')])]]
      else
        [JObj [(''type'', JStr ''system''), (''subtype'', JStr ''init'')],
         JObj [(''type'', JStr ''assistant''), (''message'', JObj [(''content'',
           JArr [JObj [(''type'', JStr ''text''), (''text'', JStr ''Let me look at the topic before answering.'')]])])]])"

definition terminal_json :: "string \<Rightarrow> string \<Rightarrow> json" where
  "terminal_json grammar text =
     (if grammar = ''codex'' then
        JObj [(''id'', JStr ''1''), (''msg'', JObj [(''type'', JStr ''task_complete''), (''last_agent_message'', JStr text)])]
      else JObj [(''type'', JStr ''result''), (''subtype'', JStr ''success''), (''result'', JStr text)])"

abbreviation lines :: "json list \<Rightarrow> string" where
  "lines js \<equiv> concat (map (\<lambda>j. json_print j @ newline) js)"

lemma narrate_lines: "narrate grammar = lines (narrated grammar)"
proof -
  have "narrate ''codex'' = lines (narrated ''codex'')" "narrate ''claude'' = lines (narrated ''claude'')" by code_simp+
  moreover have "narrate grammar = narrate ''claude'' \<and> narrated grammar = narrated ''claude''" if "grammar \<noteq> ''codex''"
    using that by (simp add: narrate_def narrated_def)
  ultimately show ?thesis by metis
qed

lemma terminal_lines:
  assumes "mock_safe text"
  shows "terminal_line isPrint grammar text = lines [terminal_json grammar text]"
proof -
  have q: "json_quote ''id'' = quot # ''id'' @ [quot]" "json_quote ''1'' = quot # ''1'' @ [quot]" "json_quote ''msg'' = quot # ''msg'' @ [quot]"
    "json_quote ''type'' = quot # ''type'' @ [quot]" "json_quote ''task_complete'' = quot # ''task_complete'' @ [quot]"
    "json_quote ''last_agent_message'' = quot # ''last_agent_message'' @ [quot]" "json_quote ''result'' = quot # ''result'' @ [quot]"
    "json_quote ''subtype'' = quot # ''subtype'' @ [quot]" "json_quote ''success'' = quot # ''success'' @ [quot]"
    by code_simp+
  show ?thesis
    by (simp add: terminal_line_def terminal_json_def go_quote_safe [OF assms] q)
qed

text \<open>Values of ASCII strings only, without numbers: a check the evaluator can run.\<close>

primrec json_ascii :: "json \<Rightarrow> bool" where
  "json_ascii JNull \<longleftrightarrow> True"
| "json_ascii (JBool b) \<longleftrightarrow> True"
| "json_ascii (JNum n) \<longleftrightarrow> False"
| "json_ascii (JStr s) \<longleftrightarrow> list_all (\<lambda>c. byte c < 128) s"
| "json_ascii (JArr js) \<longleftrightarrow> list_all id (map json_ascii js)"
| "json_ascii (JObj ms) \<longleftrightarrow> list_all (\<lambda>(k, p). list_all (\<lambda>c. byte c < 128) k \<and> p) (map (map_prod id json_ascii) ms)"

lemma ascii_utf8: "list_all (\<lambda>c. byte c < 128) s \<Longrightarrow> utf8_valid s"
  by (rule utf8_valid_ascii) (simp add: list_all_iff)

lemma json_ascii_plain: "json_ascii j \<Longrightarrow> json_plain j"
proof (induction j)
  case (JObj ms)
  then show ?case by (fastforce simp: list_all_iff ascii_utf8 intro: ascii_utf8 simp del: utf8_valid.simps)
qed (auto simp: list_all_iff ascii_utf8 simp del: utf8_valid.simps)

definition line_ok :: "json \<Rightarrow> bool" where
  "line_ok j \<longleftrightarrow> event_ok j \<and> json_ascii j \<and> int (json_depth j) \<le> max_depth"

lemma narrated_ok: "list_all line_ok (narrated grammar)"
proof -
  have "list_all json_ascii (narrated grammar)" by (simp add: narrated_def)
  moreover have "list_all event_ok (narrated grammar)" by (simp add: narrated_def event_ok_def)
  moreover have "list_all (\<lambda>j. int (json_depth j) \<le> max_depth) (narrated grammar)" by (simp add: narrated_def max_depth_def)
  ultimately show ?thesis by (simp add: list_all_iff line_ok_def)
qed

lemma mock_safe_ascii: "mock_safe s \<Longrightarrow> list_all (\<lambda>c. byte c < 128) s"
  unfolding mock_safe_def by (erule list.pred_mono_strong) (elim conjE, linarith)

lemma terminal_json_ok:
  assumes "mock_safe text"
  shows "line_ok (terminal_json grammar text)"
  using mock_safe_ascii [OF assms]
  by (simp add: line_ok_def terminal_json_def event_ok_def max_depth_def)

lemma lines_events:
  assumes "list_all line_ok js"
  shows "stream_events (lines js) = js"
proof -
  have "json_stream [] = []" by code_simp
  then have "json_stream (lines js) = js"
    using json_stream_lines [of js "[]"] assms by (auto simp: list_all_iff line_ok_def json_ascii_plain)
  with assms show ?thesis by (auto simp: stream_events_def takeWhile_eq_all_conv list_all_iff line_ok_def)
qed

abbreviation claude_map :: TerminalMap where
  "claude_map \<equiv> \<lparr>tm_TypeField = ''type'', tm_TerminalValue = ''result'', tm_TextField = ''result'',
     tm_StatusField = ''subtype'', tm_SuccessValue = ''success''\<rparr>"

abbreviation codex_map :: TerminalMap where
  "codex_map \<equiv> \<lparr>tm_TypeField = ''msg.type'', tm_TerminalValue = ''task_complete'', tm_TextField = ''msg.last_agent_message'',
     tm_StatusField = [], tm_SuccessValue = []\<rparr>"

lemma preset_map:
  "Preset preset lane = Inr t \<Longrightarrow> preset = ''claude'' \<and> tpl_Terminal t = claude_map \<or> preset = ''codex'' \<and> tpl_Terminal t = codex_map"
  by (auto simp: Preset_def Let_def split: if_splits)

lemma narrated_quiet:
  "list_all (\<lambda>j. \<not> is_terminal claude_map j) (narrated ''claude'')" "list_all (\<lambda>j. \<not> is_terminal codex_map j) (narrated ''codex'')"
  by code_simp+

lemma terminal_concludes:
  "is_terminal claude_map (terminal_json ''claude'' text)" "is_terminal codex_map (terminal_json ''codex'' text)"
  "event_text claude_map (terminal_json ''claude'' text) = text" "event_text codex_map (terminal_json ''codex'' text) = text"
  "succeeded claude_map (terminal_json ''claude'' text)" "succeeded codex_map (terminal_json ''codex'' text)"
proof -
  have p: "split_on CHR ''.'' ''type'' = [''type'']" "split_on CHR ''.'' ''result'' = [''result'']" "split_on CHR ''.'' ''subtype'' = [''subtype'']"
    "split_on CHR ''.'' ''msg.type'' = [''msg'', ''type'']" "split_on CHR ''.'' ''msg.last_agent_message'' = [''msg'', ''last_agent_message'']"
    by code_simp+
  show "is_terminal claude_map (terminal_json ''claude'' text)" "is_terminal codex_map (terminal_json ''codex'' text)"
    "event_text claude_map (terminal_json ''claude'' text) = text" "event_text codex_map (terminal_json ''codex'' text) = text"
    "succeeded claude_map (terminal_json ''claude'' text)" "succeeded codex_map (terminal_json ''codex'' text)"
    by (simp_all add: is_terminal_def event_text_def succeeded_def dotGet_def p terminal_json_def)
qed

lemma extract_lines:
  assumes "list_all line_ok js" and "list_all (\<lambda>j. \<not> is_terminal m j) js"
  shows "extractTerminal quoted m (Inr (lines js)) = failed ''no terminal event''"
    "line_ok e \<Longrightarrow> is_terminal m e \<Longrightarrow> extractTerminal quoted m (Inr (lines (js @ [e]))) = classify quoted m e"
proof -
  have none: "filter (is_terminal m) js = []" using assms(2) by (simp add: list_all_iff filter_empty_conv)
  show "extractTerminal quoted m (Inr (lines js)) = failed ''no terminal event''"
    by (simp add: extractTerminal_def lines_events [OF assms(1)] last_terminal_eq none Let_def del: map_append)
  assume "line_ok e" "is_terminal m e"
  then have "list_all line_ok (js @ [e])" "filter (is_terminal m) (js @ [e]) = [e]" using assms(1) none by simp_all
  then show "extractTerminal quoted m (Inr (lines (js @ [e]))) = classify quoted m e"
    using lines_events [of "js @ [e]"] by (simp add: extractTerminal_def last_terminal_eq Let_def)
qed

lemma classify_text:
  "succeeded m e \<Longrightarrow> \<not> blank (event_text m e) \<Longrightarrow>
     classify quoted m e = \<lparr>hr_Text = event_text m e, hr_OK = True, hr_Detail = []\<rparr>"
  by (auto simp: classify_def succeeded_def Let_def split: option.splits json.splits)


section \<open>The samples on a backend\<close>

text \<open>The environment a native workload reads.\<close>

definition native_getenv :: "(string \<Rightarrow> string) \<Rightarrow> LaunchSpec \<Rightarrow> string \<Rightarrow> string" where
  "native_getenv getenv spec n = (case map_of (clean_bindings getenv spec (creds_path spec)) n of Some v \<Rightarrow> v | None \<Rightarrow> [])"

lemma creds_path_set: "creds_path spec \<noteq> []"
  by (simp add: creds_path_def path_Join_def path_Clean_def Let_def)

text \<open>agent-echo, launched natively, connects to the first server of its credential with the credential
  file written for it, and speaks as its persona on its topic: what it reads is what the launch
  wrote.\<close>

theorem echo_keeps_the_contract:
  assumes "sm_getenv E = native_getenv getenv spec" and "pc_NatsServers (ls_Cred spec) = server # rest"
    and "list_all (\<lambda>s. CHR '','' \<notin> set s) (server # rest)"
    and "agent_echo E = (None, calls)"
  shows "calls = [PConnect server (Some (creds_path spec)), PClient (ls_Realm spec) (pc_Persona (ls_Cred spec)),
     PPost (ls_Topic spec) (''hello from '' @ pc_Persona (ls_Cred spec)), PClientClose, PClose]"
proof -
  have env: "sm_getenv E ''SOULSTREAM_NATS_SERVERS'' = join_with '','' (server # rest)"
    "sm_getenv E ''SOULSTREAM_NATS_CREDS'' = creds_path spec" "sm_getenv E ''SOULSTREAM_REALM'' = ls_Realm spec"
    "sm_getenv E ''SOULSTREAM_PERSONA'' = pc_Persona (ls_Cred spec)" "sm_getenv E ''SOULSTREAM_TOPIC'' = ls_Topic spec"
    unfolding assms(1) native_getenv_def clean_bindings_def env_names assms(2) by simp_all
  have "split_on CHR '','' (join_with '','' (server # rest)) = server # rest"
    using assms(3) by (intro split_on_join) (auto simp: list_all_iff)
  then have "first_server (join_with '','' (server # rest)) = server" by (simp add: first_server_def)
  then show ?thesis
    using assms(4) creds_path_set [of spec]
    by (auto simp: agent_echo_def env creds_opt_def Let_def split: if_splits option.splits)
qed

text \<open>C36. tool-upper serves within the scope minted for it, and where the agents granted its name may call
  it: the subject it subscribes to is in the tool's permission to subscribe and in the permission to publish
  of every agent that declares the tool.\<close>

theorem tool_call_path:
  assumes "sm_getenv E ''SOULSTREAM_PERSONA'' = sc_Persona s" and "sc_Role s = RoleTool"
    and "PSubscribe subject \<in> set (snd (tool_upper E))"
    and "sc_Role a \<noteq> RoleTool" and "sc_Capabilities a = Some c" and "sc_Persona s \<in> set (cap_Tools c)"
  shows "subject = ServiceSubject (sc_Persona s) \<and> subject \<in> set (perm_Sub (PermissionSet S s)) \<and>
     subject \<in> set (perm_Pub (PermissionSet S a))"
  using assms
  by (auto simp: tool_upper_def PermissionSet_def ServiceSubject_def svcPrefix_def Let_def split: if_splits option.splits)

section \<open>Concrete samples\<close>

definition demo_flags_codex :: mock_flags where
  "demo_flags_codex = \<lparr>mk_grammar = ''codex'', mk_reply = ''pong'', mk_mode = ''ok'', mk_url = [], mk_realm = [], mk_persona = [], mk_topic = []\<rparr>"

definition demo_sample :: sample_env where
  "demo_sample = \<lparr>sm_getenv = native_getenv (\<lambda>_. ''x'') (demo_spec\<lparr>ls_Cred := (ls_Cred demo_spec)\<lparr>pc_NatsServers := [''nats://h'', ''nats://k'']\<rparr>\<rparr>),
     sm_connect = (\<lambda>_ _. None), sm_client = (\<lambda>_ _. None), sm_post = (\<lambda>_ _. None), sm_subscribe = (\<lambda>_. None), sm_flush = None\<rparr>"


theorem echo_keeps_the_contract_witness:
  "\<exists>calls. agent_echo demo_sample = (None, calls) \<and> hd calls = PConnect ''nats://h'' (Some (creds_path demo_spec))"
proof -
  let ?spec = "demo_spec\<lparr>ls_Cred := (ls_Cred demo_spec)\<lparr>pc_NatsServers := [''nats://h'', ''nats://k'']\<rparr>\<rparr>"
  have p: "creds_path ?spec = creds_path demo_spec" by (simp add: creds_path_def)
  have "fst (agent_echo demo_sample) = None" by code_simp
  then obtain calls where c: "agent_echo demo_sample = (None, calls)" by (cases "agent_echo demo_sample") auto
  have "sm_getenv demo_sample = native_getenv (\<lambda>_. ''x'') ?spec" by (simp add: demo_sample_def)
  from echo_keeps_the_contract [OF this _ _ c, of "''nats://h''" "[''nats://k'']"] c p show ?thesis by simp
qed

theorem tool_call_path_witness:
  "PSubscribe (ServiceSubject ''p'') \<in> set (snd (tool_upper demo_sample)) \<and>
   ServiceSubject ''p'' \<in> set (perm_Pub (PermissionSet demo_subjects
     \<lparr>sc_Role = RoleAgent, sc_Persona = ''q'', sc_Topic = [], sc_Capabilities = Some \<lparr>cap_Role = ''r'', cap_Tools = [''p'']\<rparr>\<rparr>))"
proof -
  have p: "PSubscribe (ServiceSubject ''p'') \<in> set (snd (tool_upper demo_sample))" by code_simp
  have n: "sm_getenv demo_sample ''SOULSTREAM_PERSONA'' = ''p''" by code_simp
  show ?thesis
    using tool_call_path [of demo_sample "\<lparr>sc_Role = RoleTool, sc_Persona = ''p'', sc_Topic = [], sc_Capabilities = None\<rparr>",
        OF _ _ p, of "\<lparr>sc_Role = RoleAgent, sc_Persona = ''q'', sc_Topic = [], sc_Capabilities = Some \<lparr>cap_Role = ''r'', cap_Tools = [''p'']\<rparr>\<rparr>"] p n
    by simp
qed

end
