(* ===== verification/Spec2Isabelle.thy ===== *)
theory Spec2Isabelle
  imports Wrap_Budget_Order Commands Dispatcher_Run Samples
begin

text \<open>
  Verification of soulstream-workloads: the Go program that launches workloads (tools and agents)
  for a realm of topics, and the wake engine that drives an agent's harness.

  The program and how its parts interact.

  \<^item> A \<^emph>\<open>declaration\<close> (src/declaration) is the operator-facing contract of a workload.  It is decoded
    strictly from JSON, checked, and carried as the content of a placement.
  \<^item> A \<^emph>\<open>runner\<close> (src/runner) turns a declaration into one running workload and records its life as
    work ops on a topic: it resolves the \<^emph>\<open>artifact\<close> (src/artifact), has a credential \<^emph>\<open>minted\<close>
    (src/minter), and starts the workload on a \<^emph>\<open>backend\<close> (src/backend: native processes, microVMs,
    Kubernetes pods; loopback servers are rewritten by natsurl).
  \<^item> A \<^emph>\<open>fleet node\<close> (src/fleet) races for submitted placements, answers liveness probes for what it
    owns, and reclaims the placements of silent owners.
  \<^item> A \<^emph>\<open>dispatcher\<close> (src/dispatcher) does the same for agents, but hosts the \<^emph>\<open>wake engine\<close>
    (src/wrap) in its own process: the engine subscribes to what wakes the agent, catches up on
    what it missed, and handles the wakes one at a time, each by one harness run and at most one
    turn under a deterministic id.
  \<^item> The \<^emph>\<open>commands\<close> (src/cmd) read the environment and wire the packages.

  Conventions.  A Go struct is a record, an error a value: \<open>'e option\<close> for \<open>error\<close>, \<open>'e + 'a\<close> for
  \<open>(T, error)\<close>, with one constructor for each message of the source.  A string is a list of bytes.
  Durations and times are \<open>int\<close> nanoseconds; \<open>ParseDuration\<close> keeps Go's 64-bit overflow checks, and
  the wait statuses of processes are \<open>32 word\<close>.  A function that talks to the world takes an
  environment record whose fields are the answers, and returns the list of calls it made; where an
  answer may depend on earlier calls the field takes the calls made so far.  The concurrent loops are
  step relations.

  Theories and sources.

  \<^item> \<open>SW_Prelude\<close>: checks, call traces, reachability and two locales, the invariants of a step
    relation (\<open>invariant_system\<close>) and facts stable under interference (\<open>rely_stable\<close>).
  \<^item> \<open>Go_Strings\<close>, \<open>Go_Time\<close>, \<open>Go_Net\<close>, \<open>Go_Json\<close>, \<open>Go_Json_Struct\<close>: what the program uses of Go's
    library: runes, durations, addresses and URLs, the JSON scanner, encoder and decoder into
    typed values.
  \<^item> \<open>Declaration\<close>, \<open>Declaration_Json\<close>: src/declaration, and the placement codec of src/fleet.  Shown:
    \<open>Validate\<close> accepts exactly the declarations of a declarative specification; parsing refuses
    unknown keys; what a submission writes is what its readers decode.
  \<^item> \<open>Artifact\<close>, \<open>Minter\<close>, \<open>Runner\<close>: shown are that resolved bytes are verified, that the minted
    permissions are bounded by the scope (for both minters, one locale \<open>minter_seam\<close>), and what a
    launch and a run publish, by result.
  \<^item> \<open>Fleet\<close>: the placement race, release, sweep and probe; by result, what was called, and that a
    sweep abandons only placements whose owner did not answer.
  \<^item> \<open>Natsurl\<close>, \<open>Backend_Native\<close>, \<open>Backend_Msb\<close>, \<open>Backend_K8s\<close>: src/backend.  Shown: a failed start
    leaves nothing behind and every success has done each step in order; the workload's environment
    obeys one contract on all backends (the locale \<open>workload_env\<close>); exit statuses agree between
    backends; the supervision of a pod over closing watches reports the last state seen.
  \<^item> \<open>Wrap_Correlate\<close>, \<open>Wrap_Config\<close>, \<open>Wrap_Harness\<close>, \<open>Wrap_Harness_Run\<close>, \<open>Wrap_Wake\<close>, \<open>Wrap_Sources\<close>,
    \<open>Wrap_Engine\<close>, \<open>Wrap_Loop_Safety\<close>: src/wrap.  Shown: a wake publishes at most one turn; a run's
    result is that of the last terminal event; the engine handles each declared wake once; and
    \<open>handleWake\<close> refines an abstract growing record in which chains of turns are bounded by the
    budget.
  \<^item> \<open>Wrap_Setup\<close>: what \<open>Wrapper.Run\<close> sets up before its loop (subscriptions, schedules, the tick
    consumer) and the world it hands to \<open>handleWake\<close>: the realm adapter, the record-backed
    instructions and \<open>RunHarness\<close> composed.  Shown: a failed setup leaves no subscription, a successful
    one has exactly the declared sources, and what an agent answers is the text of the last terminal
    event of one of its runs.
  \<^item> \<open>Wrap_Budget_Order\<close>: budgets ordered by strictness (an instance of the library's preorder); engines
    with looser budgets simulate engines with stricter ones.
  \<^item> \<open>Dispatcher\<close>, \<open>Dispatcher_Run\<close>: src/dispatcher.  The setup, the loop, a drain and the other
    goroutines as one step relation; every engine it runs is justified by a read view, no persona is
    served twice, and no sweep takes a placement from a dispatcher that answers for it.
  \<^item> \<open>Claim_Log\<close>: fleet nodes and dispatchers over one log of work ops, whose folding into items is a
    parameter with the arbitration the nodes rely on; two nodes run one placement only when the log
    ended a claim in between.
  \<^item> \<open>Commands\<close>: the two commands of src/cmd that start the services.  \<open>Samples\<close>: the sample workloads
    and the mock harness, where the contracts of the other packages meet: the environment of a
    backend, the scope of a minter, the event grammar of a template.

  Fuel.  The JSON parser runs on \<open>json_fuel s\<close>, shown to be enough for every input (\<open>jvalue_fuel\<close>);
  the ancestry walk runs on the number of operations of the view plus one, shown to be enough for
  every record grown by the engines (\<open>chain_reaches_root\<close>); the parser of IPv6 literals has eight
  groups to read.  The waits of the pod supervision run over the list of rounds seen so far, with
  \<open>None\<close> for still watching.

  Parameters, because their code is not in the repository: the core library (topics and their
  materialised views, work items, identities), NATS, keys and JWTs, the Kubernetes and registry
  clients, UUIDs, SHA-256, the operating system.  They are fields of the environments or arguments, and
  theorems hold for all of them unless a hypothesis says otherwise.

  Not modelled: log lines, flag parsing and signal handling of the commands, the constructors that
  only build a third-party client, and the embedded servers of the tests (src/internal/natstest).
  They hold no logic of their own beyond the calls they make.
\<close>

end
